theory Spec2Isabelle
  imports Complex_Main
begin

section \<open>The account store (utils/economy-db.js)\<close>

text \<open>
  The store is one JSON file, \<open>database/economy.json\<close>, holding \<open>{ users: { id: record } }\<close>.
  Every exported function reads the whole file, changes the parsed object and writes the
  whole file back; all of it is synchronous. The model passes the file explicitly.

  Numbers are modelled as unbounded integers (amounts, balances, millisecond timestamps);
  JavaScript's doubles are exact on integers below \<open>2^53\<close>. On such numbers \<open>x || 0\<close> and
  \<open>Number(x)\<close> are the identity, so \<open>Number(amount || 0)\<close> is \<open>amount\<close>. A user record always
  has its three fields, as \<open>ensureUser\<close> creates it; the defaults \<open>u.history || []\<close> and
  \<open>u.cooldowns || {}\<close> of the source only matter for records edited by hand.
  User identifiers are object keys; they are taken to be ordinary keys (the identifiers that
  reach the store contain a digit or are \<open>unknown\<close>, never a name inherited from
  \<open>Object.prototype\<close>).
\<close>

record entry =
  time :: int
  change :: int

record user =
  gold :: int
  cooldowns :: "string \<rightharpoonup> int"
  history :: "entry list"

record db =
  users :: "string \<rightharpoonup> user"

text \<open>
  The file on disk: missing, present but unreadable or not JSON (\<open>readFileSync\<close> or
  \<open>JSON.parse\<close> throws), or holding a store. Writing is taken to succeed.
\<close>

datatype dbfile = Absent | Unparseable | Stored db

definition emptyDb :: db where
  "emptyDb = \<lparr>users = Map.empty\<rparr>"

definition ensureDbFile :: "dbfile \<Rightarrow> dbfile" where
  "ensureDbFile f = (case f of Absent \<Rightarrow> Stored emptyDb | _ \<Rightarrow> f)"

definition load :: "dbfile \<Rightarrow> db \<times> dbfile" where
  "load f =
     (let f1 = ensureDbFile f
      in case f1 of Stored d \<Rightarrow> (d, f1) | _ \<Rightarrow> (emptyDb, f1))"

definition save :: "db \<Rightarrow> dbfile \<Rightarrow> dbfile" where
  "save data f = (let f1 = ensureDbFile f in Stored data)"

definition getUser :: "string \<Rightarrow> dbfile \<Rightarrow> user option \<times> dbfile" where
  "getUser userId f = (let (d, f1) = load f in (users d userId, f1))"

definition newUser :: user where
  "newUser = \<lparr>gold = 0, cooldowns = Map.empty, history = []\<rparr>"

definition ensureUser :: "string \<Rightarrow> dbfile \<Rightarrow> user \<times> dbfile" where
  "ensureUser userId f =
     (let (d, f1) = load f
      in case users d userId of
           None \<Rightarrow>
             (let d1 = d\<lparr>users := (users d)(userId \<mapsto> newUser)\<rparr>
              in (newUser, save d1 f1))
         | Some u \<Rightarrow> (u, f1))"

definition set_user :: "string \<Rightarrow> user \<Rightarrow> dbfile \<Rightarrow> dbfile" where
  "set_user userId obj f =
     (let (d, f1) = load f
      in save (d\<lparr>users := (users d)(userId \<mapsto> obj)\<rparr>) f1)"

text \<open>\<open>add\<close> and \<open>remove\<close> take the reading of \<open>Date.now()\<close> that stamps the history entry.\<close>

definition add :: "string \<Rightarrow> int \<Rightarrow> int \<Rightarrow> dbfile \<Rightarrow> int \<times> dbfile" where
  "add userId amount now f =
     (let (u, f1) = ensureUser userId f;
          u1 = u\<lparr>gold := gold u + amount\<rparr>;
          u2 = u1\<lparr>history := history u1 @ [\<lparr>time = now, change = amount\<rparr>]\<rparr>
      in (gold u2, set_user userId u2 f1))"

definition remove :: "string \<Rightarrow> int \<Rightarrow> int \<Rightarrow> dbfile \<Rightarrow> int \<times> dbfile" where
  "remove userId amount now f =
     (let (u, f1) = ensureUser userId f;
          u1 = u\<lparr>gold := max 0 (gold u - amount)\<rparr>;
          u2 = u1\<lparr>history := history u1 @ [\<lparr>time = now, change = - amount\<rparr>]\<rparr>
      in (gold u2, set_user userId u2 f1))"

definition setCooldown :: "string \<Rightarrow> string \<Rightarrow> int \<Rightarrow> dbfile \<Rightarrow> dbfile" where
  "setCooldown userId key timestamp f =
     (let (u, f1) = ensureUser userId f;
          u1 = u\<lparr>cooldowns := (cooldowns u)(key \<mapsto> timestamp)\<rparr>
      in set_user userId u1 f1)"

definition getCooldown :: "string \<Rightarrow> string \<Rightarrow> dbfile \<Rightarrow> int \<times> dbfile" where
  "getCooldown userId key f =
     (let (u, f1) = ensureUser userId f
      in (case cooldowns u key of None \<Rightarrow> 0 | Some t \<Rightarrow> t, f1))"

text \<open>\<open>canClaim\<close> reads the clock only when a timestamp other than 0 is recorded.\<close>

definition canClaim :: "string \<Rightarrow> string \<Rightarrow> int \<Rightarrow> int \<Rightarrow> dbfile \<Rightarrow> bool \<times> dbfile" where
  "canClaim userId key ms now f =
     (let (lastClaim, f1) = getCooldown userId key f
      in (if lastClaim = 0 then True else ms \<le> now - lastClaim, f1))"

section \<open>The command handler (commands/Economy.js)\<close>

text \<open>
  The handler receives the message text, the sender's identifier and a reply callback. The
  model returns what is passed to \<open>send\<close> together with the file. What the source takes from
  its surroundings is passed in: the owner test (the owner list comes from a configuration
  that is loaded at start), the readings of \<open>Date.now()\<close>, one per place that reads the clock,
  and the readings of \<open>Math.random()\<close>, \<open>rnd k\<close> being the \<open>k\<close>-th reading of the call, a real
  number in \<open>[0, 1)\<close>. Arithmetic on the readings is real arithmetic.

  Strings are character lists; white space and letter case are those of ASCII. A missing
  argument and an empty one are both falsy in the source, which tests that before any other
  use, so both are the empty string here.
\<close>

record clock =
  claimNow :: int
  waitNow :: int
  historyNow :: int
  cooldownNow :: int

definition rand :: "int \<Rightarrow> int \<Rightarrow> real \<Rightarrow> int" where
  "rand lo hi x = \<lfloor>x * of_int (hi - lo + 1)\<rfloor> + lo"

subsection \<open>Strings\<close>

definition isSpace :: "char \<Rightarrow> bool" where
  "isSpace c = (c \<in> set [CHR '' '', CHR 0x09, CHR 0x0A, CHR 0x0B, CHR 0x0C, CHR 0x0D])"

definition isDigit :: "char \<Rightarrow> bool" where
  "isDigit c = (c \<in> set ''0123456789'')"

definition trim :: "string \<Rightarrow> string" where
  "trim s = rev (dropWhile isSpace (rev (dropWhile isSpace s)))"

text \<open>\<open>s.split(/\s+/)\<close>: the pieces between the runs of white space.\<close>

function splitWs :: "string \<Rightarrow> string list" where
  "splitWs s =
     (let w = takeWhile (\<lambda>c. \<not> isSpace c) s;
          r = dropWhile (\<lambda>c. \<not> isSpace c) s
      in if r = [] then [w] else w # splitWs (dropWhile isSpace r))"
  by pat_completeness auto
termination
proof (relation "measure length", goal_cases)
  case 1
  show ?case by simp
next
  case (2 s w r)
  then obtain c r' where r: "r = c # r'" and c: "isSpace c"
    by (metis hd_dropWhile list.exhaust_sel)
  have "length (dropWhile isSpace r) \<le> length r'"
    using r c by (simp add: length_dropWhile_le)
  moreover have "length r \<le> length s"
    using 2 by (simp add: length_dropWhile_le)
  ultimately show ?case using r by simp
qed

definition lowerChar :: "char \<Rightarrow> char" where
  "lowerChar c =
     (case map_of (zip ''ABCDEFGHIJKLMNOPQRSTUVWXYZ'' ''abcdefghijklmnopqrstuvwxyz'') c of
        None \<Rightarrow> c
      | Some l \<Rightarrow> l)"

definition toLowerCase :: "string \<Rightarrow> string" where
  "toLowerCase s = map lowerChar s"

definition argAt :: "string list \<Rightarrow> nat \<Rightarrow> string" where
  "argAt args i = (if i < length args then args ! i else [])"

definition digitsVal :: "string \<Rightarrow> int" where
  "digitsVal ds = foldl (\<lambda>n c. 10 * n + (of_char c - 48)) 0 ds"

text \<open>
  \<open>parseInt(s, 10)\<close>: leading white space, one optional sign, then the longest run of
  digits; \<open>None\<close> is \<open>NaN\<close>.
\<close>

definition parseInt10 :: "string \<Rightarrow> int option" where
  "parseInt10 s =
     (let t = dropWhile isSpace s;
          neg = (t \<noteq> [] \<and> hd t = CHR ''-'');
          body = (if t \<noteq> [] \<and> (hd t = CHR ''-'' \<or> hd t = CHR ''+'') then tl t else t);
          ds = takeWhile isDigit body
      in if ds = [] then None
         else Some (if neg then - digitsVal ds else digitsVal ds))"

definition parseBet :: "string \<Rightarrow> int" where
  "parseBet a =
     (if a = [] then 0
      else case parseInt10 (filter (\<lambda>c. isDigit c \<or> c = CHR ''-'') a) of
             None \<Rightarrow> 0
           | Some num \<Rightarrow> max 1 num)"

fun hasDigitAt :: "string \<Rightarrow> bool" where
  "hasDigitAt (c # d # r) = ((isDigit c \<and> d = CHR ''@'') \<or> hasDigitAt (d # r))"
| "hasDigitAt _ = False"

definition parseUserArg :: "string \<Rightarrow> string option" where
  "parseUserArg arg =
     (if arg = [] then None
      else let a = trim arg
           in if hasDigitAt a then Some a
              else let digits = filter isDigit a
                   in if digits = [] then None else Some (digits @ ''@s.whatsapp.net''))"

definition nthOpt :: "'a list \<Rightarrow> int \<Rightarrow> 'a option" where
  "nthOpt xs i = (if 0 \<le> i \<and> i < int (length xs) then Some (xs ! nat i) else None)"

subsection \<open>Replies\<close>

text \<open>
  A reply is the message template with the values it shows; the text around them and the
  locale's digit grouping are left out.
\<close>

datatype symbol = Cherry | Lemon | Bell | Star | Seven

datatype slotsLine = Jackpot int int | Pair int | NoWin int

datatype reply =
    Balance int
  | OwnerOnly
  | GiveUsage
  | InvalidRecipient
  | AmountNotPositive
  | Gave int string
  | TryAgainIn int
  | Earned int string
  | WorkAgainIn int
  | Worked string int
  | DailyWait int
  | DailyBonus int
  | WeeklyWait int
  | WeeklyBonus int
  | SpecifyBet
  | InsufficientFunds int
  | SpinLost int
  | SpinWin int int
  | Slots "symbol option" "symbol option" "symbol option" slotsLine
  | RouletteNoPick int string int
  | RouletteHit int string int
  | RouletteMissed int string int
  | RouletteWon int string int int
  | RouletteLost int string int
  | HouseWins int
  | BeatHouse int
  | BigWin int
  | UnknownCommand

text \<open>
  The handler sends a reply, returns without one, or throws a \<open>TypeError\<close> (a property read
  on \<open>null\<close> or \<open>undefined\<close>).
\<close>

datatype outcome = Silent | Sent reply | TypeError

subsection \<open>The commands\<close>

definition cmd_balance :: "string \<Rightarrow> dbfile \<Rightarrow> outcome \<times> dbfile" where
  "cmd_balance userId f =
     (let (u, f1) = getUser userId f
      in case u of None \<Rightarrow> (TypeError, f1) | Some u \<Rightarrow> (Sent (Balance (gold u)), f1))"

definition cmd_give ::
  "(string \<Rightarrow> bool) \<Rightarrow> clock \<Rightarrow> string \<Rightarrow> string list \<Rightarrow> dbfile \<Rightarrow> outcome \<times> dbfile" where
  "cmd_give isOwnerId clk userId args f =
     (if \<not> isOwnerId userId then (Sent OwnerOnly, f)
      else
        let targetArg = argAt args 0; amountArg = argAt args 1
        in if targetArg = [] \<or> amountArg = [] then (Sent GiveUsage, f)
           else case parseUserArg targetArg of
                  None \<Rightarrow> (Sent InvalidRecipient, f)
                | Some recipient \<Rightarrow>
                    (case parseInt10 amountArg of
                       None \<Rightarrow> (Sent AmountNotPositive, f)
                     | Some amount \<Rightarrow>
                         if amount = 0 \<or> amount \<le> 0 then (Sent AmountNotPositive, f)
                         else
                           let (u, f1) = ensureUser recipient f;
                               (g, f2) = add recipient amount (historyNow clk) f1
                           in (Sent (Gave amount recipient), f2)))"

definition waitUnits :: "int \<Rightarrow> int \<Rightarrow> int \<Rightarrow> int \<Rightarrow> int" where
  "waitUnits cooldownMs now lastClaim unit =
     \<lceil>real_of_int (cooldownMs - (now - lastClaim)) / real_of_int unit\<rceil>"

definition cmd_digfish ::
  "clock \<Rightarrow> (nat \<Rightarrow> real) \<Rightarrow> string \<Rightarrow> string \<Rightarrow> dbfile \<Rightarrow> outcome \<times> dbfile" where
  "cmd_digfish clk rnd userId cmd f =
     (let cooldownKey = cmd;
          cooldownMs = 30 * 60 * 1000;
          (ok, f1) = canClaim userId cooldownKey cooldownMs (claimNow clk) f
      in if \<not> ok then
           let (lastClaim, f2) = getCooldown userId cooldownKey f1;
               wait = waitUnits cooldownMs (waitNow clk) lastClaim 60000
           in (Sent (TryAgainIn wait), f2)
         else
           let reward = (if cmd = ''dig'' then rand 10 60 (rnd 0) else rand 8 50 (rnd 0));
               (g, f2) = add userId reward (historyNow clk) f1;
               f3 = setCooldown userId cooldownKey (cooldownNow clk) f2
           in (Sent (Earned reward cmd), f3))"

definition jobs :: "string list" where
  "jobs = [''miner'', ''developer'', ''chef'', ''driver'', ''artist'']"

definition jobReward :: "string \<Rightarrow> real \<Rightarrow> int" where
  "jobReward job x =
     (let j = toLowerCase job
      in if j = ''developer'' then rand 150 350 x
         else if j = ''miner'' then rand 100 300 x
         else if j = ''chef'' then rand 60 200 x
         else if j = ''driver'' then rand 50 180 x
         else if j = ''artist'' then rand 40 150 x
         else rand 50 200 x)"

definition cmd_work ::
  "clock \<Rightarrow> (nat \<Rightarrow> real) \<Rightarrow> string \<Rightarrow> string list \<Rightarrow> dbfile \<Rightarrow> outcome \<times> dbfile" where
  "cmd_work clk rnd userId args f =
     (let cooldownKey = ''work'';
          cooldownMs = 60 * 60 * 1000;
          (ok, f1) = canClaim userId cooldownKey cooldownMs (claimNow clk) f
      in if \<not> ok then
           let (lastClaim, f2) = getCooldown userId cooldownKey f1;
               wait = waitUnits cooldownMs (waitNow clk) lastClaim 60000
           in (Sent (WorkAgainIn wait), f2)
         else
           let given = (argAt args 0 \<noteq> []);
               job = (if given then Some (argAt args 0)
                      else nthOpt jobs (rand 0 (int (length jobs) - 1) (rnd 0)));
               k = (if given then 0 else 1)
           in case job of
                None \<Rightarrow> (TypeError, f1)
              | Some job \<Rightarrow>
                  let reward = jobReward job (rnd k);
                      (g, f2) = add userId reward (historyNow clk) f1;
                      f3 = setCooldown userId cooldownKey (cooldownNow clk) f2
                  in (Sent (Worked job reward), f3))"

definition MS_HOUR :: int where "MS_HOUR = 3600 * 1000"
definition MS_DAY :: int where "MS_DAY = 24 * 3600 * 1000"
definition MS_WEEK :: int where "MS_WEEK = 7 * 24 * 3600 * 1000"

definition cmd_daily ::
  "clock \<Rightarrow> (nat \<Rightarrow> real) \<Rightarrow> string \<Rightarrow> dbfile \<Rightarrow> outcome \<times> dbfile" where
  "cmd_daily clk rnd userId f =
     (let key = ''daily'';
          (ok, f1) = canClaim userId key MS_DAY (claimNow clk) f
      in if \<not> ok then
           let (lastClaim, f2) = getCooldown userId key f1;
               waitH = waitUnits MS_DAY (waitNow clk) lastClaim (3600 * 1000)
           in (Sent (DailyWait waitH), f2)
         else
           let reward = rand 150 400 (rnd 0);
               (g, f2) = add userId reward (historyNow clk) f1;
               f3 = setCooldown userId key (cooldownNow clk) f2
           in (Sent (DailyBonus reward), f3))"

definition cmd_weekly ::
  "clock \<Rightarrow> (nat \<Rightarrow> real) \<Rightarrow> string \<Rightarrow> dbfile \<Rightarrow> outcome \<times> dbfile" where
  "cmd_weekly clk rnd userId f =
     (let key = ''weekly'';
          (ok, f1) = canClaim userId key MS_WEEK (claimNow clk) f
      in if \<not> ok then
           let (lastClaim, f2) = getCooldown userId key f1;
               waitDays = waitUnits MS_WEEK (waitNow clk) lastClaim MS_DAY
           in (Sent (WeeklyWait waitDays), f2)
         else
           let reward = rand 1000 3000 (rnd 0);
               (g, f2) = add userId reward (historyNow clk) f1;
               f3 = setCooldown userId key (cooldownNow clk) f2
           in (Sent (WeeklyBonus reward), f3))"

text \<open>\<open>stakeAndCheck\<close>: \<open>Inl\<close> is \<open>{ ok: false, msg }\<close>, \<open>Inr\<close> is \<open>{ ok: true, bal }\<close>.\<close>

definition stakeAndCheck :: "string \<Rightarrow> int \<Rightarrow> dbfile \<Rightarrow> (reply + int) \<times> dbfile" where
  "stakeAndCheck userId bet f =
     (let (u, f1) = getUser userId f;
          bal = (case u of None \<Rightarrow> 0 | Some u \<Rightarrow> gold u)
      in if bet \<le> 0 then (Inl SpecifyBet, f1)
         else if bet > bal then (Inl (InsufficientFunds bal), f1)
         else (Inr bal, f1))"

definition cmd_spin ::
  "clock \<Rightarrow> (nat \<Rightarrow> real) \<Rightarrow> string \<Rightarrow> string list \<Rightarrow> dbfile \<Rightarrow> outcome \<times> dbfile" where
  "cmd_spin clk rnd userId args f =
     (let bet = parseBet (argAt args 0);
          (chk, f1) = stakeAndCheck userId bet f
      in case chk of
           Inl msg \<Rightarrow> (Sent msg, f1)
         | Inr bal \<Rightarrow>
             let r = rnd 0 * 100;
                 mult = (if r < 50 then 0 else if r < 85 then 2 else if r < 97 then 5 else 10)
             in if mult = 0 then
                  let (g, f2) = remove userId bet (historyNow clk) f1
                  in (Sent (SpinLost bet), f2)
                else
                  let win = bet * mult;
                      (g, f2) = add userId win (historyNow clk) f1
                  in (Sent (SpinWin mult win), f2))"

definition symbols :: "symbol list" where
  "symbols = [Cherry, Lemon, Bell, Star, Seven]"

definition cmd_slots ::
  "clock \<Rightarrow> (nat \<Rightarrow> real) \<Rightarrow> string \<Rightarrow> string list \<Rightarrow> dbfile \<Rightarrow> outcome \<times> dbfile" where
  "cmd_slots clk rnd userId args f =
     (let bet = parseBet (argAt args 0);
          (chk, f1) = stakeAndCheck userId bet f
      in case chk of
           Inl msg \<Rightarrow> (Sent msg, f1)
         | Inr bal \<Rightarrow>
             let a = nthOpt symbols (rand 0 (int (length symbols) - 1) (rnd 0));
                 b = nthOpt symbols (rand 0 (int (length symbols) - 1) (rnd 1));
                 c = nthOpt symbols (rand 0 (int (length symbols) - 1) (rnd 2))
             in if a = b \<and> b = c then
                  let mult = (if a = Some Seven then 10 else 5);
                      win = bet * mult;
                      (g, f2) = add userId win (historyNow clk) f1
                  in (Sent (Slots a b c (Jackpot mult win)), f2)
                else if a = b \<or> b = c \<or> a = c then
                  let win = bet * 2;
                      (g, f2) = add userId win (historyNow clk) f1
                  in (Sent (Slots a b c (Pair win)), f2)
                else
                  let (g, f2) = remove userId bet (historyNow clk) f1
                  in (Sent (Slots a b c (NoWin bet)), f2))"

definition wheelColor :: "int \<Rightarrow> string" where
  "wheelColor wheelNum =
     (if wheelNum = 0 then ''green'' else if wheelNum mod 2 = 0 then ''black'' else ''red'')"

definition cmd_roulette ::
  "clock \<Rightarrow> (nat \<Rightarrow> real) \<Rightarrow> string \<Rightarrow> string list \<Rightarrow> dbfile \<Rightarrow> outcome \<times> dbfile" where
  "cmd_roulette clk rnd userId args f =
     (let bet = parseBet (argAt args 0);
          pick = toLowerCase (argAt args 1);
          (chk, f1) = stakeAndCheck userId bet f
      in case chk of
           Inl msg \<Rightarrow> (Sent msg, f1)
         | Inr bal \<Rightarrow>
             let wheelNum = rand 0 36 (rnd 0);
                 color = wheelColor wheelNum
             in if pick = [] then
                  let (g, f2) = remove userId bet (historyNow clk) f1
                  in (Sent (RouletteNoPick wheelNum color bet), f2)
                else if list_all isDigit pick then
                  let pickNum = parseInt10 pick
                  in if pickNum = Some wheelNum then
                       let win = bet * 36;
                           (g, f2) = add userId win (historyNow clk) f1
                       in (Sent (RouletteHit wheelNum color win), f2)
                     else
                       let (g, f2) = remove userId bet (historyNow clk) f1
                       in (Sent (RouletteMissed wheelNum color bet), f2)
                else if pick = color then
                  let mult = (if color = ''green'' then 14 else 2);
                      win = bet * mult;
                      (g, f2) = add userId win (historyNow clk) f1
                  in (Sent (RouletteWon wheelNum color mult win), f2)
                else
                  let (g, f2) = remove userId bet (historyNow clk) f1
                  in (Sent (RouletteLost wheelNum color bet), f2))"

definition cmd_casino ::
  "clock \<Rightarrow> (nat \<Rightarrow> real) \<Rightarrow> string \<Rightarrow> string list \<Rightarrow> dbfile \<Rightarrow> outcome \<times> dbfile" where
  "cmd_casino clk rnd userId args f =
     (let bet = parseBet (argAt args 0);
          (chk, f1) = stakeAndCheck userId bet f
      in case chk of
           Inl msg \<Rightarrow> (Sent msg, f1)
         | Inr bal \<Rightarrow>
             let r = rnd 0 * 100
             in if r < 45 then
                  let (g, f2) = remove userId bet (historyNow clk) f1
                  in (Sent (HouseWins bet), f2)
                else if r < 85 then
                  let win = bet * 2;
                      (g, f2) = add userId win (historyNow clk) f1
                  in (Sent (BeatHouse win), f2)
                else
                  let win = bet * 5;
                      (g, f2) = add userId win (historyNow clk) f1
                  in (Sent (BigWin win), f2))"

text \<open>The handler after the message is split: \<open>ensureUser\<close>, then the command's branch.\<close>

definition handler_cmd ::
  "(string \<Rightarrow> bool) \<Rightarrow> clock \<Rightarrow> (nat \<Rightarrow> real) \<Rightarrow> string \<Rightarrow> string \<Rightarrow> string list \<Rightarrow> dbfile
     \<Rightarrow> outcome \<times> dbfile" where
  "handler_cmd isOwnerId clk rnd userId cmd args f =
     (let (u, f1) = ensureUser userId f
      in if cmd = ''balance'' \<or> cmd = ''bal'' then cmd_balance userId f1
         else if cmd = ''give'' \<or> cmd = ''grant'' then cmd_give isOwnerId clk userId args f1
         else if cmd = ''dig'' \<or> cmd = ''fish'' then cmd_digfish clk rnd userId cmd f1
         else if cmd = ''work'' then cmd_work clk rnd userId args f1
         else if cmd = ''daily'' then cmd_daily clk rnd userId f1
         else if cmd = ''weekly'' then cmd_weekly clk rnd userId f1
         else if cmd = ''spin'' then cmd_spin clk rnd userId args f1
         else if cmd = ''slots'' then cmd_slots clk rnd userId args f1
         else if cmd = ''roulette'' then cmd_roulette clk rnd userId args f1
         else if cmd = ''casino'' then cmd_casino clk rnd userId args f1
         else (Sent UnknownCommand, f1))"

definition handler ::
  "(string \<Rightarrow> bool) \<Rightarrow> clock \<Rightarrow> (nat \<Rightarrow> real) \<Rightarrow> string \<Rightarrow> string \<Rightarrow> dbfile
     \<Rightarrow> outcome \<times> dbfile" where
  "handler isOwnerId clk rnd messageText userId f =
     (if messageText = [] \<or> userId = [] then (Silent, f)
      else case splitWs (trim messageText) of
             [] \<Rightarrow> (TypeError, f)
           | p # args \<Rightarrow>
               let cmd = toLowerCase (dropWhile (\<lambda>c. c = CHR ''.'') p)
               in handler_cmd isOwnerId clk rnd userId cmd args f)"

subsection \<open>What a file holds\<close>

definition usersOf :: "dbfile \<Rightarrow> string \<rightharpoonup> user" where
  "usersOf f = users (fst (load f))"

definition account :: "dbfile \<Rightarrow> string \<Rightarrow> user" where
  "account f userId = (case usersOf f userId of None \<Rightarrow> newUser | Some u \<Rightarrow> u)"

definition historySum :: "user \<Rightarrow> int" where
  "historySum u = sum_list (map change (history u))"

subsection \<open>Sequences of operations on one store\<close>

text \<open>
  The calls a store can receive: the exported functions of the store module, called
  directly, and the handler, called with a message. \<open>run\<close> performs them one after the other.
\<close>

datatype operation =
    EnsureUser string
  | GetUser string
  | Add string int int
  | Remove string int int
  | SetCooldown string string int
  | GetCooldown string string
  | CanClaim string string int int
  | Command "string \<Rightarrow> bool" clock "nat \<Rightarrow> real" string string

fun step :: "operation \<Rightarrow> dbfile \<Rightarrow> dbfile" where
  "step (EnsureUser userId) f = snd (ensureUser userId f)"
| "step (GetUser userId) f = snd (getUser userId f)"
| "step (Add userId amount now) f = snd (add userId amount now f)"
| "step (Remove userId amount now) f = snd (remove userId amount now f)"
| "step (SetCooldown userId key timestamp) f = setCooldown userId key timestamp f"
| "step (GetCooldown userId key) f = snd (getCooldown userId key f)"
| "step (CanClaim userId key ms now) f = snd (canClaim userId key ms now f)"
| "step (Command isOwnerId clk rnd messageText userId) f =
     snd (handler isOwnerId clk rnd messageText userId f)"

fun run :: "operation list \<Rightarrow> dbfile \<Rightarrow> dbfile" where
  "run [] f = f"
| "run (x # xs) f = run xs (step x f)"

text \<open>A property of every account that the store holds.\<close>

definition allAccounts :: "(user \<Rightarrow> bool) \<Rightarrow> dbfile \<Rightarrow> bool" where
  "allAccounts P f = (\<forall>userId u. usersOf f userId = Some u \<longrightarrow> P u)"

text \<open>Every balance of the store is at least 0.\<close>

definition nonNegative :: "dbfile \<Rightarrow> bool" where
  "nonNegative f = allAccounts (\<lambda>u. 0 \<le> gold u) f"

text \<open>In every account of the store the history's changes sum to the balance.\<close>

definition balanced :: "dbfile \<Rightarrow> bool" where
  "balanced f = allAccounts (\<lambda>u. historySum u = gold u) f"

text \<open>
  The amounts of the direct calls are at least 0 and the readings of \<open>Math.random()\<close> are in
  \<open>[0, 1)\<close>.
\<close>

fun wellFormed :: "operation \<Rightarrow> bool" where
  "wellFormed (Add userId amount now) = (0 \<le> amount)"
| "wellFormed (Remove userId amount now) = (0 \<le> amount)"
| "wellFormed (Command isOwnerId clk rnd messageText userId) = (\<forall>k. 0 \<le> rnd k \<and> rnd k < 1)"
| "wellFormed _ = True"

text \<open>No direct \<open>remove\<close> of the sequence asks for more than the balance it finds.\<close>

fun unclamped :: "operation list \<Rightarrow> dbfile \<Rightarrow> bool" where
  "unclamped [] f = True"
| "unclamped (Remove userId amount now # xs) f =
     (amount \<le> gold (account f userId) \<and> unclamped xs (step (Remove userId amount now) f))"
| "unclamped (x # xs) f = unclamped xs (step x f)"

text \<open>
  A property of accounts that holds of a new account and that survives the three changes the
  handler makes to an account: a credit, which is at least 0 when \<open>good\<close> (the readings of
  \<open>Math.random()\<close> being at least 0), a debit between 0 and the balance, and a new cooldown.
\<close>

definition ledgerClosed :: "(user \<Rightarrow> bool) \<Rightarrow> bool \<Rightarrow> bool" where
  "ledgerClosed P good =
     (P newUser
      \<and> (\<forall>u a t. P u \<longrightarrow> (good \<longrightarrow> 0 \<le> a) \<longrightarrow>
            P (u\<lparr>gold := gold u + a, history := history u @ [\<lparr>time = t, change = a\<rparr>]\<rparr>))
      \<and> (\<forall>u a t. P u \<longrightarrow> 0 \<le> a \<longrightarrow> a \<le> gold u \<longrightarrow>
            P (u\<lparr>gold := max 0 (gold u - a),
                 history := history u @ [\<lparr>time = t, change = - a\<rparr>]\<rparr>))
      \<and> (\<forall>u k ts. P u \<longrightarrow> P (u\<lparr>cooldowns := (cooldowns u)(k \<mapsto> ts)\<rparr>)))"

text \<open>The record of an account after the change \<open>d\<close> of its balance was made and recorded.\<close>

definition settled :: "user \<Rightarrow> int \<Rightarrow> int \<Rightarrow> user" where
  "settled u d t = u\<lparr>gold := gold u + d, history := history u @ [\<lparr>time = t, change = d\<rparr>]\<rparr>"

text \<open>The commands that stake a bet, and the replies that decline one.\<close>

definition isWager :: "string \<Rightarrow> bool" where
  "isWager cmd = (cmd \<in> set [''spin'', ''slots'', ''roulette'', ''casino''])"

definition isDecline :: "outcome \<Rightarrow> bool" where
  "isDecline out =
     (case out of
        Sent SpecifyBet \<Rightarrow> True
      | Sent (InsufficientFunds bal) \<Rightarrow> True
      | _ \<Rightarrow> False)"

text \<open>
  The commands that earn under a cooldown, with the period, the unit of the reported wait
  and the two replies that each branch of the handler uses.
\<close>

definition isEarning :: "string \<Rightarrow> bool" where
  "isEarning cmd = (cmd \<in> set [''dig'', ''fish'', ''work'', ''daily'', ''weekly''])"

definition cooldownOf :: "string \<Rightarrow> int" where
  "cooldownOf cmd =
     (if cmd = ''dig'' \<or> cmd = ''fish'' then 30 * 60 * 1000
      else if cmd = ''work'' then 60 * 60 * 1000
      else if cmd = ''daily'' then MS_DAY
      else MS_WEEK)"

definition waitUnitOf :: "string \<Rightarrow> int" where
  "waitUnitOf cmd =
     (if cmd = ''dig'' \<or> cmd = ''fish'' \<or> cmd = ''work'' then 60000
      else if cmd = ''daily'' then 3600 * 1000
      else MS_DAY)"

definition waitReply :: "string \<Rightarrow> int \<Rightarrow> reply" where
  "waitReply cmd wait =
     (if cmd = ''dig'' \<or> cmd = ''fish'' then TryAgainIn wait
      else if cmd = ''work'' then WorkAgainIn wait
      else if cmd = ''daily'' then DailyWait wait
      else WeeklyWait wait)"

definition grantReply :: "string \<Rightarrow> string \<Rightarrow> int \<Rightarrow> reply" where
  "grantReply cmd job reward =
     (if cmd = ''dig'' \<or> cmd = ''fish'' then Earned reward cmd
      else if cmd = ''work'' then Worked job reward
      else if cmd = ''daily'' then DailyBonus reward
      else WeeklyBonus reward)"

text \<open>The timestamp that \<open>getCooldown\<close> returns: 0 when none is recorded.\<close>

definition lastOf :: "dbfile \<Rightarrow> string \<Rightarrow> string \<Rightarrow> int" where
  "lastOf f userId key = (case cooldowns (account f userId) key of None \<Rightarrow> 0 | Some t \<Rightarrow> t)"

subsection \<open>Calls that run at the same time in one process\<close>

text \<open>
  The handler is an \<open>async\<close> function and the store is synchronous. A call runs without
  interruption up to its next \<open>await\<close>; there other calls of the same process may run. A
  wager call awaits twice before it is settled: \<open>await db.ensureUser(userId)\<close> at the start
  of the handler, and \<open>await stakeAndCheck(bet)\<close> in the command's branch. So it runs in
  three pieces: \<open>ensureUser\<close>; the reading of the bet and the funds test; and, for a bet
  that passed, the draw with the credit or debit and the reply. The third pieces of the four
  wager commands follow, each as the source has it after its test of \<open>chk.ok\<close>.
\<close>

definition spin_settle ::
  "clock \<Rightarrow> (nat \<Rightarrow> real) \<Rightarrow> string \<Rightarrow> int \<Rightarrow> dbfile \<Rightarrow> outcome \<times> dbfile" where
  "spin_settle clk rnd userId bet f1 =
     (let r = rnd 0 * 100;
          mult = (if r < 50 then 0 else if r < 85 then 2 else if r < 97 then 5 else 10)
      in if mult = 0 then
           let (g, f2) = remove userId bet (historyNow clk) f1
           in (Sent (SpinLost bet), f2)
         else
           let win = bet * mult;
               (g, f2) = add userId win (historyNow clk) f1
           in (Sent (SpinWin mult win), f2))"

definition slots_settle ::
  "clock \<Rightarrow> (nat \<Rightarrow> real) \<Rightarrow> string \<Rightarrow> int \<Rightarrow> dbfile \<Rightarrow> outcome \<times> dbfile" where
  "slots_settle clk rnd userId bet f1 =
     (let a = nthOpt symbols (rand 0 (int (length symbols) - 1) (rnd 0));
          b = nthOpt symbols (rand 0 (int (length symbols) - 1) (rnd 1));
          c = nthOpt symbols (rand 0 (int (length symbols) - 1) (rnd 2))
      in if a = b \<and> b = c then
           let mult = (if a = Some Seven then 10 else 5);
               win = bet * mult;
               (g, f2) = add userId win (historyNow clk) f1
           in (Sent (Slots a b c (Jackpot mult win)), f2)
         else if a = b \<or> b = c \<or> a = c then
           let win = bet * 2;
               (g, f2) = add userId win (historyNow clk) f1
           in (Sent (Slots a b c (Pair win)), f2)
         else
           let (g, f2) = remove userId bet (historyNow clk) f1
           in (Sent (Slots a b c (NoWin bet)), f2))"

definition roulette_settle ::
  "clock \<Rightarrow> (nat \<Rightarrow> real) \<Rightarrow> string \<Rightarrow> int \<Rightarrow> string \<Rightarrow> dbfile \<Rightarrow> outcome \<times> dbfile" where
  "roulette_settle clk rnd userId bet pick f1 =
     (let wheelNum = rand 0 36 (rnd 0);
          color = wheelColor wheelNum
      in if pick = [] then
           let (g, f2) = remove userId bet (historyNow clk) f1
           in (Sent (RouletteNoPick wheelNum color bet), f2)
         else if list_all isDigit pick then
           let pickNum = parseInt10 pick
           in if pickNum = Some wheelNum then
                let win = bet * 36;
                    (g, f2) = add userId win (historyNow clk) f1
                in (Sent (RouletteHit wheelNum color win), f2)
              else
                let (g, f2) = remove userId bet (historyNow clk) f1
                in (Sent (RouletteMissed wheelNum color bet), f2)
         else if pick = color then
           let mult = (if color = ''green'' then 14 else 2);
               win = bet * mult;
               (g, f2) = add userId win (historyNow clk) f1
           in (Sent (RouletteWon wheelNum color mult win), f2)
         else
           let (g, f2) = remove userId bet (historyNow clk) f1
           in (Sent (RouletteLost wheelNum color bet), f2))"

definition casino_settle ::
  "clock \<Rightarrow> (nat \<Rightarrow> real) \<Rightarrow> string \<Rightarrow> int \<Rightarrow> dbfile \<Rightarrow> outcome \<times> dbfile" where
  "casino_settle clk rnd userId bet f1 =
     (let r = rnd 0 * 100
      in if r < 45 then
           let (g, f2) = remove userId bet (historyNow clk) f1
           in (Sent (HouseWins bet), f2)
         else if r < 85 then
           let win = bet * 2;
               (g, f2) = add userId win (historyNow clk) f1
           in (Sent (BeatHouse win), f2)
         else
           let win = bet * 5;
               (g, f2) = add userId win (historyNow clk) f1
           in (Sent (BigWin win), f2))"

text \<open>
  A wager call with what it reads from its surroundings, and how far it has come: called,
  past \<open>ensureUser\<close>, past \<open>stakeAndCheck\<close> with its result, or returned with its reply.
\<close>

record call =
  callCmd :: string
  callArgs :: "string list"
  callClock :: clock
  callRandom :: "nat \<Rightarrow> real"

datatype stage = Called | Ensured | Checked "reply + int" | Returned outcome

definition settle :: "string \<Rightarrow> call \<Rightarrow> dbfile \<Rightarrow> outcome \<times> dbfile" where
  "settle userId c f1 =
     (let cmd = callCmd c;
          bet = parseBet (argAt (callArgs c) 0)
      in if cmd = ''spin'' then spin_settle (callClock c) (callRandom c) userId bet f1
         else if cmd = ''slots'' then slots_settle (callClock c) (callRandom c) userId bet f1
         else if cmd = ''roulette'' then
           roulette_settle (callClock c) (callRandom c) userId bet
             (toLowerCase (argAt (callArgs c) 1)) f1
         else casino_settle (callClock c) (callRandom c) userId bet f1)"

text \<open>The next piece of a call, run on the file as it is then.\<close>

fun advance :: "string \<Rightarrow> call \<Rightarrow> stage \<Rightarrow> dbfile \<Rightarrow> stage \<times> dbfile" where
  "advance userId c Called f = (Ensured, snd (ensureUser userId f))"
| "advance userId c Ensured f =
     (let (chk, f1) = stakeAndCheck userId (parseBet (argAt (callArgs c) 0)) f
      in (Checked chk, f1))"
| "advance userId c (Checked chk) f =
     (case chk of
        Inl msg \<Rightarrow> (Returned (Sent msg), f)
      | Inr bal \<Rightarrow> (let (out, f2) = settle userId c f in (Returned out, f2)))"
| "advance userId c (Returned out) f = (Returned out, f)"

text \<open>
  A schedule is the list of the calls' numbers in the order in which their pieces run;
  \<open>exec\<close> runs it. A number that names no call, or a call that has returned, does nothing.
\<close>

fun stepAt :: "string \<Rightarrow> call list \<Rightarrow> nat \<Rightarrow> stage list \<times> dbfile \<Rightarrow> stage list \<times> dbfile" where
  "stepAt userId calls i (stages, f) =
     (if i < length calls \<and> i < length stages then
        let (s, f1) = advance userId (calls ! i) (stages ! i) f
        in (stages[i := s], f1)
      else (stages, f))"

fun exec :: "string \<Rightarrow> call list \<Rightarrow> nat list \<Rightarrow> stage list \<times> dbfile \<Rightarrow> stage list \<times> dbfile" where
  "exec userId calls [] sf = sf"
| "exec userId calls (i # sched) sf = exec userId calls sched (stepAt userId calls i sf)"

definition isReturned :: "stage \<Rightarrow> bool" where
  "isReturned s = (case s of Returned out \<Rightarrow> True | _ \<Rightarrow> False)"

definition returnedCount :: "stage list \<Rightarrow> nat" where
  "returnedCount stages = length (filter isReturned stages)"

text \<open>The draws of the call make it lose: the branch of its command that calls \<open>remove\<close>.\<close>

definition losing :: "call \<Rightarrow> bool" where
  "losing c =
     (let cmd = callCmd c; rnd = callRandom c
      in if cmd = ''spin'' then rnd 0 * 100 < 50
         else if cmd = ''slots'' then
           (let x = nthOpt symbols (rand 0 (int (length symbols) - 1) (rnd 0));
                y = nthOpt symbols (rand 0 (int (length symbols) - 1) (rnd 1));
                z = nthOpt symbols (rand 0 (int (length symbols) - 1) (rnd 2))
            in \<not> (x = y \<and> y = z) \<and> \<not> (x = y \<or> y = z \<or> x = z))
         else if cmd = ''roulette'' then
           (let w = rand 0 36 (rnd 0);
                pick = toLowerCase (argAt (callArgs c) 1)
            in pick = []
               \<or> (list_all isDigit pick \<and> parseInt10 pick \<noteq> Some w)
               \<or> (\<not> list_all isDigit pick \<and> pick \<noteq> wheelColor w))
         else if cmd = ''casino'' then rnd 0 * 100 < 45
         else False)"

text \<open>A call that is past the funds test passed it, and a reply is not a decline.\<close>

definition passed :: "stage \<Rightarrow> bool" where
  "passed s =
     (case s of
        Checked chk \<Rightarrow> (case chk of Inl msg \<Rightarrow> False | Inr bal \<Rightarrow> True)
      | Returned out \<Rightarrow> \<not> isDecline out
      | _ \<Rightarrow> True)"

text \<open>
  What every schedule of losing calls with the bet \<open>b\<close> keeps, from the file \<open>f0\<close>: one
  debit of \<open>b\<close>, applied and recorded, for every call that has returned.
\<close>

definition scheduleInv ::
  "string \<Rightarrow> int \<Rightarrow> dbfile \<Rightarrow> nat \<Rightarrow> stage list \<times> dbfile \<Rightarrow> bool" where
  "scheduleInv userId b f0 n sf =
     (length (fst sf) = n
      \<and> gold (account (snd sf) userId) =
          gold (account f0 userId) - b * int (returnedCount (fst sf))
      \<and> map change (history (account (snd sf) userId)) =
          map change (history (account f0 userId)) @ replicate (returnedCount (fst sf)) (- b)
      \<and> list_all passed (fst sf))"

text \<open>The number of pieces that a call has run.\<close>

definition rank :: "stage \<Rightarrow> nat" where
  "rank s = (case s of Called \<Rightarrow> 0 | Ensured \<Rightarrow> 1 | Checked chk \<Rightarrow> 2 | Returned out \<Rightarrow> 3)"

text \<open>A call of the store on the account \<open>userId\<close> that is not a handler call.\<close>

definition isStoreCall :: "string \<Rightarrow> operation \<Rightarrow> bool" where
  "isStoreCall userId x =
     (case x of
        EnsureUser u \<Rightarrow> u = userId
      | GetUser u \<Rightarrow> u = userId
      | Add u amount now \<Rightarrow> u = userId
      | Remove u amount now \<Rightarrow> u = userId
      | _ \<Rightarrow> False)"


section \<open>Properties of the store\<close>

lemma usersOf_simps:
  "usersOf Absent = Map.empty"
  "usersOf Unparseable = Map.empty"
  "usersOf (Stored d) = users d"
  by (simp_all add: usersOf_def load_def ensureDbFile_def emptyDb_def)

lemma usersOf_ensureDbFile: "usersOf (ensureDbFile f) = usersOf f"
  by (cases f) (simp_all add: usersOf_def load_def ensureDbFile_def emptyDb_def)

lemma load_eq: "load f = (\<lparr>users = usersOf f\<rparr>, ensureDbFile f)"
  by (cases f) (simp_all add: usersOf_def load_def ensureDbFile_def emptyDb_def)

lemma save_eq: "save d f = Stored d"
  by (simp add: save_def)

lemma getUser_eq: "getUser userId f = (usersOf f userId, ensureDbFile f)"
  by (simp add: getUser_def load_eq)

lemma ensureUser_eq:
  "ensureUser userId f =
     (account f userId,
      if usersOf f userId = None then Stored \<lparr>users = (usersOf f)(userId \<mapsto> newUser)\<rparr>
      else ensureDbFile f)"
  by (simp add: ensureUser_def load_eq save_eq account_def split: option.splits)

lemma ensureUser_fst: "fst (ensureUser userId f) = account f userId"
  by (simp add: ensureUser_eq)

lemma ensureUser_users:
  "usersOf (snd (ensureUser userId f)) = (usersOf f)(userId \<mapsto> account f userId)"
  by (auto simp add: ensureUser_eq usersOf_simps usersOf_ensureDbFile account_def)

lemma set_user_eq: "set_user userId obj f = Stored \<lparr>users = (usersOf f)(userId \<mapsto> obj)\<rparr>"
  by (simp add: set_user_def load_eq save_eq)

lemma add_eq:
  "add userId amount now f =
     (gold (account f userId) + amount,
      Stored \<lparr>users = (usersOf f)(userId \<mapsto>
        (account f userId)\<lparr>gold := gold (account f userId) + amount,
          history := history (account f userId) @ [\<lparr>time = now, change = amount\<rparr>]\<rparr>)\<rparr>)"
  by (simp add: add_def Let_def case_prod_unfold ensureUser_fst ensureUser_users set_user_eq)

lemma remove_eq:
  "remove userId amount now f =
     (max 0 (gold (account f userId) - amount),
      Stored \<lparr>users = (usersOf f)(userId \<mapsto>
        (account f userId)\<lparr>gold := max 0 (gold (account f userId) - amount),
          history := history (account f userId) @ [\<lparr>time = now, change = - amount\<rparr>]\<rparr>)\<rparr>)"
  by (simp add: remove_def Let_def case_prod_unfold ensureUser_fst ensureUser_users set_user_eq)

lemma setCooldown_eq:
  "setCooldown userId key ts f =
     Stored \<lparr>users = (usersOf f)(userId \<mapsto>
        (account f userId)\<lparr>cooldowns := (cooldowns (account f userId))(key \<mapsto> ts)\<rparr>)\<rparr>"
  by (simp add: setCooldown_def Let_def case_prod_unfold ensureUser_fst ensureUser_users
      set_user_eq)

lemma getCooldown_eq:
  "getCooldown userId key f =
     (case cooldowns (account f userId) key of None \<Rightarrow> 0 | Some t \<Rightarrow> t,
      snd (ensureUser userId f))"
  by (simp add: getCooldown_def case_prod_unfold ensureUser_fst)

subsection \<open>Properties that every command keeps\<close>

lemma account_ensureDbFile: "account (ensureDbFile f) userId = account f userId"
  by (simp add: account_def usersOf_ensureDbFile)

lemma account_Stored_upd:
  "account (Stored \<lparr>users = (usersOf f)(a \<mapsto> u)\<rparr>) b = (if b = a then u else account f b)"
  by (simp add: account_def usersOf_simps)

lemma account_ensureUser: "account (snd (ensureUser a f)) b = account f b"
  by (auto simp add: account_def ensureUser_users split: option.splits)

lemma gold_account:
  "gold (account f userId) = (case usersOf f userId of None \<Rightarrow> 0 | Some u \<Rightarrow> gold u)"
  by (simp add: account_def newUser_def split: option.splits)

lemma stakeAndCheck_eq:
  "stakeAndCheck userId bet f =
     (if bet \<le> 0 then Inl SpecifyBet
      else if gold (account f userId) < bet then Inl (InsufficientFunds (gold (account f userId)))
      else Inr (gold (account f userId)),
      ensureDbFile f)"
  by (simp add: stakeAndCheck_def getUser_eq gold_account Let_def)

lemma rand_lower: "0 \<le> x \<Longrightarrow> lo \<le> hi \<Longrightarrow> lo \<le> rand lo hi x"
  by (simp add: rand_def)

lemma rand_upper:
  assumes x: "x < 1" and l: "lo \<le> hi"
  shows "rand lo hi x \<le> hi"
proof -
  define n where "n = hi - lo + 1"
  have n: "0 < n" using l by (simp add: n_def)
  have "x * of_int n < of_int n * 1"
    using x n by (simp add: mult.commute)
  then have "\<lfloor>x * of_int n\<rfloor> < n"
    by (simp add: floor_less_iff)
  then show ?thesis by (simp add: rand_def n_def)
qed

lemma allAccounts_account: "P newUser \<Longrightarrow> allAccounts P f \<Longrightarrow> P (account f userId)"
  by (simp add: allAccounts_def account_def split: option.splits)

lemma allAccounts_ensureDbFile: "allAccounts P (ensureDbFile f) = allAccounts P f"
  by (simp add: allAccounts_def usersOf_ensureDbFile)

lemma allAccounts_Stored_upd:
  "allAccounts P f \<Longrightarrow> P u \<Longrightarrow> allAccounts P (Stored \<lparr>users = (usersOf f)(a \<mapsto> u)\<rparr>)"
  by (simp add: allAccounts_def usersOf_simps)

lemma allAccounts_ensureUser:
  "P newUser \<Longrightarrow> allAccounts P f \<Longrightarrow> allAccounts P (snd (ensureUser userId f))"
  by (simp add: ensureUser_eq allAccounts_Stored_upd allAccounts_ensureDbFile)

lemma allAccounts_getUser: "allAccounts P f \<Longrightarrow> allAccounts P (snd (getUser userId f))"
  by (simp add: getUser_eq allAccounts_ensureDbFile)

lemma allAccounts_getCooldown:
  "P newUser \<Longrightarrow> allAccounts P f \<Longrightarrow> allAccounts P (snd (getCooldown userId key f))"
  by (simp add: getCooldown_eq allAccounts_ensureUser)

lemma allAccounts_canClaim:
  "P newUser \<Longrightarrow> allAccounts P f \<Longrightarrow> allAccounts P (snd (canClaim userId key ms now f))"
  by (simp add: canClaim_def case_prod_unfold Let_def allAccounts_getCooldown)

lemma allAccounts_add:
  assumes "P newUser" "allAccounts P f"
    and "P ((account f userId)\<lparr>gold := gold (account f userId) + amount,
          history := history (account f userId) @ [\<lparr>time = now, change = amount\<rparr>]\<rparr>)"
  shows "allAccounts P (snd (add userId amount now f))"
  using assms by (simp add: add_eq allAccounts_Stored_upd)

lemma allAccounts_remove:
  assumes "P newUser" "allAccounts P f"
    and "P ((account f userId)\<lparr>gold := max 0 (gold (account f userId) - amount),
          history := history (account f userId) @ [\<lparr>time = now, change = - amount\<rparr>]\<rparr>)"
  shows "allAccounts P (snd (remove userId amount now f))"
  using assms by (simp add: remove_eq allAccounts_Stored_upd)

lemma allAccounts_setCooldown:
  assumes "P newUser" "allAccounts P f"
    and "P ((account f userId)\<lparr>cooldowns := (cooldowns (account f userId))(key \<mapsto> ts)\<rparr>)"
  shows "allAccounts P (setCooldown userId key ts f)"
  using assms by (simp add: setCooldown_eq allAccounts_Stored_upd)


lemma closed_new: "ledgerClosed P good \<Longrightarrow> P newUser"
  by (simp add: ledgerClosed_def)

lemma credit_step:
  assumes "ledgerClosed P good" "allAccounts P f" "good \<longrightarrow> 0 \<le> amount"
  shows "allAccounts P (snd (add userId amount now f))"
proof (rule allAccounts_add)
  show "P newUser" using assms(1) by (rule closed_new)
  show "allAccounts P f" by fact
  have "P (account f userId)"
    using assms(1,2) by (simp add: allAccounts_account closed_new)
  then show "P ((account f userId)\<lparr>gold := gold (account f userId) + amount,
          history := history (account f userId) @ [\<lparr>time = now, change = amount\<rparr>]\<rparr>)"
    using assms(1,3) unfolding ledgerClosed_def by blast
qed

lemma debit_step:
  assumes "ledgerClosed P good" "allAccounts P f" "0 \<le> amount" "amount \<le> gold (account f userId)"
  shows "allAccounts P (snd (remove userId amount now f))"
proof (rule allAccounts_remove)
  show "P newUser" using assms(1) by (rule closed_new)
  show "allAccounts P f" by fact
  have "P (account f userId)"
    using assms(1,2) by (simp add: allAccounts_account closed_new)
  then show "P ((account f userId)\<lparr>gold := max 0 (gold (account f userId) - amount),
          history := history (account f userId) @ [\<lparr>time = now, change = - amount\<rparr>]\<rparr>)"
    using assms(1,3,4) unfolding ledgerClosed_def by blast
qed

lemma cooldown_step:
  assumes "ledgerClosed P good" "allAccounts P f"
  shows "allAccounts P (setCooldown userId key ts f)"
proof (rule allAccounts_setCooldown)
  show "P newUser" using assms(1) by (rule closed_new)
  show "allAccounts P f" by fact
  have "P (account f userId)"
    using assms(1,2) by (simp add: allAccounts_account closed_new)
  then show "P ((account f userId)\<lparr>cooldowns := (cooldowns (account f userId))(key \<mapsto> ts)\<rparr>)"
    using assms(1) unfolding ledgerClosed_def by blast
qed

lemma earn_step:
  assumes "ledgerClosed P good" "allAccounts P f" "good \<longrightarrow> 0 \<le> reward"
  shows "allAccounts P (setCooldown userId key ts (snd (add userId reward now
           (snd (canClaim userId key ms t f)))))"
proof -
  have 1: "allAccounts P (snd (canClaim userId key ms t f))"
    by (rule allAccounts_canClaim [OF closed_new [OF assms(1)] assms(2)])
  have 2: "allAccounts P (snd (add userId reward now (snd (canClaim userId key ms t f))))"
    by (rule credit_step [OF assms(1) 1 assms(3)])
  show ?thesis by (rule cooldown_step [OF assms(1) 2])
qed

lemma wait_step:
  assumes "ledgerClosed P good" "allAccounts P f"
  shows "allAccounts P (snd (getCooldown userId key (snd (canClaim userId key ms t f))))"
proof -
  have 1: "allAccounts P (snd (canClaim userId key ms t f))"
    by (rule allAccounts_canClaim [OF closed_new [OF assms(1)] assms(2)])
  show ?thesis by (rule allAccounts_getCooldown [OF closed_new [OF assms(1)] 1])
qed

lemma cmd_digfish_allAccounts:
  assumes "ledgerClosed P (\<forall>k. 0 \<le> rnd k)" "allAccounts P f"
  shows "allAccounts P (snd (cmd_digfish clk rnd userId cmd f))"
proof -
  have r: "(\<forall>k. 0 \<le> rnd k) \<longrightarrow> 0 \<le> rand 10 60 (rnd 0)"
    "(\<forall>k. 0 \<le> rnd k) \<longrightarrow> 0 \<le> rand 8 50 (rnd 0)"
    using rand_lower [of "rnd 0" 10 60] rand_lower [of "rnd 0" 8 50] by auto
  show ?thesis
    unfolding cmd_digfish_def Let_def case_prod_unfold
    using earn_step [OF assms r(1)] earn_step [OF assms r(2)] wait_step [OF assms]
    by (simp split: if_splits)
qed


lemma jobReward_lower: "0 \<le> x \<Longrightarrow> 0 \<le> jobReward job x"
  using rand_lower [of x 150 350] rand_lower [of x 100 300] rand_lower [of x 60 200]
    rand_lower [of x 50 180] rand_lower [of x 40 150] rand_lower [of x 50 200]
  by (simp add: jobReward_def Let_def)

lemma cmd_work_allAccounts:
  assumes "ledgerClosed P (\<forall>k. 0 \<le> rnd k)" "allAccounts P f"
  shows "allAccounts P (snd (cmd_work clk rnd userId args f))"
proof -
  have r: "(\<forall>k. 0 \<le> rnd k) \<longrightarrow> 0 \<le> jobReward job (rnd k)" for job k
    using jobReward_lower [of "rnd k" job] by auto
  have c: "allAccounts P (snd (canClaim userId ''work'' (60 * 60 * 1000) (claimNow clk) f))"
    by (rule allAccounts_canClaim [OF closed_new [OF assms(1)] assms(2)])
  show ?thesis
    unfolding cmd_work_def Let_def case_prod_unfold
    using earn_step [OF assms r] wait_step [OF assms] c
    by (simp split: if_splits option.splits)
qed

lemma cmd_daily_allAccounts:
  assumes "ledgerClosed P (\<forall>k. 0 \<le> rnd k)" "allAccounts P f"
  shows "allAccounts P (snd (cmd_daily clk rnd userId f))"
proof -
  have r: "(\<forall>k. 0 \<le> rnd k) \<longrightarrow> 0 \<le> rand 150 400 (rnd 0)"
    using rand_lower [of "rnd 0" 150 400] by auto
  show ?thesis
    unfolding cmd_daily_def Let_def case_prod_unfold
    using earn_step [OF assms r] wait_step [OF assms]
    by (simp split: if_splits)
qed

lemma cmd_weekly_allAccounts:
  assumes "ledgerClosed P (\<forall>k. 0 \<le> rnd k)" "allAccounts P f"
  shows "allAccounts P (snd (cmd_weekly clk rnd userId f))"
proof -
  have r: "(\<forall>k. 0 \<le> rnd k) \<longrightarrow> 0 \<le> rand 1000 3000 (rnd 0)"
    using rand_lower [of "rnd 0" 1000 3000] by auto
  show ?thesis
    unfolding cmd_weekly_def Let_def case_prod_unfold
    using earn_step [OF assms r] wait_step [OF assms]
    by (simp split: if_splits)
qed

lemma cmd_balance_allAccounts:
  assumes "allAccounts P f"
  shows "allAccounts P (snd (cmd_balance userId f))"
  using assms
  by (simp add: cmd_balance_def getUser_eq allAccounts_ensureDbFile split: option.splits)

lemma cmd_give_allAccounts:
  assumes "ledgerClosed P good" "allAccounts P f"
  shows "allAccounts P (snd (cmd_give isOwnerId clk userId args f))"
proof -
  have g: "allAccounts P (snd (add r a t (snd (ensureUser r f))))" if "0 < a" for r a t
  proof (rule credit_step [OF assms(1)])
    show "allAccounts P (snd (ensureUser r f))"
      by (rule allAccounts_ensureUser [OF closed_new [OF assms(1)] assms(2)])
    show "good \<longrightarrow> 0 \<le> a" using that by simp
  qed
  show ?thesis
    unfolding cmd_give_def Let_def case_prod_unfold
    using assms(2) g
    by (simp split: if_splits option.splits)
qed

lemma wager_lose:
  assumes "ledgerClosed P good" "allAccounts P f" "\<not> bet \<le> 0" "\<not> gold (account f userId) < bet"
  shows "allAccounts P (snd (remove userId bet t (ensureDbFile f)))"
proof (rule debit_step [OF assms(1)])
  show "allAccounts P (ensureDbFile f)" using assms(2) by (simp add: allAccounts_ensureDbFile)
  show "0 \<le> bet" using assms(3) by simp
  show "bet \<le> gold (account (ensureDbFile f) userId)"
    using assms(4) by (simp add: account_ensureDbFile)
qed

lemma wager_win:
  assumes "ledgerClosed P good" "allAccounts P f" "\<not> bet \<le> 0" "0 \<le> m"
  shows "allAccounts P (snd (add userId (bet * m) t (ensureDbFile f)))"
proof (rule credit_step [OF assms(1)])
  show "allAccounts P (ensureDbFile f)" using assms(2) by (simp add: allAccounts_ensureDbFile)
  show "good \<longrightarrow> 0 \<le> bet * m" using assms(3,4) by simp
qed

lemma cmd_spin_allAccounts:
  assumes "ledgerClosed P good" "allAccounts P f"
  shows "allAccounts P (snd (cmd_spin clk rnd userId args f))"
  unfolding cmd_spin_def Let_def case_prod_unfold stakeAndCheck_eq
  using wager_lose [OF assms] wager_win [OF assms] assms(2)
  by (simp add: allAccounts_ensureDbFile split: if_splits)

lemma cmd_slots_allAccounts:
  assumes "ledgerClosed P good" "allAccounts P f"
  shows "allAccounts P (snd (cmd_slots clk rnd userId args f))"
  unfolding cmd_slots_def Let_def case_prod_unfold stakeAndCheck_eq
  using wager_lose [OF assms] wager_win [OF assms] assms(2)
  by (simp add: allAccounts_ensureDbFile split: if_splits)

lemma cmd_roulette_allAccounts:
  assumes "ledgerClosed P good" "allAccounts P f"
  shows "allAccounts P (snd (cmd_roulette clk rnd userId args f))"
  unfolding cmd_roulette_def Let_def case_prod_unfold stakeAndCheck_eq
  using wager_lose [OF assms] wager_win [OF assms] assms(2)
  by (simp add: allAccounts_ensureDbFile split: if_splits)

lemma cmd_casino_allAccounts:
  assumes "ledgerClosed P good" "allAccounts P f"
  shows "allAccounts P (snd (cmd_casino clk rnd userId args f))"
  unfolding cmd_casino_def Let_def case_prod_unfold stakeAndCheck_eq
  using wager_lose [OF assms] wager_win [OF assms] assms(2)
  by (simp add: allAccounts_ensureDbFile split: if_splits)

lemma handler_cmd_allAccounts:
  assumes "ledgerClosed P (\<forall>k. 0 \<le> rnd k)" "allAccounts P f"
  shows "allAccounts P (snd (handler_cmd isOwnerId clk rnd userId cmd args f))"
proof -
  have e: "allAccounts P (snd (ensureUser userId f))"
    by (rule allAccounts_ensureUser [OF closed_new [OF assms(1)] assms(2)])
  show ?thesis
    unfolding handler_cmd_def Let_def case_prod_unfold
    using e
    by (simp add: cmd_balance_allAccounts cmd_give_allAccounts [OF assms(1)]
        cmd_digfish_allAccounts [OF assms(1)] cmd_work_allAccounts [OF assms(1)]
        cmd_daily_allAccounts [OF assms(1)] cmd_weekly_allAccounts [OF assms(1)]
        cmd_spin_allAccounts [OF assms(1)] cmd_slots_allAccounts [OF assms(1)]
        cmd_roulette_allAccounts [OF assms(1)] cmd_casino_allAccounts [OF assms(1)])
qed

lemma handler_allAccounts:
  assumes "ledgerClosed P (\<forall>k. 0 \<le> rnd k)" "allAccounts P f"
  shows "allAccounts P (snd (handler isOwnerId clk rnd messageText userId f))"
  unfolding handler_def Let_def
  using assms(2) handler_cmd_allAccounts [OF assms]
  by (simp split: list.splits)


subsection \<open>Numbers in arguments\<close>

lemma digit_not_space: "isDigit c \<Longrightarrow> \<not> isSpace c"
  by (auto simp add: isDigit_def isSpace_def)

lemma digit_not_sign: "isDigit c \<Longrightarrow> c \<noteq> CHR ''-'' \<and> c \<noteq> CHR ''+''"
  by (auto simp add: isDigit_def)

lemma parseInt10_digits:
  assumes "pick \<noteq> []" "list_all isDigit pick"
  shows "parseInt10 pick = Some (digitsVal pick)"
proof -
  have c: "isDigit (hd pick)" using assms by (cases pick) simp_all
  have t: "takeWhile isDigit pick = pick"
    using assms(2) by (simp add: takeWhile_eq_all_conv list_all_iff)
  have d: "dropWhile isSpace pick = pick"
    using assms(1) digit_not_space [OF c] by (cases pick) simp_all
  have s: "hd pick \<noteq> CHR ''-''" "hd pick \<noteq> CHR ''+''"
    using digit_not_sign [OF c] by simp_all
  have b: "(if pick \<noteq> [] \<and> (hd pick = CHR ''-'' \<or> hd pick = CHR ''+'') then tl pick else pick)
      = pick"
    using s by simp
  show ?thesis
    unfolding parseInt10_def d Let_def b t using s assms(1) by simp
qed

lemma parseBet_digits:
  assumes "a \<noteq> []" "list_all isDigit a"
  shows "parseBet a = max 1 (digitsVal a)"
proof -
  have "filter (\<lambda>c. isDigit c \<or> c = CHR ''-'') a = a"
    using assms(2) by (simp add: list_all_iff)
  then show ?thesis
    using assms by (simp add: parseBet_def parseInt10_digits)
qed

subsection \<open>Creating an account\<close>

text \<open>
  C9. \<open>ensureUser\<close> is idempotent. A second call returns the record of the first and leaves
  the file of the first. On an identifier without an account the call returns a record with
  balance 0, no cooldowns and no history, and stores it beside the accounts that were there;
  on an identifier with an account it returns that record and leaves the file as it is.
\<close>

theorem ensureUser_idempotent:
  "ensureUser userId (snd (ensureUser userId f)) = ensureUser userId f
   \<and> (usersOf f userId = None \<longrightarrow>
        ensureUser userId f = (newUser, Stored \<lparr>users = (usersOf f)(userId \<mapsto> newUser)\<rparr>)
        \<and> gold newUser = 0 \<and> cooldowns newUser = Map.empty \<and> history newUser = [])
   \<and> (\<forall>u. usersOf f userId = Some u \<longrightarrow> ensureUser userId f = (u, f))"
proof (intro conjI allI impI)
  show "ensureUser userId (snd (ensureUser userId f)) = ensureUser userId f"
    by (cases f) (auto simp add: ensureUser_eq usersOf_simps account_def ensureDbFile_def)
next
  assume "usersOf f userId = None"
  then show "ensureUser userId f = (newUser, Stored \<lparr>users = (usersOf f)(userId \<mapsto> newUser)\<rparr>)"
    by (simp add: ensureUser_eq account_def)
next
  fix u assume "usersOf f userId = Some u"
  then show "ensureUser userId f = (u, f)"
    by (cases f) (simp_all add: ensureUser_eq account_def usersOf_simps ensureDbFile_def)
qed (simp_all add: newUser_def)

theorem ensureUser_idempotent_witness:
  "usersOf Absent ''5551234@s.whatsapp.net'' = None
   \<and> ensureUser ''5551234@s.whatsapp.net'' Absent =
      (newUser, Stored \<lparr>users = [''5551234@s.whatsapp.net'' \<mapsto> newUser]\<rparr>)
   \<and> usersOf (Stored \<lparr>users = [''a'' \<mapsto> \<lparr>gold = 7, cooldowns = [''dig'' \<mapsto> 3], history = []\<rparr>]\<rparr>) ''a''
       = Some \<lparr>gold = 7, cooldowns = [''dig'' \<mapsto> 3], history = []\<rparr>
   \<and> ensureUser ''a'' (Stored \<lparr>users = [''a'' \<mapsto> \<lparr>gold = 7, cooldowns = [''dig'' \<mapsto> 3], history = []\<rparr>]\<rparr>) =
      (\<lparr>gold = 7, cooldowns = [''dig'' \<mapsto> 3], history = []\<rparr>,
       Stored \<lparr>users = [''a'' \<mapsto> \<lparr>gold = 7, cooldowns = [''dig'' \<mapsto> 3], history = []\<rparr>]\<rparr>)"
proof -
  let ?d = "\<lparr>users = [''a'' \<mapsto> \<lparr>gold = 7, cooldowns = [''dig'' \<mapsto> 3], history = []\<rparr>]\<rparr>"
  have h1: "usersOf Absent ''5551234@s.whatsapp.net'' = None"
    by (simp add: usersOf_simps)
  have h2: "usersOf (Stored ?d) ''a'' = Some \<lparr>gold = 7, cooldowns = [''dig'' \<mapsto> 3], history = []\<rparr>"
    by (simp add: usersOf_simps)
  have a: "ensureUser ''5551234@s.whatsapp.net'' Absent =
      (newUser, Stored \<lparr>users = [''5551234@s.whatsapp.net'' \<mapsto> newUser]\<rparr>)"
    using ensureUser_idempotent [of "''5551234@s.whatsapp.net''" Absent] h1
    by (simp add: usersOf_simps)
  have b: "ensureUser ''a'' (Stored ?d) =
      (\<lparr>gold = 7, cooldowns = [''dig'' \<mapsto> 3], history = []\<rparr>, Stored ?d)"
    using ensureUser_idempotent [of "''a''" "Stored ?d"] h2 by blast
  show ?thesis using h1 h2 a b by blast
qed

subsection \<open>A missing or unreadable file\<close>

text \<open>
  C10. When the file is absent, or present but unreadable or not JSON, every function of the
  store answers as on an empty store: \<open>getUser\<close> finds no account, \<open>getCooldown\<close> returns 0
  and \<open>canClaim\<close> allows, and a call that writes (\<open>ensureUser\<close>, and with it \<open>getCooldown\<close>,
  \<open>add\<close>, \<open>remove\<close>, \<open>setCooldown\<close>) leaves a file that holds the one account of that call
  and nothing of what the file held before. None of them fails.
\<close>

theorem store_absent_or_unparseable:
  assumes "f = Absent \<or> f = Unparseable"
  shows "fst (getUser userId f) = None
    \<and> fst (getCooldown userId key f) = 0
    \<and> fst (canClaim userId key ms now f) = True
    \<and> snd (getCooldown userId key f) = Stored \<lparr>users = [userId \<mapsto> newUser]\<rparr>
    \<and> ensureUser userId f = (newUser, Stored \<lparr>users = [userId \<mapsto> newUser]\<rparr>)
    \<and> add userId amount now f =
        (amount, Stored \<lparr>users = [userId \<mapsto>
           \<lparr>gold = amount, cooldowns = Map.empty, history = [\<lparr>time = now, change = amount\<rparr>]\<rparr>]\<rparr>)
    \<and> remove userId amount now f =
        (max 0 (- amount), Stored \<lparr>users = [userId \<mapsto>
           \<lparr>gold = max 0 (- amount), cooldowns = Map.empty,
            history = [\<lparr>time = now, change = - amount\<rparr>]\<rparr>]\<rparr>)
    \<and> setCooldown userId key ts f =
        Stored \<lparr>users = [userId \<mapsto> \<lparr>gold = 0, cooldowns = [key \<mapsto> ts], history = []\<rparr>]\<rparr>
    \<and> fst (getUser userId f) = fst (getUser userId (Stored emptyDb))
    \<and> ensureUser userId f = ensureUser userId (Stored emptyDb)
    \<and> getCooldown userId key f = getCooldown userId key (Stored emptyDb)
    \<and> canClaim userId key ms now f = canClaim userId key ms now (Stored emptyDb)
    \<and> add userId amount now f = add userId amount now (Stored emptyDb)
    \<and> remove userId amount now f = remove userId amount now (Stored emptyDb)
    \<and> setCooldown userId key ts f = setCooldown userId key ts (Stored emptyDb)"
proof -
  have u: "usersOf f = Map.empty" "usersOf (Stored emptyDb) = Map.empty"
    using assms by (auto simp add: usersOf_simps emptyDb_def)
  have a: "account f userId = newUser" "account (Stored emptyDb) userId = newUser"
    by (simp_all add: account_def u)
  have e: "ensureUser userId f = (newUser, Stored \<lparr>users = [userId \<mapsto> newUser]\<rparr>)"
    "ensureUser userId (Stored emptyDb) = (newUser, Stored \<lparr>users = [userId \<mapsto> newUser]\<rparr>)"
    by (simp_all add: ensureUser_eq u a)
  have g: "getCooldown userId key f = (0, Stored \<lparr>users = [userId \<mapsto> newUser]\<rparr>)"
    "getCooldown userId key (Stored emptyDb) = (0, Stored \<lparr>users = [userId \<mapsto> newUser]\<rparr>)"
    by (simp_all add: getCooldown_eq e a) (simp_all add: newUser_def)
  have c: "canClaim userId key ms now f = (True, Stored \<lparr>users = [userId \<mapsto> newUser]\<rparr>)"
    "canClaim userId key ms now (Stored emptyDb) = (True, Stored \<lparr>users = [userId \<mapsto> newUser]\<rparr>)"
    by (simp_all add: canClaim_def g)
  show ?thesis
    by (simp add: getUser_eq e g c add_eq remove_eq setCooldown_eq u a) (simp add: newUser_def)
qed

theorem store_absent_or_unparseable_witness:
  "(Unparseable = Absent \<or> Unparseable = Unparseable)
   \<and> fst (getUser ''5551234@s.whatsapp.net'' Unparseable) = None
   \<and> fst (getCooldown ''5551234@s.whatsapp.net'' ''daily'' Unparseable) = 0
   \<and> add ''5551234@s.whatsapp.net'' 40 1700000000000 Unparseable =
        (40, Stored \<lparr>users = [''5551234@s.whatsapp.net'' \<mapsto>
           \<lparr>gold = 40, cooldowns = Map.empty,
            history = [\<lparr>time = 1700000000000, change = 40\<rparr>]\<rparr>]\<rparr>)"
proof -
  have h: "Unparseable = Absent \<or> Unparseable = Unparseable" by simp
  show ?thesis
    using h store_absent_or_unparseable
      [OF h, of "''5551234@s.whatsapp.net''" "''daily''" 0 0 40 0]
      store_absent_or_unparseable
      [OF h, of "''5551234@s.whatsapp.net''" "''daily''" 0 1700000000000 40 0]
    by blast
qed

subsection \<open>Balances stay at or above zero\<close>

lemma nonNegative_closed: "ledgerClosed (\<lambda>u. 0 \<le> gold u) True"
  by (simp add: ledgerClosed_def newUser_def)

lemma historySum_append:
  "historySum (u\<lparr>gold := g, history := history u @ [\<lparr>time = t, change = a\<rparr>]\<rparr>) = historySum u + a"
  by (simp add: historySum_def)

lemma balanced_closed: "ledgerClosed (\<lambda>u. historySum u = gold u) good"
  by (simp add: ledgerClosed_def newUser_def historySum_append) (simp add: historySum_def)

lemma closed_ensureUser:
  "ledgerClosed P good \<Longrightarrow> allAccounts P f \<Longrightarrow> allAccounts P (snd (ensureUser userId f))"
  by (simp add: ledgerClosed_def allAccounts_ensureUser)

lemma closed_getCooldown:
  "ledgerClosed P good \<Longrightarrow> allAccounts P f \<Longrightarrow> allAccounts P (snd (getCooldown userId key f))"
  by (simp add: ledgerClosed_def allAccounts_getCooldown)

lemma closed_canClaim:
  "ledgerClosed P good \<Longrightarrow> allAccounts P f
     \<Longrightarrow> allAccounts P (snd (canClaim userId key ms now f))"
  by (simp add: ledgerClosed_def allAccounts_canClaim)

lemma step_nonNegative:
  assumes "wellFormed x" "nonNegative f"
  shows "nonNegative (step x f)"
proof (cases x)
  case (EnsureUser userId)
  then show ?thesis
    using assms(2) closed_ensureUser [OF nonNegative_closed]
    by (simp add: nonNegative_def)
next
  case (GetUser userId)
  then show ?thesis using assms(2) by (simp add: nonNegative_def allAccounts_getUser)
next
  case (Add userId amount now)
  then have "0 \<le> amount" using assms(1) by simp
  then show ?thesis
    using Add assms(2) credit_step [OF nonNegative_closed, of f amount userId now]
    by (simp add: nonNegative_def)
next
  case (Remove userId amount now)
  have "allAccounts (\<lambda>u. 0 \<le> gold u) (snd (remove userId amount now f))"
    using assms(2)
    by (intro allAccounts_remove) (simp_all add: newUser_def nonNegative_def)
  then show ?thesis using Remove by (simp add: nonNegative_def)
next
  case (SetCooldown userId key ts)
  then show ?thesis
    using assms(2) cooldown_step [OF nonNegative_closed, of f userId key ts]
    by (simp add: nonNegative_def)
next
  case (GetCooldown userId key)
  then show ?thesis
    using assms(2) closed_getCooldown [OF nonNegative_closed]
    by (simp add: nonNegative_def)
next
  case (CanClaim userId key ms now)
  then show ?thesis
    using assms(2) closed_canClaim [OF nonNegative_closed]
    by (simp add: nonNegative_def)
next
  case (Command isOwnerId clk rnd messageText userId)
  then have "(\<forall>k. 0 \<le> rnd k) = True" using assms(1) by simp
  then have "ledgerClosed (\<lambda>u. 0 \<le> gold u) (\<forall>k. 0 \<le> rnd k)"
    using nonNegative_closed by simp
  then show ?thesis
    using Command assms(2) handler_allAccounts [of "\<lambda>u. 0 \<le> gold u" rnd f]
    by (simp add: nonNegative_def)
qed

lemma run_nonNegative:
  "list_all wellFormed ops \<Longrightarrow> nonNegative f \<Longrightarrow> nonNegative (run ops f)"
  by (induction ops arbitrary: f) (simp_all add: step_nonNegative)

text \<open>
  C3. From a store whose balances are all at least 0 (an absent or empty store is one),
  after every operation of every sequence of direct calls with amounts of at least 0 and of
  handler calls (earning commands, wagers, owner credits), every balance is at least 0. A
  \<open>remove\<close> of more than the balance returns 0 and leaves the balance 0.
\<close>

theorem balance_never_negative:
  assumes "nonNegative f" and "list_all wellFormed ops"
  shows "(\<forall>n. nonNegative (run (take n ops) f))
    \<and> (\<forall>userId u. usersOf (run ops f) userId = Some u \<longrightarrow> 0 \<le> gold u)
    \<and> (\<forall>g userId amount now. gold (account g userId) < amount \<longrightarrow>
          fst (remove userId amount now g) = 0
          \<and> gold (account (snd (remove userId amount now g)) userId) = 0)"
proof (intro conjI allI impI)
  fix n
  have "list_all wellFormed (take n ops)"
    using assms(2) by (simp add: list_all_iff) (meson in_set_takeD)
  then show "nonNegative (run (take n ops) f)"
    using assms(1) by (rule run_nonNegative)
next
  fix userId u assume "usersOf (run ops f) userId = Some u"
  moreover have "nonNegative (run ops f)"
    using assms(2,1) by (rule run_nonNegative)
  ultimately show "0 \<le> gold u"
    by (simp add: nonNegative_def allAccounts_def)
next
  fix g userId amount now assume "gold (account g userId) < amount"
  then show "fst (remove userId amount now g) = 0"
    by (simp add: remove_eq)
next
  fix g userId amount now assume "gold (account g userId) < amount"
  then show "gold (account (snd (remove userId amount now g)) userId) = 0"
    by (simp add: remove_eq account_Stored_upd)
qed


lemmas store_eval =
  usersOf_simps getUser_eq ensureUser_eq add_eq remove_eq setCooldown_eq getCooldown_eq
  canClaim_def ensureDbFile_def account_def newUser_def emptyDb_def Let_def

lemmas text_eval =
  trim_def isSpace_def isDigit_def toLowerCase_def lowerChar_def argAt_def digitsVal_def
  parseInt10_def parseBet_def parseUserArg_def nthOpt_def

theorem balance_never_negative_witness:
  "nonNegative Absent
   \<and> list_all wellFormed
        [Add ''u'' 5 1, Remove ''u'' 8 2, Add ''u'' 5 3,
         Command (\<lambda>_. False) \<lparr>claimNow = 4, waitNow = 4, historyNow = 4, cooldownNow = 4\<rparr>
           (\<lambda>_. 3 / 5) ''.spin 5'' ''u'']
   \<and> usersOf (run
        [Add ''u'' 5 1, Remove ''u'' 8 2, Add ''u'' 5 3,
         Command (\<lambda>_. False) \<lparr>claimNow = 4, waitNow = 4, historyNow = 4, cooldownNow = 4\<rparr>
           (\<lambda>_. 3 / 5) ''.spin 5'' ''u''] Absent) ''u''
      = Some \<lparr>gold = 15, cooldowns = Map.empty,
          history = [\<lparr>time = 1, change = 5\<rparr>, \<lparr>time = 2, change = - 8\<rparr>,
                     \<lparr>time = 3, change = 5\<rparr>, \<lparr>time = 4, change = 10\<rparr>]\<rparr>
   \<and> (0::int) \<le> gold \<lparr>gold = 15, cooldowns = Map.empty,
          history = [\<lparr>time = 1, change = 5\<rparr>, \<lparr>time = 2, change = - 8\<rparr>,
                     \<lparr>time = 3, change = 5\<rparr>, \<lparr>time = 4, change = 10\<rparr>]\<rparr>
   \<and> gold (account (snd (add ''u'' 5 1 Absent)) ''u'') < 8
   \<and> fst (remove ''u'' 8 2 (snd (add ''u'' 5 1 Absent))) = 0
   \<and> gold (account (snd (remove ''u'' 8 2 (snd (add ''u'' 5 1 Absent)))) ''u'') = 0"
proof -
  let ?ops = "[Add ''u'' 5 1, Remove ''u'' 8 2, Add ''u'' 5 3,
         Command (\<lambda>_. False) \<lparr>claimNow = 4, waitNow = 4, historyNow = 4, cooldownNow = 4\<rparr>
           (\<lambda>_. 3 / 5) ''.spin 5'' ''u'']"
  let ?u = "\<lparr>gold = 15, cooldowns = Map.empty,
          history = [\<lparr>time = 1, change = 5\<rparr>, \<lparr>time = 2, change = - 8\<rparr>,
                     \<lparr>time = 3, change = 5\<rparr>, \<lparr>time = 4, change = 10\<rparr>]\<rparr>"
  have h1: "nonNegative Absent"
    by (simp add: nonNegative_def allAccounts_def usersOf_simps)
  have h2: "list_all wellFormed ?ops" by simp
  have h3: "usersOf (run ?ops Absent) ''u'' = Some ?u"
    by (simp add: store_eval text_eval handler_def handler_cmd_def cmd_spin_def
        stakeAndCheck_def)
  have h4: "gold (account (snd (add ''u'' 5 1 Absent)) ''u'') < 8"
    by (simp add: store_eval)
  note t = balance_never_negative [OF h1 h2]
  have c1: "0 \<le> gold ?u" using t h3 by blast
  have c2: "fst (remove ''u'' 8 2 (snd (add ''u'' 5 1 Absent))) = 0
    \<and> gold (account (snd (remove ''u'' 8 2 (snd (add ''u'' 5 1 Absent)))) ''u'') = 0"
    using t h4 by blast
  show ?thesis using h1 h2 h3 h4 c1 c2 by blast
qed

subsection \<open>What the history records\<close>

lemma step_balanced:
  assumes "balanced f"
    and "\<And>userId amount now. x = Remove userId amount now \<Longrightarrow> amount \<le> gold (account f userId)"
  shows "balanced (step x f)"
proof (cases x)
  case (EnsureUser userId)
  then show ?thesis
    using assms(1) closed_ensureUser [OF balanced_closed] by (simp add: balanced_def)
next
  case (GetUser userId)
  then show ?thesis using assms(1) by (simp add: balanced_def allAccounts_getUser)
next
  case (Add userId amount now)
  then show ?thesis
    using assms(1) credit_step [where f = f and amount = amount and good = False, OF balanced_closed]
    by (simp add: balanced_def)
next
  case (Remove userId amount now)
  then have le: "amount \<le> gold (account f userId)" by (rule assms(2))
  have a: "historySum (account f userId) = gold (account f userId)"
    using assms(1) allAccounts_account [of "\<lambda>u. historySum u = gold u" f userId]
    by (simp add: balanced_def newUser_def historySum_def)
  have "allAccounts (\<lambda>u. historySum u = gold u) (snd (remove userId amount now f))"
  proof (rule allAccounts_remove)
    show "historySum newUser = gold newUser" by (simp add: newUser_def historySum_def)
    show "allAccounts (\<lambda>u. historySum u = gold u) f" using assms(1) by (simp add: balanced_def)
    show "historySum ((account f userId)\<lparr>gold := max 0 (gold (account f userId) - amount),
          history := history (account f userId) @ [\<lparr>time = now, change = - amount\<rparr>]\<rparr>) =
      gold ((account f userId)\<lparr>gold := max 0 (gold (account f userId) - amount),
          history := history (account f userId) @ [\<lparr>time = now, change = - amount\<rparr>]\<rparr>)"
      using le a by (simp add: historySum_append)
  qed
  then show ?thesis using Remove by (simp add: balanced_def)
next
  case (SetCooldown userId key ts)
  then show ?thesis
    using assms(1) cooldown_step [where f = f, OF balanced_closed]
    by (simp add: balanced_def)
next
  case (GetCooldown userId key)
  then show ?thesis
    using assms(1) closed_getCooldown [OF balanced_closed] by (simp add: balanced_def)
next
  case (CanClaim userId key ms now)
  then show ?thesis
    using assms(1) closed_canClaim [OF balanced_closed] by (simp add: balanced_def)
next
  case (Command isOwnerId clk rnd messageText userId)
  then show ?thesis
    using assms(1) handler_allAccounts [where rnd = rnd and f = f, OF balanced_closed]
    by (simp add: balanced_def)
qed

lemma run_balanced: "unclamped ops f \<Longrightarrow> balanced f \<Longrightarrow> balanced (run ops f)"
proof (induction ops arbitrary: f)
  case Nil
  then show ?case by simp
next
  case (Cons x xs)
  have s: "balanced (step x f)"
    using Cons.prems by (intro step_balanced) auto
  have u: "unclamped xs (step x f)"
    using Cons.prems(1) by (cases x) simp_all
  show ?case using Cons.IH [OF u s] by simp
qed

text \<open>
  C1, as the code has it. \<open>remove\<close> appends a history entry with the amount it was asked to
  take, negated. That is the change of the balance exactly when the amount is at most the
  balance; when the debit is cut off at zero the entry still shows the amount asked for. So
  for every sequence of operations, from a store in which every history sums to its balance
  (an absent or empty store is one), in which no direct \<open>remove\<close> asks for more than the
  balance, every history sums to its balance. The handler's own debits are checked against
  the balance first.
\<close>

theorem remove_records_requested_amount:
  "history (account (snd (remove userId amount now f)) userId) =
     history (account f userId) @ [\<lparr>time = now, change = - amount\<rparr>]
   \<and> (gold (account (snd (remove userId amount now f)) userId) - gold (account f userId) = - amount
        \<longleftrightarrow> amount \<le> gold (account f userId))
   \<and> (balanced f \<and> unclamped ops f \<longrightarrow> balanced (run ops f))
   \<and> (balanced f \<and> unclamped ops f \<longrightarrow>
        (\<forall>u. usersOf (run ops f) userId = Some u \<longrightarrow> sum_list (map change (history u)) = gold u))"
proof (intro conjI impI allI)
  show "history (account (snd (remove userId amount now f)) userId) =
     history (account f userId) @ [\<lparr>time = now, change = - amount\<rparr>]"
    by (simp add: remove_eq account_Stored_upd)
  show "gold (account (snd (remove userId amount now f)) userId) - gold (account f userId) = - amount
        \<longleftrightarrow> amount \<le> gold (account f userId)"
    by (auto simp add: remove_eq account_Stored_upd)
next
  assume "balanced f \<and> unclamped ops f"
  then show "balanced (run ops f)" by (simp add: run_balanced)
next
  fix u assume "balanced f \<and> unclamped ops f" and u: "usersOf (run ops f) userId = Some u"
  then have "balanced (run ops f)" by (simp add: run_balanced)
  then show "sum_list (map change (history u)) = gold u"
    using u by (simp add: balanced_def allAccounts_def historySum_def)
qed

text \<open>
  C1 as stated fails: after a credit of 5, a debit of 8 leaves the balance 0 and records
  \<open>- 8\<close>, not the \<open>- 5\<close> that was applied, and the history sums to \<open>- 3\<close>.
\<close>

theorem remove_history_counterexample:
  "gold (account (run [Add ''u'' 5 1] Absent) ''u'') = 5
   \<and> gold (account (run [Add ''u'' 5 1, Remove ''u'' 8 2] Absent) ''u'') = 0
   \<and> change (last (history (account (run [Add ''u'' 5 1, Remove ''u'' 8 2] Absent) ''u''))) = - 8
   \<and> change (last (history (account (run [Add ''u'' 5 1, Remove ''u'' 8 2] Absent) ''u'')))
       \<noteq> gold (account (run [Add ''u'' 5 1, Remove ''u'' 8 2] Absent) ''u'')
         - gold (account (run [Add ''u'' 5 1] Absent) ''u'')
   \<and> historySum (account (run [Add ''u'' 5 1, Remove ''u'' 8 2] Absent) ''u'') = - 3
   \<and> historySum (account (run [Add ''u'' 5 1, Remove ''u'' 8 2] Absent) ''u'')
       \<noteq> gold (account (run [Add ''u'' 5 1, Remove ''u'' 8 2] Absent) ''u'')"
  by (simp add: store_eval historySum_def)

theorem remove_records_requested_amount_witness:
  "balanced Absent
   \<and> unclamped [Add ''u'' 5 1, Remove ''u'' 3 2,
        Command (\<lambda>_. False) \<lparr>claimNow = 4, waitNow = 4, historyNow = 4, cooldownNow = 4\<rparr>
           (\<lambda>_. 3 / 10) ''.spin 2'' ''u''] Absent
   \<and> usersOf (run [Add ''u'' 5 1, Remove ''u'' 3 2,
        Command (\<lambda>_. False) \<lparr>claimNow = 4, waitNow = 4, historyNow = 4, cooldownNow = 4\<rparr>
           (\<lambda>_. 3 / 10) ''.spin 2'' ''u''] Absent) ''u''
      = Some \<lparr>gold = 0, cooldowns = Map.empty,
          history = [\<lparr>time = 1, change = 5\<rparr>, \<lparr>time = 2, change = - 3\<rparr>,
                     \<lparr>time = 4, change = - 2\<rparr>]\<rparr>
   \<and> sum_list (map change [\<lparr>time = 1, change = 5\<rparr>, \<lparr>time = 2, change = - 3\<rparr>,
                     \<lparr>time = 4, change = - 2\<rparr>]) = (0::int)
   \<and> history (account (snd (remove ''u'' 3 2 (snd (add ''u'' 5 1 Absent)))) ''u'') =
       history (account (snd (add ''u'' 5 1 Absent)) ''u'') @ [\<lparr>time = 2, change = - 3\<rparr>]
   \<and> gold (account (snd (remove ''u'' 3 2 (snd (add ''u'' 5 1 Absent)))) ''u'')
       - gold (account (snd (add ''u'' 5 1 Absent)) ''u'') = - 3"
proof -
  let ?ops = "[Add ''u'' 5 1, Remove ''u'' 3 2,
        Command (\<lambda>_. False) \<lparr>claimNow = 4, waitNow = 4, historyNow = 4, cooldownNow = 4\<rparr>
           (\<lambda>_. 3 / 10) ''.spin 2'' ''u'']"
  let ?u = "\<lparr>gold = 0, cooldowns = Map.empty,
          history = [\<lparr>time = 1, change = 5\<rparr>, \<lparr>time = 2, change = - 3\<rparr>,
                     \<lparr>time = 4, change = - 2\<rparr>]\<rparr>"
  have h1: "balanced Absent"
    by (simp add: balanced_def allAccounts_def usersOf_simps)
  have h2: "unclamped ?ops Absent"
    by (simp add: store_eval)
  have h3: "usersOf (run ?ops Absent) ''u'' = Some ?u"
    by (simp add: store_eval text_eval handler_def handler_cmd_def cmd_spin_def
        stakeAndCheck_def)
  have h4: "(3::int) \<le> gold (account (snd (add ''u'' 5 1 Absent)) ''u'')"
    by (simp add: store_eval)
  note t = remove_records_requested_amount
    [of "''u''" 3 2 "snd (add ''u'' 5 1 Absent)" "[]"]
  note t2 = remove_records_requested_amount [of "''u''" 0 0 Absent ?ops]
  have c1: "sum_list (map change (history ?u)) = gold ?u"
    using t2 h1 h2 h3 by blast
  have c2: "history (account (snd (remove ''u'' 3 2 (snd (add ''u'' 5 1 Absent)))) ''u'') =
       history (account (snd (add ''u'' 5 1 Absent)) ''u'') @ [\<lparr>time = 2, change = - 3\<rparr>]"
    using t by blast
  have c3: "gold (account (snd (remove ''u'' 3 2 (snd (add ''u'' 5 1 Absent)))) ''u'')
       - gold (account (snd (add ''u'' 5 1 Absent)) ''u'') = - 3"
    using t h4 by blast
  show ?thesis using h1 h2 h3 c1 c2 c3 by simp
qed

subsection \<open>Spin\<close>

lemma ensureDbFile_ensureUser:
  "ensureDbFile (snd (ensureUser userId f)) = snd (ensureUser userId f)"
  by (cases f) (simp_all add: ensureUser_eq usersOf_simps ensureDbFile_def)

lemma ensureUser_existing: "usersOf f userId \<noteq> None \<Longrightarrow> snd (ensureUser userId f) = f"
  by (cases f) (auto simp add: ensureUser_eq usersOf_simps ensureDbFile_def)

lemma usersOf_add:
  "usersOf (snd (add userId a t f)) = (usersOf f)(userId \<mapsto> settled (account f userId) a t)"
  by (simp add: add_eq usersOf_simps settled_def)

lemma usersOf_remove:
  "a \<le> gold (account f userId) \<Longrightarrow>
   usersOf (snd (remove userId a t f)) = (usersOf f)(userId \<mapsto> settled (account f userId) (- a) t)"
  by (simp add: remove_eq usersOf_simps settled_def)

lemma stake_ok:
  assumes "0 < bet" "bet \<le> gold (account f userId)"
  shows "stakeAndCheck userId bet (snd (ensureUser userId f)) =
     (Inr (gold (account f userId)), snd (ensureUser userId f))"
  using assms by (simp add: stakeAndCheck_eq account_ensureUser ensureDbFile_ensureUser)

lemma stake_zero:
  assumes "bet \<le> 0"
  shows "stakeAndCheck userId bet (snd (ensureUser userId f)) =
     (Inl SpecifyBet, snd (ensureUser userId f))"
  using assms by (simp add: stakeAndCheck_eq ensureDbFile_ensureUser)

lemma stake_short:
  assumes "0 < bet" "gold (account f userId) < bet"
  shows "stakeAndCheck userId bet (snd (ensureUser userId f)) =
     (Inl (InsufficientFunds (gold (account f userId))), snd (ensureUser userId f))"
  using assms by (simp add: stakeAndCheck_eq account_ensureUser ensureDbFile_ensureUser)

lemma won:
  "usersOf (snd (add userId d t (snd (ensureUser userId f)))) =
     (usersOf f)(userId \<mapsto> settled (account f userId) d t)"
  by (simp add: usersOf_add ensureUser_users account_ensureUser)

lemma lost:
  "b \<le> gold (account f userId) \<Longrightarrow>
   usersOf (snd (remove userId b t (snd (ensureUser userId f)))) =
     (usersOf f)(userId \<mapsto> settled (account f userId) (- b) t)"
  by (simp add: usersOf_remove ensureUser_users account_ensureUser)

lemma handler_cmd_spin:
  "handler_cmd isOwnerId clk rnd userId ''spin'' args f =
     cmd_spin clk rnd userId args (snd (ensureUser userId f))"
  by (simp add: handler_cmd_def case_prod_unfold)

lemma spin_accepted:
  assumes "parseBet (argAt args 0) = b" "0 < b" "b \<le> gold (account f userId)"
  shows "fst (handler_cmd isOwnerId clk rnd userId ''spin'' args f) =
      Sent (if rnd 0 * 100 < 50 then SpinLost b
            else if rnd 0 * 100 < 85 then SpinWin 2 (b * 2)
            else if rnd 0 * 100 < 97 then SpinWin 5 (b * 5)
            else SpinWin 10 (b * 10))"
    and "usersOf (snd (handler_cmd isOwnerId clk rnd userId ''spin'' args f)) =
      (usersOf f)(userId \<mapsto> settled (account f userId)
         (if rnd 0 * 100 < 50 then - b
          else if rnd 0 * 100 < 85 then b * 2
          else if rnd 0 * 100 < 97 then b * 5
          else b * 10) (historyNow clk))"
  using assms
  by (simp_all add: handler_cmd_spin cmd_spin_def stake_ok Let_def case_prod_unfold won lost)


text \<open>
  C7. An accepted spin (a bet \<open>b\<close> above 0 and at most the balance) with the draw
  \<open>r = Math.random() * 100\<close>: below 50 the bet is lost and the balance changes by \<open>- b\<close>;
  from 50 to below 85 the multiplier is 2 and the change is \<open>2 b\<close>; from 85 to below 97 it is
  5 and \<open>5 b\<close>; from 97 on it is 10 and \<open>10 b\<close>. The history records the same change. The
  result depends on the random readings through the first one only.
\<close>

theorem spin_outcome:
  assumes "parseBet (argAt args 0) = b" and "0 < b" and "b \<le> gold (account f userId)"
    and "r = rnd 0 * 100"
  shows "(r < 50 \<longrightarrow>
           fst (handler_cmd isOwnerId clk rnd userId ''spin'' args f) = Sent (SpinLost b)
           \<and> usersOf (snd (handler_cmd isOwnerId clk rnd userId ''spin'' args f)) =
               (usersOf f)(userId \<mapsto> settled (account f userId) (- b) (historyNow clk)))
    \<and> (50 \<le> r \<and> r < 85 \<longrightarrow>
           fst (handler_cmd isOwnerId clk rnd userId ''spin'' args f) = Sent (SpinWin 2 (2 * b))
           \<and> usersOf (snd (handler_cmd isOwnerId clk rnd userId ''spin'' args f)) =
               (usersOf f)(userId \<mapsto> settled (account f userId) (2 * b) (historyNow clk)))
    \<and> (85 \<le> r \<and> r < 97 \<longrightarrow>
           fst (handler_cmd isOwnerId clk rnd userId ''spin'' args f) = Sent (SpinWin 5 (5 * b))
           \<and> usersOf (snd (handler_cmd isOwnerId clk rnd userId ''spin'' args f)) =
               (usersOf f)(userId \<mapsto> settled (account f userId) (5 * b) (historyNow clk)))
    \<and> (97 \<le> r \<longrightarrow>
           fst (handler_cmd isOwnerId clk rnd userId ''spin'' args f) = Sent (SpinWin 10 (10 * b))
           \<and> usersOf (snd (handler_cmd isOwnerId clk rnd userId ''spin'' args f)) =
               (usersOf f)(userId \<mapsto> settled (account f userId) (10 * b) (historyNow clk)))
    \<and> (\<forall>rnd'. rnd' 0 = rnd 0 \<longrightarrow>
           handler_cmd isOwnerId clk rnd' userId ''spin'' args f =
           handler_cmd isOwnerId clk rnd userId ''spin'' args f)"
proof -
  note a = spin_accepted [OF assms(1,2,3), of isOwnerId clk rnd]
  have d: "handler_cmd isOwnerId clk rnd' userId ''spin'' args f =
           handler_cmd isOwnerId clk rnd userId ''spin'' args f" if "rnd' 0 = rnd 0" for rnd'
    unfolding handler_cmd_spin cmd_spin_def that ..
  have 1: "r < 50 \<longrightarrow>
           fst (handler_cmd isOwnerId clk rnd userId ''spin'' args f) = Sent (SpinLost b)
           \<and> usersOf (snd (handler_cmd isOwnerId clk rnd userId ''spin'' args f)) =
               (usersOf f)(userId \<mapsto> settled (account f userId) (- b) (historyNow clk))"
    by (simp add: a assms(4))
  have 2: "50 \<le> r \<and> r < 85 \<longrightarrow>
           fst (handler_cmd isOwnerId clk rnd userId ''spin'' args f) = Sent (SpinWin 2 (2 * b))
           \<and> usersOf (snd (handler_cmd isOwnerId clk rnd userId ''spin'' args f)) =
               (usersOf f)(userId \<mapsto> settled (account f userId) (2 * b) (historyNow clk))"
    by (simp add: a assms(4) mult.commute)
  have 3: "85 \<le> r \<and> r < 97 \<longrightarrow>
           fst (handler_cmd isOwnerId clk rnd userId ''spin'' args f) = Sent (SpinWin 5 (5 * b))
           \<and> usersOf (snd (handler_cmd isOwnerId clk rnd userId ''spin'' args f)) =
               (usersOf f)(userId \<mapsto> settled (account f userId) (5 * b) (historyNow clk))"
    by (simp add: a assms(4) mult.commute)
  have 4: "97 \<le> r \<longrightarrow>
           fst (handler_cmd isOwnerId clk rnd userId ''spin'' args f) = Sent (SpinWin 10 (10 * b))
           \<and> usersOf (snd (handler_cmd isOwnerId clk rnd userId ''spin'' args f)) =
               (usersOf f)(userId \<mapsto> settled (account f userId) (10 * b) (historyNow clk))"
    by (simp add: a assms(4) mult.commute)
  show ?thesis
    using 1 2 3 4 d by blast
qed


theorem spin_outcome_witness:
  "parseBet (argAt [''100''] 0) = 100
   \<and> (100::int) \<le> gold (account (Stored \<lparr>users = [''u'' \<mapsto> \<lparr>gold = 100, cooldowns = Map.empty, history = []\<rparr>]\<rparr>) ''u'')
   \<and> handler (\<lambda>_. False) \<lparr>claimNow = 7, waitNow = 7, historyNow = 7, cooldownNow = 7\<rparr>
        (\<lambda>_. 6 / 10) ''.spin 100'' ''u''
        (Stored \<lparr>users = [''u'' \<mapsto> \<lparr>gold = 100, cooldowns = Map.empty, history = []\<rparr>]\<rparr>)
      = handler_cmd (\<lambda>_. False) \<lparr>claimNow = 7, waitNow = 7, historyNow = 7, cooldownNow = 7\<rparr>
        (\<lambda>_. 6 / 10) ''u'' ''spin'' [''100'']
        (Stored \<lparr>users = [''u'' \<mapsto> \<lparr>gold = 100, cooldowns = Map.empty, history = []\<rparr>]\<rparr>)
   \<and> fst (handler_cmd (\<lambda>_. False) \<lparr>claimNow = 7, waitNow = 7, historyNow = 7, cooldownNow = 7\<rparr>
        (\<lambda>_. 6 / 10) ''u'' ''spin'' [''100'']
        (Stored \<lparr>users = [''u'' \<mapsto> \<lparr>gold = 100, cooldowns = Map.empty, history = []\<rparr>]\<rparr>))
      = Sent (SpinWin 2 200)
   \<and> usersOf (snd (handler_cmd (\<lambda>_. False) \<lparr>claimNow = 7, waitNow = 7, historyNow = 7, cooldownNow = 7\<rparr>
        (\<lambda>_. 6 / 10) ''u'' ''spin'' [''100'']
        (Stored \<lparr>users = [''u'' \<mapsto> \<lparr>gold = 100, cooldowns = Map.empty, history = []\<rparr>]\<rparr>))) ''u''
      = Some \<lparr>gold = 300, cooldowns = Map.empty, history = [\<lparr>time = 7, change = 200\<rparr>]\<rparr>
   \<and> fst (handler_cmd (\<lambda>_. False) \<lparr>claimNow = 7, waitNow = 7, historyNow = 7, cooldownNow = 7\<rparr>
        (\<lambda>_. 3 / 10) ''u'' ''spin'' [''100'']
        (Stored \<lparr>users = [''u'' \<mapsto> \<lparr>gold = 100, cooldowns = Map.empty, history = []\<rparr>]\<rparr>))
      = Sent (SpinLost 100)
   \<and> usersOf (snd (handler_cmd (\<lambda>_. False) \<lparr>claimNow = 7, waitNow = 7, historyNow = 7, cooldownNow = 7\<rparr>
        (\<lambda>_. 3 / 10) ''u'' ''spin'' [''100'']
        (Stored \<lparr>users = [''u'' \<mapsto> \<lparr>gold = 100, cooldowns = Map.empty, history = []\<rparr>]\<rparr>))) ''u''
      = Some \<lparr>gold = 0, cooldowns = Map.empty, history = [\<lparr>time = 7, change = - 100\<rparr>]\<rparr>"
proof -
  let ?f = "Stored \<lparr>users = [''u'' \<mapsto> \<lparr>gold = 100, cooldowns = Map.empty, history = []\<rparr>]\<rparr>"
  let ?clk = "\<lparr>claimNow = 7, waitNow = 7, historyNow = 7, cooldownNow = 7\<rparr>"
  have h1: "parseBet (argAt [''100''] 0) = 100"
    by (simp add: text_eval)
  have h2: "(0::int) < 100" by simp
  have h3: "(100::int) \<le> gold (account ?f ''u'')"
    by (simp add: store_eval)
  have h4: "(60::real) = (\<lambda>_. 6 / 10) (0::nat) * 100" by simp
  have h5: "(30::real) = (\<lambda>_. 3 / 10) (0::nat) * 100" by simp
  have e: "handler (\<lambda>_. False) ?clk (\<lambda>_. 6 / 10) ''.spin 100'' ''u'' ?f
      = handler_cmd (\<lambda>_. False) ?clk (\<lambda>_. 6 / 10) ''u'' ''spin'' [''100''] ?f"
    by (simp add: handler_def text_eval)
  have r1: "(50::real) \<le> 60 \<and> (60::real) < 85" by simp
  have r2: "(30::real) < 50" by simp
  have s1: "((usersOf ?f)(''u'' \<mapsto> settled (account ?f ''u'') (2 * 100) (historyNow ?clk))) ''u''
      = Some \<lparr>gold = 300, cooldowns = Map.empty, history = [\<lparr>time = 7, change = 200\<rparr>]\<rparr>"
    by (simp add: store_eval settled_def)
  have s2: "((usersOf ?f)(''u'' \<mapsto> settled (account ?f ''u'') (- 100) (historyNow ?clk))) ''u''
      = Some \<lparr>gold = 0, cooldowns = Map.empty, history = [\<lparr>time = 7, change = - 100\<rparr>]\<rparr>"
    by (simp add: store_eval settled_def)
  have w: "fst (handler_cmd (\<lambda>_. False) ?clk (\<lambda>_. 6 / 10) ''u'' ''spin'' [''100''] ?f)
        = Sent (SpinWin 2 (2 * 100))
      \<and> usersOf (snd (handler_cmd (\<lambda>_. False) ?clk (\<lambda>_. 6 / 10) ''u'' ''spin'' [''100''] ?f))
        = (usersOf ?f)(''u'' \<mapsto> settled (account ?f ''u'') (2 * 100) (historyNow ?clk))"
    using spin_outcome [OF h1 h2 h3 h4, of "\<lambda>_. False" ?clk] r1 by blast
  have l: "fst (handler_cmd (\<lambda>_. False) ?clk (\<lambda>_. 3 / 10) ''u'' ''spin'' [''100''] ?f)
        = Sent (SpinLost 100)
      \<and> usersOf (snd (handler_cmd (\<lambda>_. False) ?clk (\<lambda>_. 3 / 10) ''u'' ''spin'' [''100''] ?f))
        = (usersOf ?f)(''u'' \<mapsto> settled (account ?f ''u'') (- 100) (historyNow ?clk))"
    using spin_outcome [OF h1 h2 h3 h5, of "\<lambda>_. False" ?clk] r2 by blast
  have w2: "usersOf (snd (handler_cmd (\<lambda>_. False) ?clk (\<lambda>_. 6 / 10) ''u'' ''spin'' [''100''] ?f)) ''u''
      = Some \<lparr>gold = 300, cooldowns = Map.empty, history = [\<lparr>time = 7, change = 200\<rparr>]\<rparr>"
    using w s1 by (simp only:)
  have l2: "usersOf (snd (handler_cmd (\<lambda>_. False) ?clk (\<lambda>_. 3 / 10) ''u'' ''spin'' [''100''] ?f)) ''u''
      = Some \<lparr>gold = 0, cooldowns = Map.empty, history = [\<lparr>time = 7, change = - 100\<rparr>]\<rparr>"
    using l s2 by (simp only:)
  have w1: "fst (handler_cmd (\<lambda>_. False) ?clk (\<lambda>_. 6 / 10) ''u'' ''spin'' [''100''] ?f)
        = Sent (SpinWin 2 200)"
    using w by simp
  show ?thesis
    using h1 h3 e w1 w2 l l2 by blast
qed

subsection \<open>The funds check\<close>

lemma handler_cmd_slots:
  "handler_cmd isOwnerId clk rnd userId ''slots'' args f =
     cmd_slots clk rnd userId args (snd (ensureUser userId f))"
  by (simp add: handler_cmd_def case_prod_unfold)

lemma handler_cmd_roulette:
  "handler_cmd isOwnerId clk rnd userId ''roulette'' args f =
     cmd_roulette clk rnd userId args (snd (ensureUser userId f))"
  by (simp add: handler_cmd_def case_prod_unfold)

lemma handler_cmd_casino:
  "handler_cmd isOwnerId clk rnd userId ''casino'' args f =
     cmd_casino clk rnd userId args (snd (ensureUser userId f))"
  by (simp add: handler_cmd_def case_prod_unfold)

lemma roulette_accepted:
  assumes "parseBet (argAt args 0) = b" "0 < b" "b \<le> gold (account f userId)"
  shows "fst (handler_cmd isOwnerId clk rnd userId ''roulette'' args f) =
      Sent (if toLowerCase (argAt args 1) = []
              then RouletteNoPick (rand 0 36 (rnd 0)) (wheelColor (rand 0 36 (rnd 0))) b
            else if list_all isDigit (toLowerCase (argAt args 1)) then
              if parseInt10 (toLowerCase (argAt args 1)) = Some (rand 0 36 (rnd 0))
              then RouletteHit (rand 0 36 (rnd 0)) (wheelColor (rand 0 36 (rnd 0))) (b * 36)
              else RouletteMissed (rand 0 36 (rnd 0)) (wheelColor (rand 0 36 (rnd 0))) b
            else if toLowerCase (argAt args 1) = wheelColor (rand 0 36 (rnd 0)) then
              RouletteWon (rand 0 36 (rnd 0)) (wheelColor (rand 0 36 (rnd 0)))
                (if wheelColor (rand 0 36 (rnd 0)) = ''green'' then 14 else 2)
                (b * (if wheelColor (rand 0 36 (rnd 0)) = ''green'' then 14 else 2))
            else RouletteLost (rand 0 36 (rnd 0)) (wheelColor (rand 0 36 (rnd 0))) b)"
    and "usersOf (snd (handler_cmd isOwnerId clk rnd userId ''roulette'' args f)) =
      (usersOf f)(userId \<mapsto> settled (account f userId)
         (if toLowerCase (argAt args 1) = [] then - b
          else if list_all isDigit (toLowerCase (argAt args 1)) then
            if parseInt10 (toLowerCase (argAt args 1)) = Some (rand 0 36 (rnd 0))
            then b * 36 else - b
          else if toLowerCase (argAt args 1) = wheelColor (rand 0 36 (rnd 0)) then
            b * (if wheelColor (rand 0 36 (rnd 0)) = ''green'' then 14 else 2)
          else - b) (historyNow clk))"
  using assms
  by (simp_all add: handler_cmd_roulette cmd_roulette_def stake_ok Let_def case_prod_unfold
      won lost)

lemma slots_accepted:
  assumes "parseBet (argAt args 0) = b" "0 < b" "b \<le> gold (account f userId)"
    and "x = nthOpt symbols (rand 0 (int (length symbols) - 1) (rnd 0))"
    and "y = nthOpt symbols (rand 0 (int (length symbols) - 1) (rnd 1))"
    and "z = nthOpt symbols (rand 0 (int (length symbols) - 1) (rnd 2))"
  shows "fst (handler_cmd isOwnerId clk rnd userId ''slots'' args f) =
      Sent (Slots x y z
        (if x = y \<and> y = z
           then Jackpot (if x = Some Seven then 10 else 5) (b * (if x = Some Seven then 10 else 5))
         else if x = y \<or> y = z \<or> x = z then Pair (b * 2)
         else NoWin b))"
    and "usersOf (snd (handler_cmd isOwnerId clk rnd userId ''slots'' args f)) =
      (usersOf f)(userId \<mapsto> settled (account f userId)
         (if x = y \<and> y = z then b * (if x = Some Seven then 10 else 5)
          else if x = y \<or> y = z \<or> x = z then b * 2
          else - b) (historyNow clk))"
  using assms(1,2,3)
  unfolding assms(4,5,6)
  by (simp_all add: handler_cmd_slots cmd_slots_def stake_ok Let_def case_prod_unfold won lost)

lemma casino_accepted:
  assumes "parseBet (argAt args 0) = b" "0 < b" "b \<le> gold (account f userId)"
  shows "fst (handler_cmd isOwnerId clk rnd userId ''casino'' args f) =
      Sent (if rnd 0 * 100 < 45 then HouseWins b
            else if rnd 0 * 100 < 85 then BeatHouse (b * 2)
            else BigWin (b * 5))"
    and "usersOf (snd (handler_cmd isOwnerId clk rnd userId ''casino'' args f)) =
      (usersOf f)(userId \<mapsto> settled (account f userId)
         (if rnd 0 * 100 < 45 then - b
          else if rnd 0 * 100 < 85 then b * 2
          else b * 5) (historyNow clk))"
  using assms
  by (simp_all add: handler_cmd_casino cmd_casino_def stake_ok Let_def case_prod_unfold won lost)

lemma slots_delta:
  "(if c1 then b * (if c2 then 10 else 5) else if c3 then b * 2 else - b)
     \<in> set [- b, b * 2, b * 5, b * 10, b * 14, b * (36::int)]"
  by simp

lemma staked_intro:
  assumes "\<not> isDecline out" "d \<in> set [- b, b * 2, b * 5, b * 10, b * 14, b * 36]"
    and "m = (usersOf f)(userId \<mapsto> settled (account f userId) d t)"
  shows "\<not> isDecline out
    \<and> (\<exists>d. d \<in> set [- b, b * 2, b * 5, b * 10, b * 14, b * 36]
          \<and> m = (usersOf f)(userId \<mapsto> settled (account f userId) d t))"
  using assms by blast

lemma spin_staked:
  assumes "parseBet (argAt args 0) = b" "0 < b" "b \<le> gold (account f userId)"
  shows "\<not> isDecline (fst (handler_cmd isOwnerId clk rnd userId ''spin'' args f))
    \<and> (\<exists>d. d \<in> set [- b, b * 2, b * 5, b * 10, b * 14, b * 36]
          \<and> usersOf (snd (handler_cmd isOwnerId clk rnd userId ''spin'' args f)) =
              (usersOf f)(userId \<mapsto> settled (account f userId) d (historyNow clk)))"
proof (rule staked_intro)
  show "\<not> isDecline (fst (handler_cmd isOwnerId clk rnd userId ''spin'' args f))"
    unfolding spin_accepted(1) [OF assms] by (simp add: isDecline_def)
  show "usersOf (snd (handler_cmd isOwnerId clk rnd userId ''spin'' args f)) =
      (usersOf f)(userId \<mapsto> settled (account f userId)
         (if rnd 0 * 100 < 50 then - b
          else if rnd 0 * 100 < 85 then b * 2
          else if rnd 0 * 100 < 97 then b * 5
          else b * 10) (historyNow clk))"
    by (rule spin_accepted(2) [OF assms])
  show "(if rnd 0 * 100 < 50 then - b
          else if rnd 0 * 100 < 85 then b * 2
          else if rnd 0 * 100 < 97 then b * 5
          else b * 10) \<in> set [- b, b * 2, b * 5, b * 10, b * 14, b * 36]"
    by simp
qed

lemma casino_staked:
  assumes "parseBet (argAt args 0) = b" "0 < b" "b \<le> gold (account f userId)"
  shows "\<not> isDecline (fst (handler_cmd isOwnerId clk rnd userId ''casino'' args f))
    \<and> (\<exists>d. d \<in> set [- b, b * 2, b * 5, b * 10, b * 14, b * 36]
          \<and> usersOf (snd (handler_cmd isOwnerId clk rnd userId ''casino'' args f)) =
              (usersOf f)(userId \<mapsto> settled (account f userId) d (historyNow clk)))"
proof (rule staked_intro)
  show "\<not> isDecline (fst (handler_cmd isOwnerId clk rnd userId ''casino'' args f))"
    unfolding casino_accepted(1) [OF assms] by (simp add: isDecline_def)
  show "usersOf (snd (handler_cmd isOwnerId clk rnd userId ''casino'' args f)) =
      (usersOf f)(userId \<mapsto> settled (account f userId)
         (if rnd 0 * 100 < 45 then - b
          else if rnd 0 * 100 < 85 then b * 2
          else b * 5) (historyNow clk))"
    by (rule casino_accepted(2) [OF assms])
  show "(if rnd 0 * 100 < 45 then - b
          else if rnd 0 * 100 < 85 then b * 2
          else b * 5) \<in> set [- b, b * 2, b * 5, b * 10, b * 14, b * 36]"
    by simp
qed

lemma slots_staked:
  assumes "parseBet (argAt args 0) = b" "0 < b" "b \<le> gold (account f userId)"
  shows "\<not> isDecline (fst (handler_cmd isOwnerId clk rnd userId ''slots'' args f))
    \<and> (\<exists>d. d \<in> set [- b, b * 2, b * 5, b * 10, b * 14, b * 36]
          \<and> usersOf (snd (handler_cmd isOwnerId clk rnd userId ''slots'' args f)) =
              (usersOf f)(userId \<mapsto> settled (account f userId) d (historyNow clk)))"
proof (rule staked_intro)
  define x where "x = nthOpt symbols (rand 0 (int (length symbols) - 1) (rnd 0))"
  define y where "y = nthOpt symbols (rand 0 (int (length symbols) - 1) (rnd 1))"
  define z where "z = nthOpt symbols (rand 0 (int (length symbols) - 1) (rnd 2))"
  show "\<not> isDecline (fst (handler_cmd isOwnerId clk rnd userId ''slots'' args f))"
    unfolding slots_accepted(1) [OF assms x_def y_def z_def] by (simp add: isDecline_def)
  show "usersOf (snd (handler_cmd isOwnerId clk rnd userId ''slots'' args f)) =
      (usersOf f)(userId \<mapsto> settled (account f userId)
         (if x = y \<and> y = z then b * (if x = Some Seven then 10 else 5)
          else if x = y \<or> y = z \<or> x = z then b * 2
          else - b) (historyNow clk))"
    by (rule slots_accepted(2) [OF assms x_def y_def z_def])
  show "(if x = y \<and> y = z then b * (if x = Some Seven then 10 else 5)
          else if x = y \<or> y = z \<or> x = z then b * 2
          else - b) \<in> set [- b, b * 2, b * 5, b * 10, b * 14, b * 36]"
    by (rule slots_delta)
qed

lemma roulette_staked:
  assumes "parseBet (argAt args 0) = b" "0 < b" "b \<le> gold (account f userId)"
  shows "\<not> isDecline (fst (handler_cmd isOwnerId clk rnd userId ''roulette'' args f))
    \<and> (\<exists>d. d \<in> set [- b, b * 2, b * 5, b * 10, b * 14, b * 36]
          \<and> usersOf (snd (handler_cmd isOwnerId clk rnd userId ''roulette'' args f)) =
              (usersOf f)(userId \<mapsto> settled (account f userId) d (historyNow clk)))"
proof (rule staked_intro)
  define w where "w = rand 0 36 (rnd 0)"
  define pick where "pick = toLowerCase (argAt args 1)"
  define color where "color = wheelColor w"
  show "\<not> isDecline (fst (handler_cmd isOwnerId clk rnd userId ''roulette'' args f))"
    unfolding roulette_accepted(1) [OF assms] by (simp add: isDecline_def)
  show "usersOf (snd (handler_cmd isOwnerId clk rnd userId ''roulette'' args f)) =
      (usersOf f)(userId \<mapsto> settled (account f userId)
         (if pick = [] then - b
          else if list_all isDigit pick then
            if parseInt10 pick = Some w then b * 36 else - b
          else if pick = color then b * (if color = ''green'' then 14 else 2)
          else - b) (historyNow clk))"
    unfolding pick_def color_def w_def by (rule roulette_accepted(2) [OF assms])
  show "(if pick = [] then - b
          else if list_all isDigit pick then
            if parseInt10 pick = Some w then b * 36 else - b
          else if pick = color then b * (if color = ''green'' then 14 else 2)
          else - b) \<in> set [- b, b * 2, b * 5, b * 10, b * 14, b * 36]"
    by simp
qed

lemma wager_staked:
  assumes "isWager cmd" "parseBet (argAt args 0) = b" "0 < b" "b \<le> gold (account f userId)"
  shows "\<not> isDecline (fst (handler_cmd isOwnerId clk rnd userId cmd args f))
    \<and> (\<exists>d. d \<in> set [- b, b * 2, b * 5, b * 10, b * 14, b * 36]
          \<and> usersOf (snd (handler_cmd isOwnerId clk rnd userId cmd args f)) =
              (usersOf f)(userId \<mapsto> settled (account f userId) d (historyNow clk)))"
proof -
  from assms(1) consider "cmd = ''spin''" | "cmd = ''slots''" | "cmd = ''roulette''"
    | "cmd = ''casino''"
    by (auto simp add: isWager_def)
  then show ?thesis
  proof cases
    case 1 then show ?thesis using spin_staked [OF assms(2,3,4)] by simp
  next
    case 2 then show ?thesis using slots_staked [OF assms(2,3,4)] by simp
  next
    case 3 then show ?thesis using roulette_staked [OF assms(2,3,4)] by simp
  next
    case 4 then show ?thesis using casino_staked [OF assms(2,3,4)] by simp
  qed
qed

lemma wager_declined:
  assumes "isWager cmd"
    and "stakeAndCheck userId (parseBet (argAt args 0)) (snd (ensureUser userId f)) = (Inl msg, f1)"
  shows "handler_cmd isOwnerId clk rnd userId cmd args f = (Sent msg, f1)"
proof -
  from assms(1) consider "cmd = ''spin''" | "cmd = ''slots''" | "cmd = ''roulette''"
    | "cmd = ''casino''"
    by (auto simp add: isWager_def)
  then show ?thesis
  proof cases
    case 1 then show ?thesis
      using assms(2) by (simp add: handler_cmd_spin cmd_spin_def)
  next
    case 2 then show ?thesis
      using assms(2) by (simp add: handler_cmd_slots cmd_slots_def)
  next
    case 3 then show ?thesis
      using assms(2) by (simp add: handler_cmd_roulette cmd_roulette_def)
  next
    case 4 then show ?thesis
      using assms(2) by (simp add: handler_cmd_casino cmd_casino_def)
  qed
qed


lemma declined_state:
  "account (snd (ensureUser userId f)) userId = account f userId"
  "usersOf f userId \<noteq> None \<longrightarrow> snd (ensureUser userId f) = f"
  by (simp_all add: account_ensureUser ensureUser_existing)

text \<open>
  C6. For each of spin, slots, roulette and casino and a bet \<open>b\<close> above 0: a bet equal to
  the balance passes \<open>stakeAndCheck\<close> and is staked (the reply is not a decline and the
  account is settled with \<open>- b\<close> or a multiple of \<open>b\<close>); a bet above the balance, \<open>balance + 1\<close>
  for one, is answered with the insufficient funds message, and the store is the one
  \<open>ensureUser\<close> left at the start of the handler: the account's record is as before, and the
  file is untouched when the account existed. Every argument written as a number above 0
  is read as that bet.
\<close>

theorem wager_funds_boundary:
  assumes "isWager cmd" and "parseBet (argAt args 0) = b" and "0 < b"
  shows "(b = gold (account f userId) \<longrightarrow>
            fst (stakeAndCheck userId b (snd (ensureUser userId f))) = Inr b
            \<and> \<not> isDecline (fst (handler_cmd isOwnerId clk rnd userId cmd args f))
            \<and> (\<exists>d. d \<in> set [- b, b * 2, b * 5, b * 10, b * 14, b * 36]
                  \<and> usersOf (snd (handler_cmd isOwnerId clk rnd userId cmd args f)) =
                      (usersOf f)(userId \<mapsto> settled (account f userId) d (historyNow clk))))
    \<and> (gold (account f userId) < b \<longrightarrow>
            handler_cmd isOwnerId clk rnd userId cmd args f =
              (Sent (InsufficientFunds (gold (account f userId))), snd (ensureUser userId f))
            \<and> account (snd (ensureUser userId f)) userId = account f userId
            \<and> (usersOf f userId \<noteq> None \<longrightarrow> snd (ensureUser userId f) = f))
    \<and> (a \<noteq> [] \<and> list_all isDigit a \<and> 0 < digitsVal a \<longrightarrow> parseBet a = digitsVal a)"
proof (intro conjI impI)
  assume "a \<noteq> [] \<and> list_all isDigit a \<and> 0 < digitsVal a"
  then show "parseBet a = digitsVal a" by (simp add: parseBet_digits)
next
  assume e: "b = gold (account f userId)"
  then have le: "b \<le> gold (account f userId)" by simp
  show "fst (stakeAndCheck userId b (snd (ensureUser userId f))) = Inr b"
    using stake_ok [OF assms(3) le] e by simp
  show "\<not> isDecline (fst (handler_cmd isOwnerId clk rnd userId cmd args f))"
    using wager_staked [OF assms(1,2,3) le] by blast
  show "\<exists>d. d \<in> set [- b, b * 2, b * 5, b * 10, b * 14, b * 36]
          \<and> usersOf (snd (handler_cmd isOwnerId clk rnd userId cmd args f)) =
              (usersOf f)(userId \<mapsto> settled (account f userId) d (historyNow clk))"
    using wager_staked [OF assms(1,2,3) le] by blast
next
  assume lt: "gold (account f userId) < b"
  show "handler_cmd isOwnerId clk rnd userId cmd args f =
      (Sent (InsufficientFunds (gold (account f userId))), snd (ensureUser userId f))"
    by (rule wager_declined [OF assms(1)]) (simp add: assms(2) stake_short [OF assms(3) lt])
next
  show "account (snd (ensureUser userId f)) userId = account f userId"
    by (rule declined_state(1))
next
  assume "usersOf f userId \<noteq> None"
  then show "snd (ensureUser userId f) = f" by (rule ensureUser_existing)
qed

theorem wager_funds_boundary_witness:
  "isWager ''casino''
   \<and> parseBet (argAt [''40''] 0) = 40
   \<and> gold (account (Stored \<lparr>users = [''u'' \<mapsto> \<lparr>gold = 40, cooldowns = Map.empty, history = []\<rparr>]\<rparr>) ''u'') = 40
   \<and> fst (stakeAndCheck ''u'' 40 (snd (ensureUser ''u''
        (Stored \<lparr>users = [''u'' \<mapsto> \<lparr>gold = 40, cooldowns = Map.empty, history = []\<rparr>]\<rparr>)))) = Inr 40
   \<and> \<not> isDecline (fst (handler_cmd (\<lambda>_. False)
        \<lparr>claimNow = 7, waitNow = 7, historyNow = 7, cooldownNow = 7\<rparr> (\<lambda>_. 1 / 2) ''u'' ''casino''
        [''40''] (Stored \<lparr>users = [''u'' \<mapsto> \<lparr>gold = 40, cooldowns = Map.empty, history = []\<rparr>]\<rparr>)))
   \<and> parseBet ''41'' = digitsVal ''41''
   \<and> parseBet (argAt [''41''] 0) = 41
   \<and> handler_cmd (\<lambda>_. False)
        \<lparr>claimNow = 7, waitNow = 7, historyNow = 7, cooldownNow = 7\<rparr> (\<lambda>_. 1 / 2) ''u'' ''casino''
        [''41''] (Stored \<lparr>users = [''u'' \<mapsto> \<lparr>gold = 40, cooldowns = Map.empty, history = []\<rparr>]\<rparr>)
      = (Sent (InsufficientFunds 40),
         Stored \<lparr>users = [''u'' \<mapsto> \<lparr>gold = 40, cooldowns = Map.empty, history = []\<rparr>]\<rparr>)"
proof -
  let ?f = "Stored \<lparr>users = [''u'' \<mapsto> \<lparr>gold = 40, cooldowns = Map.empty, history = []\<rparr>]\<rparr>"
  let ?clk = "\<lparr>claimNow = 7, waitNow = 7, historyNow = 7, cooldownNow = 7\<rparr>"
  have h1: "isWager ''casino''" by (simp add: isWager_def)
  have h2: "parseBet (argAt [''40''] 0) = 40" by (simp add: text_eval)
  have h3: "parseBet (argAt [''41''] 0) = 41" by (simp add: text_eval)
  have p1: "(0::int) < 40" and p2: "(0::int) < 41" by simp_all
  have g: "gold (account ?f ''u'') = 40" by (simp add: store_eval)
  have e: "usersOf ?f ''u'' \<noteq> None" by (simp add: usersOf_simps)
  note a = wager_funds_boundary
    [OF h1 h2 p1, of ?f "''u''" "\<lambda>_. False" ?clk "\<lambda>_. 1 / 2" "''41''"]
  note d = wager_funds_boundary
    [OF h1 h3 p2, of ?f "''u''" "\<lambda>_. False" ?clk "\<lambda>_. 1 / 2" "''41''"]
  have n: "''41'' \<noteq> [] \<and> list_all isDigit ''41'' \<and> 0 < digitsVal ''41''"
    by (simp add: text_eval)
  have n1: "parseBet ''41'' = digitsVal ''41''" using d n by blast
  have a1: "fst (stakeAndCheck ''u'' 40 (snd (ensureUser ''u'' ?f))) = Inr 40"
    using a g by simp
  have a2: "\<not> isDecline (fst (handler_cmd (\<lambda>_. False) ?clk (\<lambda>_. 1 / 2) ''u'' ''casino'' [''40''] ?f))"
    using a g by simp
  have l: "gold (account ?f ''u'') < 41" using g by simp
  have d1: "handler_cmd (\<lambda>_. False) ?clk (\<lambda>_. 1 / 2) ''u'' ''casino'' [''41''] ?f
      = (Sent (InsufficientFunds (gold (account ?f ''u''))), snd (ensureUser ''u'' ?f))"
    using d l by blast
  have d2: "snd (ensureUser ''u'' ?f) = ?f" using d l e by blast
  show ?thesis
    using h1 h2 h3 g a1 a2 d1 d2 n1 by simp
qed

subsection \<open>Reading the bet\<close>

lemma parseBet_zero_iff:
  "parseBet a = 0 \<longleftrightarrow> a = [] \<or> parseInt10 (filter (\<lambda>c. isDigit c \<or> c = CHR ''-'') a) = None"
  by (auto simp add: parseBet_def max_def split: option.splits)

lemma parseBet_range: "parseBet a = 0 \<or> 1 \<le> parseBet a"
  by (auto simp add: parseBet_def max_def split: option.splits)

lemma parseBet_clamped:
  "a \<noteq> [] \<Longrightarrow> parseInt10 (filter (\<lambda>c. isDigit c \<or> c = CHR ''-'') a) = Some n \<Longrightarrow> n \<le> 0
     \<Longrightarrow> parseBet a = 1"
  by (simp add: parseBet_def)

text \<open>
  C2, as the code has it. \<open>parseBet\<close> returns 0 exactly when the argument is missing or
  empty, or when what is left of it after every character other than a digit or \<open>-\<close> is
  dropped does not start with a number; every other argument gives a bet of at least 1. For
  each of spin, slots, roulette and casino a bet of 0 is declined with the message that asks
  for a bet above 0, and the store is the one \<open>ensureUser\<close> left at the start of the handler
  (the account's record as before, the file untouched when the account existed). An
  argument that reads as zero or as a negative number is raised to a bet of 1, and with a
  balance of at least 1 that bet is staked.
\<close>

theorem wager_bet_reading:
  assumes "isWager cmd"
  shows "(parseBet a = 0 \<longleftrightarrow>
            a = [] \<or> parseInt10 (filter (\<lambda>c. isDigit c \<or> c = CHR ''-'') a) = None)
    \<and> (parseBet a = 0 \<or> 1 \<le> parseBet a)
    \<and> (parseBet (argAt args 0) = 0 \<longrightarrow>
          handler_cmd isOwnerId clk rnd userId cmd args f =
            (Sent SpecifyBet, snd (ensureUser userId f))
          \<and> account (snd (ensureUser userId f)) userId = account f userId
          \<and> (usersOf f userId \<noteq> None \<longrightarrow> snd (ensureUser userId f) = f))
    \<and> (a \<noteq> [] \<and> parseInt10 (filter (\<lambda>c. isDigit c \<or> c = CHR ''-'') a) = Some n \<and> n \<le> 0
          \<longrightarrow> parseBet a = 1)
    \<and> (parseBet (argAt args 0) = 1 \<and> 1 \<le> gold (account f userId) \<longrightarrow>
          \<not> isDecline (fst (handler_cmd isOwnerId clk rnd userId cmd args f))
          \<and> (\<exists>d. d \<in> set [- 1, 2, 5, 10, 14, 36]
                \<and> usersOf (snd (handler_cmd isOwnerId clk rnd userId cmd args f)) =
                    (usersOf f)(userId \<mapsto> settled (account f userId) d (historyNow clk))))"
proof (intro conjI impI)
  show "parseBet a = 0 \<longleftrightarrow>
            a = [] \<or> parseInt10 (filter (\<lambda>c. isDigit c \<or> c = CHR ''-'') a) = None"
    by (rule parseBet_zero_iff)
  show "parseBet a = 0 \<or> 1 \<le> parseBet a" by (rule parseBet_range)
next
  assume z: "parseBet (argAt args 0) = 0"
  show "handler_cmd isOwnerId clk rnd userId cmd args f =
            (Sent SpecifyBet, snd (ensureUser userId f))"
    by (rule wager_declined [OF assms]) (simp add: z stake_zero)
next
  show "account (snd (ensureUser userId f)) userId = account f userId"
    by (rule declined_state(1))
next
  assume "usersOf f userId \<noteq> None"
  then show "snd (ensureUser userId f) = f" by (rule ensureUser_existing)
next
  assume "a \<noteq> [] \<and> parseInt10 (filter (\<lambda>c. isDigit c \<or> c = CHR ''-'') a) = Some n \<and> n \<le> 0"
  then show "parseBet a = 1" by (simp add: parseBet_clamped)
next
  assume h: "parseBet (argAt args 0) = 1 \<and> 1 \<le> gold (account f userId)"
  have s: "\<not> isDecline (fst (handler_cmd isOwnerId clk rnd userId cmd args f))
    \<and> (\<exists>d. d \<in> set [- 1, 1 * 2, 1 * 5, 1 * 10, 1 * 14, 1 * 36]
          \<and> usersOf (snd (handler_cmd isOwnerId clk rnd userId cmd args f)) =
              (usersOf f)(userId \<mapsto> settled (account f userId) d (historyNow clk)))"
    using h by (intro wager_staked [OF assms]) simp_all
  show "\<not> isDecline (fst (handler_cmd isOwnerId clk rnd userId cmd args f))"
    using s by blast
  show "\<exists>d. d \<in> set [- 1, 2, 5, 10, 14, 36]
                \<and> usersOf (snd (handler_cmd isOwnerId clk rnd userId cmd args f)) =
                    (usersOf f)(userId \<mapsto> settled (account f userId) d (historyNow clk))"
    using s by simp
qed

text \<open>
  C2 as stated fails: with a balance of 10, \<open>.spin 0\<close> and \<open>.casino -5\<close> are not declined;
  each stakes 1 and, on a losing draw, leaves the balance 9.
\<close>

theorem zero_bet_counterexample:
  "handler (\<lambda>_. False) \<lparr>claimNow = 7, waitNow = 7, historyNow = 7, cooldownNow = 7\<rparr>
      (\<lambda>_. 3 / 10) ''.spin 0'' ''u''
      (Stored \<lparr>users = [''u'' \<mapsto> \<lparr>gold = 10, cooldowns = Map.empty, history = []\<rparr>]\<rparr>)
    = (Sent (SpinLost 1),
       Stored \<lparr>users = [''u'' \<mapsto> \<lparr>gold = 9, cooldowns = Map.empty,
         history = [\<lparr>time = 7, change = - 1\<rparr>]\<rparr>]\<rparr>)
   \<and> handler (\<lambda>_. False) \<lparr>claimNow = 7, waitNow = 7, historyNow = 7, cooldownNow = 7\<rparr>
      (\<lambda>_. 3 / 10) ''.casino -5'' ''u''
      (Stored \<lparr>users = [''u'' \<mapsto> \<lparr>gold = 10, cooldowns = Map.empty, history = []\<rparr>]\<rparr>)
    = (Sent (HouseWins 1),
       Stored \<lparr>users = [''u'' \<mapsto> \<lparr>gold = 9, cooldowns = Map.empty,
         history = [\<lparr>time = 7, change = - 1\<rparr>]\<rparr>]\<rparr>)"
  by (simp add: handler_def handler_cmd_def cmd_spin_def cmd_casino_def stakeAndCheck_def
      store_eval text_eval)

theorem wager_bet_reading_witness:
  "isWager ''slots''
   \<and> parseBet (argAt [] 0) = 0
   \<and> handler_cmd (\<lambda>_. False) \<lparr>claimNow = 7, waitNow = 7, historyNow = 7, cooldownNow = 7\<rparr>
        (\<lambda>_. 1 / 2) ''u'' ''slots'' []
        (Stored \<lparr>users = [''u'' \<mapsto> \<lparr>gold = 10, cooldowns = Map.empty, history = []\<rparr>]\<rparr>)
      = (Sent SpecifyBet,
         Stored \<lparr>users = [''u'' \<mapsto> \<lparr>gold = 10, cooldowns = Map.empty, history = []\<rparr>]\<rparr>)
   \<and> parseBet ''abc'' = 0
   \<and> parseInt10 (filter (\<lambda>c. isDigit c \<or> c = CHR ''-'') ''-5'') = Some (- 5)
   \<and> parseBet ''-5'' = 1
   \<and> parseBet (argAt [''-5''] 0) = 1
   \<and> \<not> isDecline (fst (handler_cmd (\<lambda>_. False)
        \<lparr>claimNow = 7, waitNow = 7, historyNow = 7, cooldownNow = 7\<rparr>
        (\<lambda>_. 1 / 2) ''u'' ''slots'' [''-5'']
        (Stored \<lparr>users = [''u'' \<mapsto> \<lparr>gold = 10, cooldowns = Map.empty, history = []\<rparr>]\<rparr>)))"
proof -
  let ?f = "Stored \<lparr>users = [''u'' \<mapsto> \<lparr>gold = 10, cooldowns = Map.empty, history = []\<rparr>]\<rparr>"
  let ?clk = "\<lparr>claimNow = 7, waitNow = 7, historyNow = 7, cooldownNow = 7\<rparr>"
  have h1: "isWager ''slots''" by (simp add: isWager_def)
  have h2: "parseBet (argAt [] 0) = 0" by (simp add: text_eval)
  have h3: "''abc'' = [] \<or> parseInt10 (filter (\<lambda>c. isDigit c \<or> c = CHR ''-'') ''abc'') = None"
    by (simp add: text_eval)
  have h4: "''-5'' \<noteq> [] \<and> parseInt10 (filter (\<lambda>c. isDigit c \<or> c = CHR ''-'') ''-5'') = Some (- 5)
      \<and> (- 5::int) \<le> 0"
    by (simp add: text_eval)
  have h5: "usersOf ?f ''u'' \<noteq> None" by (simp add: usersOf_simps)
  have h6: "1 \<le> gold (account ?f ''u'')" by (simp add: store_eval)
  note t1 = wager_bet_reading [OF h1, of "''abc''" "[]" "\<lambda>_. False" ?clk "\<lambda>_. 1 / 2" "''u''" ?f 0]
  have c1: "handler_cmd (\<lambda>_. False) ?clk (\<lambda>_. 1 / 2) ''u'' ''slots'' [] ?f = (Sent SpecifyBet, ?f)"
    using t1 h2 h5 by simp
  have c2: "parseBet ''abc'' = 0" using t1 h3 by blast
  note t2 = wager_bet_reading [OF h1, of "''-5''" "[''-5'']" "\<lambda>_. False" ?clk "\<lambda>_. 1 / 2" "''u''" ?f "- 5"]
  have c3: "parseBet ''-5'' = 1" using t2 h4 by blast
  have c4: "parseBet (argAt [''-5''] 0) = 1" using c3 by (simp add: argAt_def)
  have c5: "\<not> isDecline (fst (handler_cmd (\<lambda>_. False) ?clk (\<lambda>_. 1 / 2) ''u'' ''slots'' [''-5''] ?f))"
    using t2 c4 h6 by blast
  show ?thesis using h1 h2 h4 c1 c2 c3 c4 c5 by blast
qed

subsection \<open>Roulette\<close>

lemma color_not_digits:
  "\<not> list_all isDigit (wheelColor w)" "wheelColor w \<noteq> []"
  by (simp_all add: wheelColor_def isDigit_def)

lemma wheelColor_green: "wheelColor w = ''green'' \<longleftrightarrow> w = 0"
  by (simp add: wheelColor_def)

text \<open>
  C8. An accepted roulette wager (a bet \<open>b\<close> above 0 and at most the balance) with the wheel
  number \<open>w = rand(0, 36)\<close>, which lies in \<open>[0, 36]\<close> for a reading of \<open>Math.random()\<close> in
  \<open>[0, 1)\<close>. The wheel is green at 0, black at the other even numbers and red at the odd ones.
  The pick is the second argument in lower case. Without a pick the bet is lost. A pick made
  of digits wins \<open>36 b\<close> when its value is \<open>w\<close> and loses \<open>b\<close> otherwise. Any other pick wins
  when it is the wheel's colour, \<open>2 b\<close> on black or red and \<open>14 b\<close> on green, and loses \<open>b\<close>
  otherwise. The balance changes by that amount and the history records it.
\<close>

theorem roulette_outcome:
  assumes "parseBet (argAt args 0) = b" and "0 < b" and "b \<le> gold (account f userId)"
    and "w = rand 0 36 (rnd 0)" and "pick = toLowerCase (argAt args 1)"
  shows "(0 \<le> rnd 0 \<and> rnd 0 < 1 \<longrightarrow> 0 \<le> w \<and> w \<le> 36)
    \<and> wheelColor w = (if w = 0 then ''green'' else if even w then ''black'' else ''red'')
    \<and> (pick = [] \<longrightarrow>
          fst (handler_cmd isOwnerId clk rnd userId ''roulette'' args f) =
            Sent (RouletteNoPick w (wheelColor w) b)
          \<and> usersOf (snd (handler_cmd isOwnerId clk rnd userId ''roulette'' args f)) =
              (usersOf f)(userId \<mapsto> settled (account f userId) (- b) (historyNow clk)))
    \<and> (pick \<noteq> [] \<and> list_all isDigit pick \<and> digitsVal pick = w \<longrightarrow>
          fst (handler_cmd isOwnerId clk rnd userId ''roulette'' args f) =
            Sent (RouletteHit w (wheelColor w) (36 * b))
          \<and> usersOf (snd (handler_cmd isOwnerId clk rnd userId ''roulette'' args f)) =
              (usersOf f)(userId \<mapsto> settled (account f userId) (36 * b) (historyNow clk)))
    \<and> (pick \<noteq> [] \<and> list_all isDigit pick \<and> digitsVal pick \<noteq> w \<longrightarrow>
          fst (handler_cmd isOwnerId clk rnd userId ''roulette'' args f) =
            Sent (RouletteMissed w (wheelColor w) b)
          \<and> usersOf (snd (handler_cmd isOwnerId clk rnd userId ''roulette'' args f)) =
              (usersOf f)(userId \<mapsto> settled (account f userId) (- b) (historyNow clk)))
    \<and> (pick = wheelColor w \<and> w \<noteq> 0 \<longrightarrow>
          fst (handler_cmd isOwnerId clk rnd userId ''roulette'' args f) =
            Sent (RouletteWon w (wheelColor w) 2 (2 * b))
          \<and> usersOf (snd (handler_cmd isOwnerId clk rnd userId ''roulette'' args f)) =
              (usersOf f)(userId \<mapsto> settled (account f userId) (2 * b) (historyNow clk)))
    \<and> (pick = ''green'' \<and> w = 0 \<longrightarrow>
          fst (handler_cmd isOwnerId clk rnd userId ''roulette'' args f) =
            Sent (RouletteWon w (wheelColor w) 14 (14 * b))
          \<and> usersOf (snd (handler_cmd isOwnerId clk rnd userId ''roulette'' args f)) =
              (usersOf f)(userId \<mapsto> settled (account f userId) (14 * b) (historyNow clk)))
    \<and> (pick \<noteq> [] \<and> \<not> list_all isDigit pick \<and> pick \<noteq> wheelColor w \<longrightarrow>
          fst (handler_cmd isOwnerId clk rnd userId ''roulette'' args f) =
            Sent (RouletteLost w (wheelColor w) b)
          \<and> usersOf (snd (handler_cmd isOwnerId clk rnd userId ''roulette'' args f)) =
              (usersOf f)(userId \<mapsto> settled (account f userId) (- b) (historyNow clk)))"
proof -
  note a = roulette_accepted [OF assms(1,2,3), of isOwnerId clk rnd, folded assms(4) assms(5)]
  have 0: "0 \<le> rnd 0 \<and> rnd 0 < 1 \<longrightarrow> 0 \<le> w \<and> w \<le> 36"
    using rand_lower [of "rnd 0" 0 36] rand_upper [of "rnd 0" 0 36] by (simp add: assms(4))
  have 1: "wheelColor w = (if w = 0 then ''green'' else if even w then ''black'' else ''red'')"
    by (simp add: wheelColor_def even_iff_mod_2_eq_zero)
  have 2: "pick = [] \<longrightarrow>
          fst (handler_cmd isOwnerId clk rnd userId ''roulette'' args f) =
            Sent (RouletteNoPick w (wheelColor w) b)
          \<and> usersOf (snd (handler_cmd isOwnerId clk rnd userId ''roulette'' args f)) =
              (usersOf f)(userId \<mapsto> settled (account f userId) (- b) (historyNow clk))"
    by (simp add: a)
  have 3: "pick \<noteq> [] \<and> list_all isDigit pick \<and> digitsVal pick = w \<longrightarrow>
          fst (handler_cmd isOwnerId clk rnd userId ''roulette'' args f) =
            Sent (RouletteHit w (wheelColor w) (36 * b))
          \<and> usersOf (snd (handler_cmd isOwnerId clk rnd userId ''roulette'' args f)) =
              (usersOf f)(userId \<mapsto> settled (account f userId) (36 * b) (historyNow clk))"
    by (simp add: a parseInt10_digits mult.commute)
  have 4: "pick \<noteq> [] \<and> list_all isDigit pick \<and> digitsVal pick \<noteq> w \<longrightarrow>
          fst (handler_cmd isOwnerId clk rnd userId ''roulette'' args f) =
            Sent (RouletteMissed w (wheelColor w) b)
          \<and> usersOf (snd (handler_cmd isOwnerId clk rnd userId ''roulette'' args f)) =
              (usersOf f)(userId \<mapsto> settled (account f userId) (- b) (historyNow clk))"
    by (simp add: a parseInt10_digits)
  have 5: "pick = wheelColor w \<and> w \<noteq> 0 \<longrightarrow>
          fst (handler_cmd isOwnerId clk rnd userId ''roulette'' args f) =
            Sent (RouletteWon w (wheelColor w) 2 (2 * b))
          \<and> usersOf (snd (handler_cmd isOwnerId clk rnd userId ''roulette'' args f)) =
              (usersOf f)(userId \<mapsto> settled (account f userId) (2 * b) (historyNow clk))"
    by (simp add: a color_not_digits wheelColor_green mult.commute)
  have 6: "pick = ''green'' \<and> w = 0 \<longrightarrow>
          fst (handler_cmd isOwnerId clk rnd userId ''roulette'' args f) =
            Sent (RouletteWon w (wheelColor w) 14 (14 * b))
          \<and> usersOf (snd (handler_cmd isOwnerId clk rnd userId ''roulette'' args f)) =
              (usersOf f)(userId \<mapsto> settled (account f userId) (14 * b) (historyNow clk))"
  proof
    assume h: "pick = ''green'' \<and> w = 0"
    then have pc: "pick = wheelColor w" and w0: "w = 0"
      by (simp_all add: wheelColor_def)
    have g: "wheelColor w = ''green''" using w0 by (simp add: wheelColor_def)
    show "fst (handler_cmd isOwnerId clk rnd userId ''roulette'' args f) =
            Sent (RouletteWon w (wheelColor w) 14 (14 * b))
          \<and> usersOf (snd (handler_cmd isOwnerId clk rnd userId ''roulette'' args f)) =
              (usersOf f)(userId \<mapsto> settled (account f userId) (14 * b) (historyNow clk))"
      unfolding a pc using g by (simp add: isDigit_def mult.commute)
  qed
  have 7: "pick \<noteq> [] \<and> \<not> list_all isDigit pick \<and> pick \<noteq> wheelColor w \<longrightarrow>
          fst (handler_cmd isOwnerId clk rnd userId ''roulette'' args f) =
            Sent (RouletteLost w (wheelColor w) b)
          \<and> usersOf (snd (handler_cmd isOwnerId clk rnd userId ''roulette'' args f)) =
              (usersOf f)(userId \<mapsto> settled (account f userId) (- b) (historyNow clk))"
    by (simp add: a)
  show ?thesis using 0 1 2 3 4 5 6 7 by blast
qed

theorem roulette_outcome_witness:
  "rand 0 36 (1 / 2) = 18
   \<and> rand 0 36 0 = 0
   \<and> wheelColor 18 = ''black''
   \<and> fst (handler_cmd (\<lambda>_. False) \<lparr>claimNow = 7, waitNow = 7, historyNow = 7, cooldownNow = 7\<rparr> (\<lambda>_. 1 / 2) ''u'' ''roulette'' [''10''] (Stored \<lparr>users = [''u'' \<mapsto> \<lparr>gold = 10, cooldowns = Map.empty, history = []\<rparr>]\<rparr>)) = Sent (RouletteNoPick 18 ''black'' 10)
   \<and> usersOf (snd (handler_cmd (\<lambda>_. False) \<lparr>claimNow = 7, waitNow = 7, historyNow = 7, cooldownNow = 7\<rparr> (\<lambda>_. 1 / 2) ''u'' ''roulette'' [''10''] (Stored \<lparr>users = [''u'' \<mapsto> \<lparr>gold = 10, cooldowns = Map.empty, history = []\<rparr>]\<rparr>))) ''u'' = Some \<lparr>gold = 0, cooldowns = Map.empty, history = [\<lparr>time = 7, change = - 10\<rparr>]\<rparr>
   \<and> fst (handler_cmd (\<lambda>_. False) \<lparr>claimNow = 7, waitNow = 7, historyNow = 7, cooldownNow = 7\<rparr> (\<lambda>_. 1 / 2) ''u'' ''roulette'' [''10'', ''18''] (Stored \<lparr>users = [''u'' \<mapsto> \<lparr>gold = 10, cooldowns = Map.empty, history = []\<rparr>]\<rparr>)) = Sent (RouletteHit 18 ''black'' 360)
   \<and> usersOf (snd (handler_cmd (\<lambda>_. False) \<lparr>claimNow = 7, waitNow = 7, historyNow = 7, cooldownNow = 7\<rparr> (\<lambda>_. 1 / 2) ''u'' ''roulette'' [''10'', ''18''] (Stored \<lparr>users = [''u'' \<mapsto> \<lparr>gold = 10, cooldowns = Map.empty, history = []\<rparr>]\<rparr>))) ''u'' = Some \<lparr>gold = 370, cooldowns = Map.empty, history = [\<lparr>time = 7, change = 360\<rparr>]\<rparr>
   \<and> fst (handler_cmd (\<lambda>_. False) \<lparr>claimNow = 7, waitNow = 7, historyNow = 7, cooldownNow = 7\<rparr> (\<lambda>_. 1 / 2) ''u'' ''roulette'' [''10'', ''7''] (Stored \<lparr>users = [''u'' \<mapsto> \<lparr>gold = 10, cooldowns = Map.empty, history = []\<rparr>]\<rparr>)) = Sent (RouletteMissed 18 ''black'' 10)
   \<and> usersOf (snd (handler_cmd (\<lambda>_. False) \<lparr>claimNow = 7, waitNow = 7, historyNow = 7, cooldownNow = 7\<rparr> (\<lambda>_. 1 / 2) ''u'' ''roulette'' [''10'', ''7''] (Stored \<lparr>users = [''u'' \<mapsto> \<lparr>gold = 10, cooldowns = Map.empty, history = []\<rparr>]\<rparr>))) ''u'' = Some \<lparr>gold = 0, cooldowns = Map.empty, history = [\<lparr>time = 7, change = - 10\<rparr>]\<rparr>
   \<and> fst (handler_cmd (\<lambda>_. False) \<lparr>claimNow = 7, waitNow = 7, historyNow = 7, cooldownNow = 7\<rparr> (\<lambda>_. 1 / 2) ''u'' ''roulette'' [''10'', ''BLACK''] (Stored \<lparr>users = [''u'' \<mapsto> \<lparr>gold = 10, cooldowns = Map.empty, history = []\<rparr>]\<rparr>)) = Sent (RouletteWon 18 ''black'' 2 20)
   \<and> usersOf (snd (handler_cmd (\<lambda>_. False) \<lparr>claimNow = 7, waitNow = 7, historyNow = 7, cooldownNow = 7\<rparr> (\<lambda>_. 1 / 2) ''u'' ''roulette'' [''10'', ''BLACK''] (Stored \<lparr>users = [''u'' \<mapsto> \<lparr>gold = 10, cooldowns = Map.empty, history = []\<rparr>]\<rparr>))) ''u'' = Some \<lparr>gold = 30, cooldowns = Map.empty, history = [\<lparr>time = 7, change = 20\<rparr>]\<rparr>
   \<and> fst (handler_cmd (\<lambda>_. False) \<lparr>claimNow = 7, waitNow = 7, historyNow = 7, cooldownNow = 7\<rparr> (\<lambda>_. 0) ''u'' ''roulette'' [''10'', ''Green''] (Stored \<lparr>users = [''u'' \<mapsto> \<lparr>gold = 10, cooldowns = Map.empty, history = []\<rparr>]\<rparr>)) = Sent (RouletteWon 0 ''green'' 14 140)
   \<and> usersOf (snd (handler_cmd (\<lambda>_. False) \<lparr>claimNow = 7, waitNow = 7, historyNow = 7, cooldownNow = 7\<rparr> (\<lambda>_. 0) ''u'' ''roulette'' [''10'', ''Green''] (Stored \<lparr>users = [''u'' \<mapsto> \<lparr>gold = 10, cooldowns = Map.empty, history = []\<rparr>]\<rparr>))) ''u'' = Some \<lparr>gold = 150, cooldowns = Map.empty, history = [\<lparr>time = 7, change = 140\<rparr>]\<rparr>
   \<and> fst (handler_cmd (\<lambda>_. False) \<lparr>claimNow = 7, waitNow = 7, historyNow = 7, cooldownNow = 7\<rparr> (\<lambda>_. 1 / 2) ''u'' ''roulette'' [''10'', ''red''] (Stored \<lparr>users = [''u'' \<mapsto> \<lparr>gold = 10, cooldowns = Map.empty, history = []\<rparr>]\<rparr>)) = Sent (RouletteLost 18 ''black'' 10)
   \<and> usersOf (snd (handler_cmd (\<lambda>_. False) \<lparr>claimNow = 7, waitNow = 7, historyNow = 7, cooldownNow = 7\<rparr> (\<lambda>_. 1 / 2) ''u'' ''roulette'' [''10'', ''red''] (Stored \<lparr>users = [''u'' \<mapsto> \<lparr>gold = 10, cooldowns = Map.empty, history = []\<rparr>]\<rparr>))) ''u'' = Some \<lparr>gold = 0, cooldowns = Map.empty, history = [\<lparr>time = 7, change = - 10\<rparr>]\<rparr>"
proof -
  let ?f = "(Stored \<lparr>users = [''u'' \<mapsto> \<lparr>gold = 10, cooldowns = Map.empty, history = []\<rparr>]\<rparr>)"
  let ?clk = "\<lparr>claimNow = 7, waitNow = 7, historyNow = 7, cooldownNow = 7\<rparr>"
  have a: "account ?f ''u'' = \<lparr>gold = 10, cooldowns = Map.empty, history = []\<rparr>"
    by (simp add: store_eval)
  have b: "(10::int) \<le> gold (account ?f ''u'')" "(0::int) < 10" by (simp_all add: a)
  have w1: "(18::int) = rand 0 36 ((\<lambda>_. 1 / 2) (0::nat))" by (simp add: rand_def)
  have w0: "(0::int) = rand 0 36 ((\<lambda>_. 0) (0::nat))" by (simp add: rand_def)
  have r1: "rand 0 36 (1 / 2) = 18" and r0: "rand 0 36 0 = 0" by (simp_all add: rand_def)
  have col: "wheelColor 18 = ''black''" "wheelColor 0 = ''green''" by (simp_all add: wheelColor_def)
  have s: "\<And>d. ((usersOf ?f)(''u'' \<mapsto> settled (account ?f ''u'') d (historyNow ?clk))) ''u''
      = Some \<lparr>gold = 10 + d, cooldowns = Map.empty, history = [\<lparr>time = 7, change = d\<rparr>]\<rparr>"
    by (simp add: a settled_def)
  have bn: "parseBet (argAt [''10''] 0) = 10" by (simp add: text_eval)
  have pn: "([]::string) = toLowerCase (argAt [''10''] 1)" by (simp add: text_eval)
  have qn: "([]::string) = []" by (simp add: text_eval col)
  have tn: "fst (handler_cmd (\<lambda>_. False) ?clk (\<lambda>_. 1 / 2) ''u'' ''roulette'' [''10''] ?f) = Sent (RouletteNoPick 18 (wheelColor 18) 10)
      \<and> usersOf (snd (handler_cmd (\<lambda>_. False) ?clk (\<lambda>_. 1 / 2) ''u'' ''roulette'' [''10''] ?f)) =
          (usersOf ?f)(''u'' \<mapsto> settled (account ?f ''u'') (- 10) (historyNow ?clk))"
    using roulette_outcome [OF bn b(2) b(1) w1 pn, of "\<lambda>_. False" ?clk] qn
    by blast
  have vn: "fst (handler_cmd (\<lambda>_. False) ?clk (\<lambda>_. 1 / 2) ''u'' ''roulette'' [''10''] ?f) = Sent (RouletteNoPick 18 ''black'' 10)"
    using tn by (simp add: col)
  have un: "usersOf (snd (handler_cmd (\<lambda>_. False) ?clk (\<lambda>_. 1 / 2) ''u'' ''roulette'' [''10''] ?f)) ''u'' = Some \<lparr>gold = 0, cooldowns = Map.empty, history = [\<lparr>time = 7, change = - 10\<rparr>]\<rparr>"
    using tn s [of "(- 10)"] by simp
  have bh: "parseBet (argAt [''10'', ''18''] 0) = 10" by (simp add: text_eval)
  have ph: "''18'' = toLowerCase (argAt [''10'', ''18''] 1)" by (simp add: text_eval)
  have qh: "''18'' \<noteq> [] \<and> list_all isDigit ''18'' \<and> digitsVal ''18'' = 18" by (simp add: text_eval col)
  have th: "fst (handler_cmd (\<lambda>_. False) ?clk (\<lambda>_. 1 / 2) ''u'' ''roulette'' [''10'', ''18''] ?f) = Sent (RouletteHit 18 (wheelColor 18) (36 * 10))
      \<and> usersOf (snd (handler_cmd (\<lambda>_. False) ?clk (\<lambda>_. 1 / 2) ''u'' ''roulette'' [''10'', ''18''] ?f)) =
          (usersOf ?f)(''u'' \<mapsto> settled (account ?f ''u'') (36 * 10) (historyNow ?clk))"
    using roulette_outcome [OF bh b(2) b(1) w1 ph, of "\<lambda>_. False" ?clk] qh
    by blast
  have vh: "fst (handler_cmd (\<lambda>_. False) ?clk (\<lambda>_. 1 / 2) ''u'' ''roulette'' [''10'', ''18''] ?f) = Sent (RouletteHit 18 ''black'' 360)"
    using th by (simp add: col)
  have uh: "usersOf (snd (handler_cmd (\<lambda>_. False) ?clk (\<lambda>_. 1 / 2) ''u'' ''roulette'' [''10'', ''18''] ?f)) ''u'' = Some \<lparr>gold = 370, cooldowns = Map.empty, history = [\<lparr>time = 7, change = 360\<rparr>]\<rparr>"
    using th s [of "(36 * 10)"] by simp
  have bm: "parseBet (argAt [''10'', ''7''] 0) = 10" by (simp add: text_eval)
  have pm: "''7'' = toLowerCase (argAt [''10'', ''7''] 1)" by (simp add: text_eval)
  have qm: "''7'' \<noteq> [] \<and> list_all isDigit ''7'' \<and> digitsVal ''7'' \<noteq> 18" by (simp add: text_eval col)
  have tm: "fst (handler_cmd (\<lambda>_. False) ?clk (\<lambda>_. 1 / 2) ''u'' ''roulette'' [''10'', ''7''] ?f) = Sent (RouletteMissed 18 (wheelColor 18) 10)
      \<and> usersOf (snd (handler_cmd (\<lambda>_. False) ?clk (\<lambda>_. 1 / 2) ''u'' ''roulette'' [''10'', ''7''] ?f)) =
          (usersOf ?f)(''u'' \<mapsto> settled (account ?f ''u'') (- 10) (historyNow ?clk))"
    using roulette_outcome [OF bm b(2) b(1) w1 pm, of "\<lambda>_. False" ?clk] qm
    by blast
  have vm: "fst (handler_cmd (\<lambda>_. False) ?clk (\<lambda>_. 1 / 2) ''u'' ''roulette'' [''10'', ''7''] ?f) = Sent (RouletteMissed 18 ''black'' 10)"
    using tm by (simp add: col)
  have um: "usersOf (snd (handler_cmd (\<lambda>_. False) ?clk (\<lambda>_. 1 / 2) ''u'' ''roulette'' [''10'', ''7''] ?f)) ''u'' = Some \<lparr>gold = 0, cooldowns = Map.empty, history = [\<lparr>time = 7, change = - 10\<rparr>]\<rparr>"
    using tm s [of "(- 10)"] by simp
  have bc: "parseBet (argAt [''10'', ''BLACK''] 0) = 10" by (simp add: text_eval)
  have pc: "''black'' = toLowerCase (argAt [''10'', ''BLACK''] 1)" by (simp add: text_eval)
  have qc: "''black'' = wheelColor 18 \<and> (18::int) \<noteq> 0" by (simp add: text_eval col)
  have tc: "fst (handler_cmd (\<lambda>_. False) ?clk (\<lambda>_. 1 / 2) ''u'' ''roulette'' [''10'', ''BLACK''] ?f) = Sent (RouletteWon 18 (wheelColor 18) 2 (2 * 10))
      \<and> usersOf (snd (handler_cmd (\<lambda>_. False) ?clk (\<lambda>_. 1 / 2) ''u'' ''roulette'' [''10'', ''BLACK''] ?f)) =
          (usersOf ?f)(''u'' \<mapsto> settled (account ?f ''u'') (2 * 10) (historyNow ?clk))"
    using roulette_outcome [OF bc b(2) b(1) w1 pc, of "\<lambda>_. False" ?clk] qc
    by blast
  have vc: "fst (handler_cmd (\<lambda>_. False) ?clk (\<lambda>_. 1 / 2) ''u'' ''roulette'' [''10'', ''BLACK''] ?f) = Sent (RouletteWon 18 ''black'' 2 20)"
    using tc by (simp add: col)
  have uc: "usersOf (snd (handler_cmd (\<lambda>_. False) ?clk (\<lambda>_. 1 / 2) ''u'' ''roulette'' [''10'', ''BLACK''] ?f)) ''u'' = Some \<lparr>gold = 30, cooldowns = Map.empty, history = [\<lparr>time = 7, change = 20\<rparr>]\<rparr>"
    using tc s [of "(2 * 10)"] by simp
  have bg: "parseBet (argAt [''10'', ''Green''] 0) = 10" by (simp add: text_eval)
  have pg: "''green'' = toLowerCase (argAt [''10'', ''Green''] 1)" by (simp add: text_eval)
  have qg: "''green'' = ''green'' \<and> (0::int) = 0" by (simp add: text_eval col)
  have tg: "fst (handler_cmd (\<lambda>_. False) ?clk (\<lambda>_. 0) ''u'' ''roulette'' [''10'', ''Green''] ?f) = Sent (RouletteWon 0 (wheelColor 0) 14 (14 * 10))
      \<and> usersOf (snd (handler_cmd (\<lambda>_. False) ?clk (\<lambda>_. 0) ''u'' ''roulette'' [''10'', ''Green''] ?f)) =
          (usersOf ?f)(''u'' \<mapsto> settled (account ?f ''u'') (14 * 10) (historyNow ?clk))"
    using roulette_outcome [OF bg b(2) b(1) w0 pg, of "\<lambda>_. False" ?clk] qg
    by blast
  have vg: "fst (handler_cmd (\<lambda>_. False) ?clk (\<lambda>_. 0) ''u'' ''roulette'' [''10'', ''Green''] ?f) = Sent (RouletteWon 0 ''green'' 14 140)"
    using tg by (simp add: col)
  have ug: "usersOf (snd (handler_cmd (\<lambda>_. False) ?clk (\<lambda>_. 0) ''u'' ''roulette'' [''10'', ''Green''] ?f)) ''u'' = Some \<lparr>gold = 150, cooldowns = Map.empty, history = [\<lparr>time = 7, change = 140\<rparr>]\<rparr>"
    using tg s [of "(14 * 10)"] by simp
  have bl: "parseBet (argAt [''10'', ''red''] 0) = 10" by (simp add: text_eval)
  have pl: "''red'' = toLowerCase (argAt [''10'', ''red''] 1)" by (simp add: text_eval)
  have ql: "''red'' \<noteq> [] \<and> \<not> list_all isDigit ''red'' \<and> ''red'' \<noteq> wheelColor 18" by (simp add: text_eval col)
  have tl: "fst (handler_cmd (\<lambda>_. False) ?clk (\<lambda>_. 1 / 2) ''u'' ''roulette'' [''10'', ''red''] ?f) = Sent (RouletteLost 18 (wheelColor 18) 10)
      \<and> usersOf (snd (handler_cmd (\<lambda>_. False) ?clk (\<lambda>_. 1 / 2) ''u'' ''roulette'' [''10'', ''red''] ?f)) =
          (usersOf ?f)(''u'' \<mapsto> settled (account ?f ''u'') (- 10) (historyNow ?clk))"
    using roulette_outcome [OF bl b(2) b(1) w1 pl, of "\<lambda>_. False" ?clk] ql
    by blast
  have vl: "fst (handler_cmd (\<lambda>_. False) ?clk (\<lambda>_. 1 / 2) ''u'' ''roulette'' [''10'', ''red''] ?f) = Sent (RouletteLost 18 ''black'' 10)"
    using tl by (simp add: col)
  have ul: "usersOf (snd (handler_cmd (\<lambda>_. False) ?clk (\<lambda>_. 1 / 2) ''u'' ''roulette'' [''10'', ''red''] ?f)) ''u'' = Some \<lparr>gold = 0, cooldowns = Map.empty, history = [\<lparr>time = 7, change = - 10\<rparr>]\<rparr>"
    using tl s [of "(- 10)"] by simp
  show ?thesis
    using r1 r0 col(1) vn un vh uh vm um vc uc vg ug vl ul by blast
qed

subsection \<open>The cooldown gate\<close>

lemma ensureUser_twice:
  "snd (ensureUser userId (snd (ensureUser userId f))) = snd (ensureUser userId f)"
  by (cases f) (auto simp add: ensureUser_eq usersOf_simps account_def ensureDbFile_def)

lemma getCooldown_after:
  "getCooldown userId key (snd (ensureUser userId f)) =
     (lastOf f userId key, snd (ensureUser userId f))"
  by (simp add: getCooldown_eq account_ensureUser ensureUser_twice lastOf_def)

lemma canClaim_after:
  "canClaim userId key ms t (snd (ensureUser userId f)) =
     (if lastOf f userId key = 0 then True else ms \<le> t - lastOf f userId key,
      snd (ensureUser userId f))"
  by (simp add: canClaim_def getCooldown_after)

lemma earned:
  "usersOf (setCooldown userId key tc (snd (add userId r th (snd (ensureUser userId f))))) =
     (usersOf f)(userId \<mapsto>
        (settled (account f userId) r th)\<lparr>cooldowns := (cooldowns (account f userId))(key \<mapsto> tc)\<rparr>)"
  by (simp add: setCooldown_eq add_eq usersOf_simps account_Stored_upd account_ensureUser
      ensureUser_users settled_def)

lemma waitUnits_positive:
  assumes "t - t0 < P" "0 < unit"
  shows "0 < waitUnits P t t0 unit"
proof -
  have "0 < real_of_int (P - (t - t0)) / real_of_int unit"
    using assms by simp
  then show ?thesis by (simp add: waitUnits_def)
qed

lemma waitUnits_upper:
  assumes "t0 \<le> t" "0 < unit" "unit dvd P"
  shows "waitUnits P t t0 unit \<le> P div unit"
proof -
  obtain k where k: "P = unit * k" using assms(3) by (auto simp add: dvd_def)
  have "real_of_int (P - (t - t0)) \<le> real_of_int (unit * k)"
    using assms(1) k by simp
  then have "real_of_int (P - (t - t0)) / real_of_int unit \<le> real_of_int k"
    using assms(2) by (simp add: divide_le_eq mult.commute)
  then have "waitUnits P t t0 unit \<le> k"
    by (simp add: waitUnits_def ceiling_le_iff)
  then show ?thesis using k assms(2) by simp
qed

lemma waitUnits_rounds_up:
  assumes "0 < unit"
  shows "(waitUnits P t t0 unit - 1) * unit < P - (t - t0)
    \<and> P - (t - t0) \<le> waitUnits P t t0 unit * unit"
proof -
  define y where "y = real_of_int (P - (t - t0))"
  define x where "x = y / real_of_int unit"
  define c where "c = \<lceil>x\<rceil>"
  have u: "0 < real_of_int unit" using assms by simp
  have xu: "x * real_of_int unit = y" using u by (simp add: x_def)
  have a: "real_of_int (c - 1) < x" and b: "x \<le> real_of_int c"
    unfolding c_def by linarith+
  have "real_of_int (c - 1) * real_of_int unit < x * real_of_int unit"
    using a u by (rule mult_strict_right_mono)
  then have 1: "real_of_int ((c - 1) * unit) < real_of_int (P - (t - t0))"
    unfolding xu y_def by simp
  have "x * real_of_int unit \<le> real_of_int c * real_of_int unit"
    using b u by (simp add: mult_right_mono)
  then have 2: "real_of_int (P - (t - t0)) \<le> real_of_int (c * unit)"
    unfolding xu y_def by simp
  have w: "waitUnits P t t0 unit = c"
    by (simp add: waitUnits_def c_def x_def y_def)
  show ?thesis
    unfolding w using 1 2 of_int_less_iff of_int_le_iff by blast
qed


lemma jobReward_positive: "0 \<le> x \<Longrightarrow> 0 < jobReward job x"
  using rand_lower [of x 150 350] rand_lower [of x 100 300] rand_lower [of x 60 200]
    rand_lower [of x 50 180] rand_lower [of x 40 150] rand_lower [of x 50 200]
  by (simp add: jobReward_def Let_def)

lemma random_job:
  assumes "0 \<le> x" "x < 1"
  shows "\<exists>job. nthOpt jobs (rand 0 (int (length jobs) - 1) x) = Some job"
  using rand_lower [of x 0 4] rand_upper [of x 0 4] assms
  by (simp add: nthOpt_def jobs_def)

lemma earning_cases:
  assumes "isEarning cmd"
  obtains "cmd = ''dig''" | "cmd = ''fish''" | "cmd = ''work''" | "cmd = ''daily''"
    | "cmd = ''weekly''"
  using assms by (auto simp add: isEarning_def)

lemma handler_cmd_digfish:
  "cmd = ''dig'' \<or> cmd = ''fish'' \<Longrightarrow>
   handler_cmd isOwnerId clk rnd userId cmd args f =
     cmd_digfish clk rnd userId cmd (snd (ensureUser userId f))"
  by (auto simp add: handler_cmd_def case_prod_unfold)

lemma handler_cmd_work:
  "handler_cmd isOwnerId clk rnd userId ''work'' args f =
     cmd_work clk rnd userId args (snd (ensureUser userId f))"
  by (simp add: handler_cmd_def case_prod_unfold)

lemma handler_cmd_daily:
  "handler_cmd isOwnerId clk rnd userId ''daily'' args f =
     cmd_daily clk rnd userId (snd (ensureUser userId f))"
  by (simp add: handler_cmd_def case_prod_unfold)

lemma handler_cmd_weekly:
  "handler_cmd isOwnerId clk rnd userId ''weekly'' args f =
     cmd_weekly clk rnd userId (snd (ensureUser userId f))"
  by (simp add: handler_cmd_def case_prod_unfold)

lemma earning_declined:
  assumes "isEarning cmd" "lastOf f userId cmd \<noteq> 0"
    and "claimNow clk - lastOf f userId cmd < cooldownOf cmd"
  shows "handler_cmd isOwnerId clk rnd userId cmd args f =
     (Sent (waitReply cmd
        (waitUnits (cooldownOf cmd) (waitNow clk) (lastOf f userId cmd) (waitUnitOf cmd))),
      snd (ensureUser userId f))"
  using assms(1)
proof (cases rule: earning_cases)
  case 1
  then show ?thesis
    using assms(2,3)
    by (simp add: handler_cmd_digfish cmd_digfish_def canClaim_after getCooldown_after
        cooldownOf_def waitUnitOf_def waitReply_def)
next
  case 2
  then show ?thesis
    using assms(2,3)
    by (simp add: handler_cmd_digfish cmd_digfish_def canClaim_after getCooldown_after
        cooldownOf_def waitUnitOf_def waitReply_def)
next
  case 3
  then show ?thesis
    using assms(2,3)
    by (simp add: handler_cmd_work cmd_work_def canClaim_after getCooldown_after
        cooldownOf_def waitUnitOf_def waitReply_def)
next
  case 4
  then show ?thesis
    using assms(2,3)
    by (simp add: handler_cmd_daily cmd_daily_def canClaim_after getCooldown_after
        cooldownOf_def waitUnitOf_def waitReply_def)
next
  case 5
  then show ?thesis
    using assms(2,3)
    by (simp add: handler_cmd_weekly cmd_weekly_def canClaim_after getCooldown_after
        cooldownOf_def waitUnitOf_def waitReply_def)
qed

lemma granted_intro:
  assumes "0 < reward" "out = Sent (grantReply cmd job reward)"
    and "m = (usersOf f)(userId \<mapsto>
        (settled (account f userId) reward th)\<lparr>cooldowns := (cooldowns (account f userId))(cmd \<mapsto> tc)\<rparr>)"
  shows "\<exists>job reward. 0 < reward \<and> out = Sent (grantReply cmd job reward)
    \<and> m = (usersOf f)(userId \<mapsto>
        (settled (account f userId) reward th)\<lparr>cooldowns := (cooldowns (account f userId))(cmd \<mapsto> tc)\<rparr>)"
  using assms by blast

lemma earning_granted:
  assumes "isEarning cmd"
    and "lastOf f userId cmd = 0 \<or> cooldownOf cmd \<le> claimNow clk - lastOf f userId cmd"
    and "\<forall>k. 0 \<le> rnd k \<and> rnd k < 1"
  shows "\<exists>job reward. 0 < reward
    \<and> fst (handler_cmd isOwnerId clk rnd userId cmd args f) = Sent (grantReply cmd job reward)
    \<and> usersOf (snd (handler_cmd isOwnerId clk rnd userId cmd args f)) =
        (usersOf f)(userId \<mapsto>
          (settled (account f userId) reward (historyNow clk))
            \<lparr>cooldowns := (cooldowns (account f userId))(cmd \<mapsto> cooldownNow clk)\<rparr>)"
  using assms(1)
proof (cases rule: earning_cases)
  case 1
  have ok: "fst (canClaim userId cmd (30 * 60 * 1000) (claimNow clk) (snd (ensureUser userId f)))"
    using assms(2) 1 by (auto simp add: canClaim_after cooldownOf_def)
  show ?thesis
  proof (rule granted_intro)
    show "0 < rand 10 60 (rnd 0)" using rand_lower [of "rnd 0" 10 60] assms(3) by simp
    show "fst (handler_cmd isOwnerId clk rnd userId cmd args f) =
        Sent (grantReply cmd [] (rand 10 60 (rnd 0)))"
      using ok 1
      by (simp add: handler_cmd_digfish cmd_digfish_def Let_def case_prod_unfold grantReply_def)
    show "usersOf (snd (handler_cmd isOwnerId clk rnd userId cmd args f)) =
        (usersOf f)(userId \<mapsto>
          (settled (account f userId) (rand 10 60 (rnd 0)) (historyNow clk))
            \<lparr>cooldowns := (cooldowns (account f userId))(cmd \<mapsto> cooldownNow clk)\<rparr>)"
      using ok 1
      by (simp add: handler_cmd_digfish cmd_digfish_def Let_def case_prod_unfold
          canClaim_after earned)
  qed
next
  case 2
  have ok: "fst (canClaim userId cmd (30 * 60 * 1000) (claimNow clk) (snd (ensureUser userId f)))"
    using assms(2) 2 by (auto simp add: canClaim_after cooldownOf_def)
  show ?thesis
  proof (rule granted_intro)
    show "0 < rand 8 50 (rnd 0)" using rand_lower [of "rnd 0" 8 50] assms(3) by simp
    show "fst (handler_cmd isOwnerId clk rnd userId cmd args f) =
        Sent (grantReply cmd [] (rand 8 50 (rnd 0)))"
      using ok 2
      by (simp add: handler_cmd_digfish cmd_digfish_def Let_def case_prod_unfold grantReply_def)
    show "usersOf (snd (handler_cmd isOwnerId clk rnd userId cmd args f)) =
        (usersOf f)(userId \<mapsto>
          (settled (account f userId) (rand 8 50 (rnd 0)) (historyNow clk))
            \<lparr>cooldowns := (cooldowns (account f userId))(cmd \<mapsto> cooldownNow clk)\<rparr>)"
      using ok 2
      by (simp add: handler_cmd_digfish cmd_digfish_def Let_def case_prod_unfold
          canClaim_after earned)
  qed
next
  case 3
  have ok: "fst (canClaim userId ''work'' (60 * 60 * 1000) (claimNow clk) (snd (ensureUser userId f)))"
    using assms(2) 3 by (auto simp add: canClaim_after cooldownOf_def)
  show ?thesis
  proof (cases "argAt args 0 = []")
    case True
    obtain job where job: "nthOpt jobs (rand 0 (int (length jobs) - 1) (rnd 0)) = Some job"
      using random_job [of "rnd 0"] assms(3) by blast
    show ?thesis
    proof (rule granted_intro)
      show "0 < jobReward job (rnd 1)" using jobReward_positive [of "rnd 1"] assms(3) by simp
      show "fst (handler_cmd isOwnerId clk rnd userId cmd args f) =
          Sent (grantReply cmd job (jobReward job (rnd 1)))"
        using ok 3 True job
        by (simp add: handler_cmd_work cmd_work_def Let_def case_prod_unfold grantReply_def)
      show "usersOf (snd (handler_cmd isOwnerId clk rnd userId cmd args f)) =
          (usersOf f)(userId \<mapsto>
            (settled (account f userId) (jobReward job (rnd 1)) (historyNow clk))
              \<lparr>cooldowns := (cooldowns (account f userId))(cmd \<mapsto> cooldownNow clk)\<rparr>)"
        using ok 3 True job
        by (simp add: handler_cmd_work cmd_work_def Let_def case_prod_unfold
            canClaim_after earned)
    qed
  next
    case False
    show ?thesis
    proof (rule granted_intro)
      show "0 < jobReward (argAt args 0) (rnd 0)"
        using jobReward_positive [of "rnd 0"] assms(3) by simp
      show "fst (handler_cmd isOwnerId clk rnd userId cmd args f) =
          Sent (grantReply cmd (argAt args 0) (jobReward (argAt args 0) (rnd 0)))"
        using ok 3 False
        by (simp add: handler_cmd_work cmd_work_def Let_def case_prod_unfold grantReply_def)
      show "usersOf (snd (handler_cmd isOwnerId clk rnd userId cmd args f)) =
          (usersOf f)(userId \<mapsto>
            (settled (account f userId) (jobReward (argAt args 0) (rnd 0)) (historyNow clk))
              \<lparr>cooldowns := (cooldowns (account f userId))(cmd \<mapsto> cooldownNow clk)\<rparr>)"
        using ok 3 False
        by (simp add: handler_cmd_work cmd_work_def Let_def case_prod_unfold
            canClaim_after earned)
    qed
  qed
next
  case 4
  have ok: "fst (canClaim userId ''daily'' MS_DAY (claimNow clk) (snd (ensureUser userId f)))"
    using assms(2) 4 by (auto simp add: canClaim_after cooldownOf_def)
  show ?thesis
  proof (rule granted_intro)
    show "0 < rand 150 400 (rnd 0)" using rand_lower [of "rnd 0" 150 400] assms(3) by simp
    show "fst (handler_cmd isOwnerId clk rnd userId cmd args f) =
        Sent (grantReply cmd [] (rand 150 400 (rnd 0)))"
      using ok 4
      by (simp add: handler_cmd_daily cmd_daily_def Let_def case_prod_unfold grantReply_def)
    show "usersOf (snd (handler_cmd isOwnerId clk rnd userId cmd args f)) =
        (usersOf f)(userId \<mapsto>
          (settled (account f userId) (rand 150 400 (rnd 0)) (historyNow clk))
            \<lparr>cooldowns := (cooldowns (account f userId))(cmd \<mapsto> cooldownNow clk)\<rparr>)"
      using ok 4
      by (simp add: handler_cmd_daily cmd_daily_def Let_def case_prod_unfold
          canClaim_after earned)
  qed
next
  case 5
  have ok: "fst (canClaim userId ''weekly'' MS_WEEK (claimNow clk) (snd (ensureUser userId f)))"
    using assms(2) 5 by (auto simp add: canClaim_after cooldownOf_def)
  show ?thesis
  proof (rule granted_intro)
    show "0 < rand 1000 3000 (rnd 0)" using rand_lower [of "rnd 0" 1000 3000] assms(3) by simp
    show "fst (handler_cmd isOwnerId clk rnd userId cmd args f) =
        Sent (grantReply cmd [] (rand 1000 3000 (rnd 0)))"
      using ok 5
      by (simp add: handler_cmd_weekly cmd_weekly_def Let_def case_prod_unfold grantReply_def)
    show "usersOf (snd (handler_cmd isOwnerId clk rnd userId cmd args f)) =
        (usersOf f)(userId \<mapsto>
          (settled (account f userId) (rand 1000 3000 (rnd 0)) (historyNow clk))
            \<lparr>cooldowns := (cooldowns (account f userId))(cmd \<mapsto> cooldownNow clk)\<rparr>)"
      using ok 5
      by (simp add: handler_cmd_weekly cmd_weekly_def Let_def case_prod_unfold
          canClaim_after earned)
  qed
qed


lemma canClaim_fst:
  "fst (canClaim userId key ms t f) =
     (if lastOf f userId key = 0 then True else ms \<le> t - lastOf f userId key)"
  by (simp add: canClaim_def getCooldown_eq lastOf_def)

lemma unit_facts:
  assumes "isEarning cmd"
  shows "0 < waitUnitOf cmd" "waitUnitOf cmd dvd cooldownOf cmd"
  using assms
  by (auto simp add: isEarning_def waitUnitOf_def cooldownOf_def MS_DAY_def MS_WEEK_def)

lemma waitUnits_nonpositive:
  assumes "P \<le> t - t0" "0 < unit"
  shows "waitUnits P t t0 unit \<le> 0"
proof -
  have "real_of_int (P - (t - t0)) / real_of_int unit \<le> 0"
    using assms by (simp add: divide_le_0_iff)
  then show ?thesis by (simp add: waitUnits_def ceiling_le_iff)
qed

text \<open>
  C5, as the code has it. \<open>canClaim\<close> with a recorded timestamp \<open>t0\<close> other than 0 allows at
  its clock reading \<open>t\<close> exactly when \<open>P \<le> t - t0\<close>; with no timestamp, or the timestamp 0,
  it allows. For each earning command (dig, fish, work, daily, weekly) with its period \<open>P\<close>:
  when \<open>t - t0 < P\<close> at the reading of \<open>canClaim\<close>, the handler sends the wait reply and
  changes nothing. The handler reads the clock a second time for the reply: the reported
  wait is the time remaining at that second reading \<open>t'\<close>, rounded up to whole units
  (minutes, or hours for daily, or days for weekly). It is above 0 exactly when
  \<open>t' - t0 < P\<close>, which holds when the two readings are equal, and it is at most \<open>P\<close> in
  those units when \<open>t'\<close> is no earlier than \<open>t0\<close>. When \<open>P \<le> t - t0\<close>, or the command was
  never claimed, the handler credits a reward above 0 and records the new timestamp (the
  readings of \<open>Math.random()\<close> being in \<open>[0, 1)\<close>).
\<close>

theorem cooldown_gate:
  assumes "isEarning cmd"
  shows "(\<forall>key P t t0. cooldowns (account f userId) key = Some t0 \<and> t0 \<noteq> 0 \<longrightarrow>
            fst (canClaim userId key P t f) = (P \<le> t - t0))
    \<and> (\<forall>key P t. cooldowns (account f userId) key = None
            \<or> cooldowns (account f userId) key = Some 0
            \<longrightarrow> fst (canClaim userId key P t f))
    \<and> (\<forall>t0. cooldowns (account f userId) cmd = Some t0 \<and> t0 \<noteq> 0
            \<and> claimNow clk - t0 < cooldownOf cmd \<longrightarrow>
          handler_cmd isOwnerId clk rnd userId cmd args f =
            (Sent (waitReply cmd
               (waitUnits (cooldownOf cmd) (waitNow clk) t0 (waitUnitOf cmd))),
             snd (ensureUser userId f))
          \<and> account (snd (ensureUser userId f)) userId = account f userId
          \<and> (waitUnits (cooldownOf cmd) (waitNow clk) t0 (waitUnitOf cmd) - 1) * waitUnitOf cmd
              < cooldownOf cmd - (waitNow clk - t0)
          \<and> cooldownOf cmd - (waitNow clk - t0)
              \<le> waitUnits (cooldownOf cmd) (waitNow clk) t0 (waitUnitOf cmd) * waitUnitOf cmd
          \<and> (0 < waitUnits (cooldownOf cmd) (waitNow clk) t0 (waitUnitOf cmd)
                \<longleftrightarrow> waitNow clk - t0 < cooldownOf cmd)
          \<and> (waitNow clk = claimNow clk \<longrightarrow>
                0 < waitUnits (cooldownOf cmd) (waitNow clk) t0 (waitUnitOf cmd))
          \<and> (t0 \<le> waitNow clk \<longrightarrow>
                waitUnits (cooldownOf cmd) (waitNow clk) t0 (waitUnitOf cmd)
                  \<le> cooldownOf cmd div waitUnitOf cmd))
    \<and> ((cooldowns (account f userId) cmd = None
         \<or> cooldowns (account f userId) cmd = Some 0
         \<or> (\<exists>t0. cooldowns (account f userId) cmd = Some t0
               \<and> cooldownOf cmd \<le> claimNow clk - t0))
        \<and> (\<forall>k. 0 \<le> rnd k \<and> rnd k < 1) \<longrightarrow>
          (\<exists>job reward. 0 < reward
            \<and> fst (handler_cmd isOwnerId clk rnd userId cmd args f) =
                Sent (grantReply cmd job reward)
            \<and> usersOf (snd (handler_cmd isOwnerId clk rnd userId cmd args f)) =
                (usersOf f)(userId \<mapsto>
                  (settled (account f userId) reward (historyNow clk))
                    \<lparr>cooldowns := (cooldowns (account f userId))(cmd \<mapsto> cooldownNow clk)\<rparr>)))"
proof (intro conjI allI impI)
  fix key P t t0
  assume "cooldowns (account f userId) key = Some t0 \<and> t0 \<noteq> 0"
  then show "fst (canClaim userId key P t f) = (P \<le> t - t0)"
    by (simp add: canClaim_fst lastOf_def)
next
  fix key P t
  assume "cooldowns (account f userId) key = None \<or> cooldowns (account f userId) key = Some 0"
  then show "fst (canClaim userId key P t f)"
    by (auto simp add: canClaim_fst lastOf_def)
next
  fix t0
  assume h: "cooldowns (account f userId) cmd = Some t0 \<and> t0 \<noteq> 0
    \<and> claimNow clk - t0 < cooldownOf cmd"
  then have l: "lastOf f userId cmd = t0" by (simp add: lastOf_def)
  have n: "lastOf f userId cmd \<noteq> 0" using h l by simp
  have c: "claimNow clk - lastOf f userId cmd < cooldownOf cmd"
    using h l by simp
  have u: "0 < waitUnitOf cmd" by (rule unit_facts(1) [OF assms])
  show "handler_cmd isOwnerId clk rnd userId cmd args f =
            (Sent (waitReply cmd
               (waitUnits (cooldownOf cmd) (waitNow clk) t0 (waitUnitOf cmd))),
             snd (ensureUser userId f))"
    using earning_declined [OF assms n c, of isOwnerId rnd args]
    by (simp add: l)
  show "account (snd (ensureUser userId f)) userId = account f userId"
    by (rule declined_state(1))
  show "(waitUnits (cooldownOf cmd) (waitNow clk) t0 (waitUnitOf cmd) - 1) * waitUnitOf cmd
              < cooldownOf cmd - (waitNow clk - t0)"
    using waitUnits_rounds_up [OF u] by blast
  show "cooldownOf cmd - (waitNow clk - t0)
              \<le> waitUnits (cooldownOf cmd) (waitNow clk) t0 (waitUnitOf cmd) * waitUnitOf cmd"
    using waitUnits_rounds_up [OF u] by blast
  show "0 < waitUnits (cooldownOf cmd) (waitNow clk) t0 (waitUnitOf cmd)
                \<longleftrightarrow> waitNow clk - t0 < cooldownOf cmd"
  proof
    assume p: "0 < waitUnits (cooldownOf cmd) (waitNow clk) t0 (waitUnitOf cmd)"
    show "waitNow clk - t0 < cooldownOf cmd"
    proof (rule ccontr)
      assume "\<not> waitNow clk - t0 < cooldownOf cmd"
      then have "cooldownOf cmd \<le> waitNow clk - t0" by simp
      then have "waitUnits (cooldownOf cmd) (waitNow clk) t0 (waitUnitOf cmd) \<le> 0"
        using u by (rule waitUnits_nonpositive)
      then show False using p by simp
    qed
  next
    assume "waitNow clk - t0 < cooldownOf cmd"
    then show "0 < waitUnits (cooldownOf cmd) (waitNow clk) t0 (waitUnitOf cmd)"
      using u by (rule waitUnits_positive)
  qed
  show "0 < waitUnits (cooldownOf cmd) (waitNow clk) t0 (waitUnitOf cmd)"
    if "waitNow clk = claimNow clk"
    using that h u by (intro waitUnits_positive) simp_all
  show "waitUnits (cooldownOf cmd) (waitNow clk) t0 (waitUnitOf cmd)
      \<le> cooldownOf cmd div waitUnitOf cmd"
    if "t0 \<le> waitNow clk"
    using that unit_facts [OF assms] by (intro waitUnits_upper)
next
  assume h: "(cooldowns (account f userId) cmd = None
         \<or> cooldowns (account f userId) cmd = Some 0
         \<or> (\<exists>t0. cooldowns (account f userId) cmd = Some t0
               \<and> cooldownOf cmd \<le> claimNow clk - t0))
        \<and> (\<forall>k. 0 \<le> rnd k \<and> rnd k < 1)"
  then have g: "lastOf f userId cmd = 0 \<or> cooldownOf cmd \<le> claimNow clk - lastOf f userId cmd"
    by (auto simp add: lastOf_def)
  have r: "\<forall>k. 0 \<le> rnd k \<and> rnd k < 1" using h by blast
  show "\<exists>job reward. 0 < reward
            \<and> fst (handler_cmd isOwnerId clk rnd userId cmd args f) =
                Sent (grantReply cmd job reward)
            \<and> usersOf (snd (handler_cmd isOwnerId clk rnd userId cmd args f)) =
                (usersOf f)(userId \<mapsto>
                  (settled (account f userId) reward (historyNow clk))
                    \<lparr>cooldowns := (cooldowns (account f userId))(cmd \<mapsto> cooldownNow clk)\<rparr>)"
    by (rule earning_granted [OF assms g r])
qed

text \<open>
  C5 as stated fails: with \<open>dig\<close> recorded at 1000 and the period of 1800000, \<open>canClaim\<close>
  reads the clock at 1800999 and declines; the handler then reads 1801000 and reports a
  wait of 0 minutes, and with a later second reading a wait of \<open>- 1\<close>.
\<close>

theorem cooldown_wait_counterexample:
  "handler (\<lambda>_. False)
      \<lparr>claimNow = 1800999, waitNow = 1801000, historyNow = 1801000, cooldownNow = 1801000\<rparr>
      (\<lambda>_. 1 / 2) ''.dig'' ''u''
      (Stored \<lparr>users = [''u'' \<mapsto> \<lparr>gold = 0, cooldowns = [''dig'' \<mapsto> 1000], history = []\<rparr>]\<rparr>)
    = (Sent (TryAgainIn 0),
       Stored \<lparr>users = [''u'' \<mapsto> \<lparr>gold = 0, cooldowns = [''dig'' \<mapsto> 1000], history = []\<rparr>]\<rparr>)
   \<and> (1800999::int) - 1000 < cooldownOf ''dig''
   \<and> \<not> (0::int) < 0
   \<and> handler (\<lambda>_. False)
      \<lparr>claimNow = 1800999, waitNow = 1861000, historyNow = 1861000, cooldownNow = 1861000\<rparr>
      (\<lambda>_. 1 / 2) ''.dig'' ''u''
      (Stored \<lparr>users = [''u'' \<mapsto> \<lparr>gold = 0, cooldowns = [''dig'' \<mapsto> 1000], history = []\<rparr>]\<rparr>)
    = (Sent (TryAgainIn (- 1)),
       Stored \<lparr>users = [''u'' \<mapsto> \<lparr>gold = 0, cooldowns = [''dig'' \<mapsto> 1000], history = []\<rparr>]\<rparr>)"
  by (simp add: handler_def handler_cmd_def cmd_digfish_def store_eval text_eval waitUnits_def
      cooldownOf_def ceiling_eq_iff)

theorem cooldown_gate_witness:
  "isEarning ''daily''
   \<and> cooldownOf ''daily'' = 86400000
   \<and> cooldowns (account (Stored \<lparr>users = [''u'' \<mapsto> \<lparr>gold = 0, cooldowns = [''daily'' \<mapsto> 1000], history = []\<rparr>]\<rparr>) ''u'') ''daily'' = Some 1000
   \<and> fst (canClaim ''u'' ''daily'' 86400000 86400999 (Stored \<lparr>users = [''u'' \<mapsto> \<lparr>gold = 0, cooldowns = [''daily'' \<mapsto> 1000], history = []\<rparr>]\<rparr>)) = False
   \<and> fst (canClaim ''u'' ''daily'' 86400000 86401000 (Stored \<lparr>users = [''u'' \<mapsto> \<lparr>gold = 0, cooldowns = [''daily'' \<mapsto> 1000], history = []\<rparr>]\<rparr>)) = True
   \<and> cooldowns (account (Stored \<lparr>users = [''u'' \<mapsto> \<lparr>gold = 0, cooldowns = [''daily'' \<mapsto> 1000], history = []\<rparr>]\<rparr>) ''u'') ''dig'' = None
   \<and> fst (canClaim ''u'' ''dig'' 1800000 86400999 (Stored \<lparr>users = [''u'' \<mapsto> \<lparr>gold = 0, cooldowns = [''daily'' \<mapsto> 1000], history = []\<rparr>]\<rparr>)) = True
   \<and> handler_cmd (\<lambda>_. False) \<lparr>claimNow = 86400999, waitNow = 86400999, historyNow = 86400999, cooldownNow = 86400999\<rparr> (\<lambda>_. 1 / 2) ''u'' ''daily'' [] (Stored \<lparr>users = [''u'' \<mapsto> \<lparr>gold = 0, cooldowns = [''daily'' \<mapsto> 1000], history = []\<rparr>]\<rparr>) = (Sent (DailyWait 1), (Stored \<lparr>users = [''u'' \<mapsto> \<lparr>gold = 0, cooldowns = [''daily'' \<mapsto> 1000], history = []\<rparr>]\<rparr>))
   \<and> waitUnits (cooldownOf ''daily'') 86400999 1000 (waitUnitOf ''daily'') = 1
   \<and> 0 < waitUnits (cooldownOf ''daily'') (waitNow \<lparr>claimNow = 86400999, waitNow = 86400999, historyNow = 86400999, cooldownNow = 86400999\<rparr>) 1000 (waitUnitOf ''daily'')
   \<and> waitUnits (cooldownOf ''daily'') (waitNow \<lparr>claimNow = 86400999, waitNow = 86400999, historyNow = 86400999, cooldownNow = 86400999\<rparr>) 1000 (waitUnitOf ''daily'')
       \<le> cooldownOf ''daily'' div waitUnitOf ''daily''
   \<and> cooldownOf ''daily'' div waitUnitOf ''daily'' = 24
   \<and> (\<exists>job reward. 0 < reward
        \<and> fst (handler_cmd (\<lambda>_. False) \<lparr>claimNow = 86401000, waitNow = 86401000, historyNow = 86401000, cooldownNow = 86401000\<rparr> (\<lambda>_. 1 / 2) ''u'' ''daily'' [] (Stored \<lparr>users = [''u'' \<mapsto> \<lparr>gold = 0, cooldowns = [''daily'' \<mapsto> 1000], history = []\<rparr>]\<rparr>)) = Sent (grantReply ''daily'' job reward)
        \<and> usersOf (snd (handler_cmd (\<lambda>_. False) \<lparr>claimNow = 86401000, waitNow = 86401000, historyNow = 86401000, cooldownNow = 86401000\<rparr> (\<lambda>_. 1 / 2) ''u'' ''daily'' [] (Stored \<lparr>users = [''u'' \<mapsto> \<lparr>gold = 0, cooldowns = [''daily'' \<mapsto> 1000], history = []\<rparr>]\<rparr>))) =
            (usersOf (Stored \<lparr>users = [''u'' \<mapsto> \<lparr>gold = 0, cooldowns = [''daily'' \<mapsto> 1000], history = []\<rparr>]\<rparr>))(''u'' \<mapsto>
              (settled (account (Stored \<lparr>users = [''u'' \<mapsto> \<lparr>gold = 0, cooldowns = [''daily'' \<mapsto> 1000], history = []\<rparr>]\<rparr>) ''u'') reward (historyNow \<lparr>claimNow = 86401000, waitNow = 86401000, historyNow = 86401000, cooldownNow = 86401000\<rparr>))
                \<lparr>cooldowns := (cooldowns (account (Stored \<lparr>users = [''u'' \<mapsto> \<lparr>gold = 0, cooldowns = [''daily'' \<mapsto> 1000], history = []\<rparr>]\<rparr>) ''u''))(''daily'' \<mapsto> cooldownNow \<lparr>claimNow = 86401000, waitNow = 86401000, historyNow = 86401000, cooldownNow = 86401000\<rparr>)\<rparr>))
   \<and> handler_cmd (\<lambda>_. False) \<lparr>claimNow = 86401000, waitNow = 86401000, historyNow = 86401000, cooldownNow = 86401000\<rparr> (\<lambda>_. 1 / 2) ''u'' ''daily'' [] (Stored \<lparr>users = [''u'' \<mapsto> \<lparr>gold = 0, cooldowns = [''daily'' \<mapsto> 1000], history = []\<rparr>]\<rparr>) =
       (Sent (DailyBonus 275),
        Stored \<lparr>users = [''u'' \<mapsto> \<lparr>gold = 275, cooldowns = [''daily'' \<mapsto> 86401000],
          history = [\<lparr>time = 86401000, change = 275\<rparr>]\<rparr>]\<rparr>)"
proof -
  let ?f = "(Stored \<lparr>users = [''u'' \<mapsto> \<lparr>gold = 0, cooldowns = [''daily'' \<mapsto> 1000], history = []\<rparr>]\<rparr>)"
  let ?A = "\<lparr>claimNow = 86400999, waitNow = 86400999, historyNow = 86400999, cooldownNow = 86400999\<rparr>"
  let ?B = "\<lparr>claimNow = 86401000, waitNow = 86401000, historyNow = 86401000, cooldownNow = 86401000\<rparr>"
  have e: "isEarning ''daily''" by (simp add: isEarning_def)
  have p: "cooldownOf ''daily'' = 86400000" by (simp add: cooldownOf_def MS_DAY_def)
  have u: "waitUnitOf ''daily'' = 3600000" by (simp add: waitUnitOf_def)
  have c: "cooldowns (account ?f ''u'') ''daily'' = Some 1000"
    and d: "cooldowns (account ?f ''u'') ''dig'' = None"
    by (simp_all add: store_eval)
  have x: "usersOf ?f ''u'' \<noteq> None" by (simp add: usersOf_simps)
  note tA = cooldown_gate [OF e, of ?f "''u''" ?A "\<lambda>_. False" "\<lambda>_. 1 / 2" "[]"]
  note tB = cooldown_gate [OF e, of ?f "''u''" ?B "\<lambda>_. False" "\<lambda>_. 1 / 2" "[]"]
  have n0: "cooldowns (account ?f ''u'') ''daily'' = Some 1000 \<and> (1000::int) \<noteq> 0"
    using c by simp
  have hA: "cooldowns (account ?f ''u'') ''daily'' = Some 1000 \<and> (1000::int) \<noteq> 0
      \<and> claimNow ?A - 1000 < cooldownOf ''daily''"
    using c p by simp
  have hB: "(cooldowns (account ?f ''u'') ''daily'' = None
         \<or> cooldowns (account ?f ''u'') ''daily'' = Some 0
         \<or> (\<exists>t0. cooldowns (account ?f ''u'') ''daily'' = Some t0
               \<and> cooldownOf ''daily'' \<le> claimNow ?B - t0))
        \<and> (\<forall>k. 0 \<le> (\<lambda>_. 1 / 2 :: real) (k::nat) \<and> (\<lambda>_. 1 / 2 :: real) k < 1)"
    using c p by simp
  have k1: "fst (canClaim ''u'' ''daily'' 86400000 86400999 ?f) = ((86400000::int) \<le> 86400999 - 1000)"
    using tA n0 by blast
  have k2: "fst (canClaim ''u'' ''daily'' 86400000 86401000 ?f) = ((86400000::int) \<le> 86401000 - 1000)"
    using tA n0 by blast
  have k3: "fst (canClaim ''u'' ''dig'' 1800000 86400999 ?f)"
    using tA d by blast
  have w: "waitUnits (cooldownOf ''daily'') 86400999 1000 (waitUnitOf ''daily'') = 1"
    by (simp add: p u waitUnits_def ceiling_eq_iff)
  have dA: "handler_cmd (\<lambda>_. False) ?A (\<lambda>_. 1 / 2) ''u'' ''daily'' [] ?f =
      (Sent (waitReply ''daily'' (waitUnits (cooldownOf ''daily'') (waitNow ?A) 1000 (waitUnitOf ''daily''))),
       snd (ensureUser ''u'' ?f))"
    using tA hA by blast
  have eqA: "waitNow ?A = claimNow ?A" and leA: "(1000::int) \<le> waitNow ?A" by simp_all
  have posA: "0 < waitUnits (cooldownOf ''daily'') (waitNow ?A) 1000 (waitUnitOf ''daily'')"
    using tA hA eqA by blast
  have upA: "waitUnits (cooldownOf ''daily'') (waitNow ?A) 1000 (waitUnitOf ''daily'')
       \<le> cooldownOf ''daily'' div waitUnitOf ''daily''"
    using tA hA leA by blast
  have s: "snd (ensureUser ''u'' ?f) = ?f" using x by (rule ensureUser_existing)
  have dA': "handler_cmd (\<lambda>_. False) ?A (\<lambda>_. 1 / 2) ''u'' ''daily'' [] ?f = (Sent (DailyWait 1), ?f)"
    using dA w by (simp add: s waitReply_def)
  have q: "cooldownOf ''daily'' div waitUnitOf ''daily'' = 24" by (simp add: p u)
  have gB: "(\<exists>job reward. 0 < reward
        \<and> fst (handler_cmd (\<lambda>_. False) ?B (\<lambda>_. 1 / 2) ''u'' ''daily'' [] ?f) = Sent (grantReply ''daily'' job reward)
        \<and> usersOf (snd (handler_cmd (\<lambda>_. False) ?B (\<lambda>_. 1 / 2) ''u'' ''daily'' [] ?f)) =
            (usersOf ?f)(''u'' \<mapsto>
              (settled (account ?f ''u'') reward (historyNow ?B))
                \<lparr>cooldowns := (cooldowns (account ?f ''u''))(''daily'' \<mapsto> cooldownNow ?B)\<rparr>))"
    using tB hB by blast
  have vB: "handler_cmd (\<lambda>_. False) ?B (\<lambda>_. 1 / 2) ''u'' ''daily'' [] ?f =
       (Sent (DailyBonus 275),
        Stored \<lparr>users = [''u'' \<mapsto> \<lparr>gold = 275, cooldowns = [''daily'' \<mapsto> 86401000],
          history = [\<lparr>time = 86401000, change = 275\<rparr>]\<rparr>]\<rparr>)"
    by (simp add: handler_cmd_def cmd_daily_def store_eval rand_def MS_DAY_def)
  show ?thesis
    using e p c d k1 k2 k3 dA' w posA upA q gB vB by simp
qed


subsection \<open>Calls that run at the same time\<close>

text \<open>Each wager command is its funds test followed, for a bet that passed, by its settling.\<close>

lemma cmd_spin_segments:
  "cmd_spin clk rnd userId args f =
     (let (chk, f1) = stakeAndCheck userId (parseBet (argAt args 0)) f
      in case chk of Inl msg \<Rightarrow> (Sent msg, f1)
         | Inr bal \<Rightarrow> spin_settle clk rnd userId (parseBet (argAt args 0)) f1)"
  by (simp add: cmd_spin_def spin_settle_def Let_def split: prod.splits sum.splits)

lemma cmd_slots_segments:
  "cmd_slots clk rnd userId args f =
     (let (chk, f1) = stakeAndCheck userId (parseBet (argAt args 0)) f
      in case chk of Inl msg \<Rightarrow> (Sent msg, f1)
         | Inr bal \<Rightarrow> slots_settle clk rnd userId (parseBet (argAt args 0)) f1)"
  by (simp add: cmd_slots_def slots_settle_def Let_def split: prod.splits sum.splits)

lemma cmd_roulette_segments:
  "cmd_roulette clk rnd userId args f =
     (let (chk, f1) = stakeAndCheck userId (parseBet (argAt args 0)) f
      in case chk of Inl msg \<Rightarrow> (Sent msg, f1)
         | Inr bal \<Rightarrow> roulette_settle clk rnd userId (parseBet (argAt args 0))
             (toLowerCase (argAt args 1)) f1)"
  by (simp add: cmd_roulette_def roulette_settle_def Let_def split: prod.splits sum.splits)

lemma cmd_casino_segments:
  "cmd_casino clk rnd userId args f =
     (let (chk, f1) = stakeAndCheck userId (parseBet (argAt args 0)) f
      in case chk of Inl msg \<Rightarrow> (Sent msg, f1)
         | Inr bal \<Rightarrow> casino_settle clk rnd userId (parseBet (argAt args 0)) f1)"
  by (simp add: cmd_casino_def casino_settle_def Let_def split: prod.splits sum.splits)

lemma wager_segments:
  assumes "isWager cmd"
  shows "handler_cmd isOwnerId clk rnd userId cmd args f =
     (let (chk, f2) = stakeAndCheck userId (parseBet (argAt args 0)) (snd (ensureUser userId f))
      in case chk of Inl msg \<Rightarrow> (Sent msg, f2)
         | Inr bal \<Rightarrow>
             settle userId \<lparr>callCmd = cmd, callArgs = args, callClock = clk, callRandom = rnd\<rparr> f2)"
proof -
  from assms consider "cmd = ''spin''" | "cmd = ''slots''" | "cmd = ''roulette''"
    | "cmd = ''casino''"
    by (auto simp add: isWager_def)
  then show ?thesis
  proof cases
    case 1 then show ?thesis
      by (simp add: handler_cmd_spin cmd_spin_segments settle_def Let_def
          split: prod.splits sum.splits)
  next
    case 2 then show ?thesis
      by (simp add: handler_cmd_slots cmd_slots_segments settle_def Let_def
          split: prod.splits sum.splits)
  next
    case 3 then show ?thesis
      by (simp add: handler_cmd_roulette cmd_roulette_segments settle_def Let_def
          split: prod.splits sum.splits)
  next
    case 4 then show ?thesis
      by (simp add: handler_cmd_casino cmd_casino_segments settle_def Let_def
          split: prod.splits sum.splits)
  qed
qed

lemma exec_alone:
  assumes "isWager (callCmd c)"
  shows "exec userId [c] [0, 0, 0] ([Called], f) =
     ([Returned (fst (handler_cmd isOwnerId (callClock c) (callRandom c) userId (callCmd c)
          (callArgs c) f))],
      snd (handler_cmd isOwnerId (callClock c) (callRandom c) userId (callCmd c) (callArgs c) f))"
proof -
  have c: "\<lparr>callCmd = callCmd c, callArgs = callArgs c, callClock = callClock c,
      callRandom = callRandom c\<rparr> = c"
    by simp
  show ?thesis
    unfolding wager_segments [OF assms] c
    by (simp add: case_prod_unfold Let_def split: sum.splits)
qed

text \<open>A losing call with funds for its bet debits the bet, whatever the file holds besides.\<close>

lemma settle_losing:
  assumes "losing c"
  shows "snd (settle userId c f) =
      snd (remove userId (parseBet (argAt (callArgs c) 0)) (historyNow (callClock c)) f)"
    and "\<not> isDecline (fst (settle userId c f))"
proof -
  from assms consider "callCmd c = ''spin''" | "callCmd c = ''slots''"
    | "callCmd c = ''roulette''" | "callCmd c = ''casino''"
    by (auto simp add: losing_def Let_def split: if_splits)
  then have "snd (settle userId c f) =
      snd (remove userId (parseBet (argAt (callArgs c) 0)) (historyNow (callClock c)) f)
    \<and> \<not> isDecline (fst (settle userId c f))"
  proof cases
    case 1
    then have "callRandom c 0 * 100 < 50" using assms by (simp add: losing_def)
    then show ?thesis
      using 1 by (simp add: settle_def spin_settle_def case_prod_unfold isDecline_def Let_def)
  next
    case 2
    define x where "x = nthOpt symbols (rand 0 (int (length symbols) - 1) (callRandom c 0))"
    define y where "y = nthOpt symbols (rand 0 (int (length symbols) - 1) (callRandom c 1))"
    define z where "z = nthOpt symbols (rand 0 (int (length symbols) - 1) (callRandom c 2))"
    have l: "\<not> (x = y \<and> y = z)" "\<not> (x = y \<or> y = z \<or> x = z)"
      using assms 2 by (simp_all add: losing_def Let_def x_def y_def z_def)
    have "slots_settle (callClock c) (callRandom c) userId (parseBet (argAt (callArgs c) 0)) f =
        (Sent (Slots x y z (NoWin (parseBet (argAt (callArgs c) 0)))),
         snd (remove userId (parseBet (argAt (callArgs c) 0)) (historyNow (callClock c)) f))"
      unfolding slots_settle_def Let_def x_def [symmetric] y_def [symmetric] z_def [symmetric]
      using l by (simp add: case_prod_unfold)
    then show ?thesis
      using 2 by (simp add: settle_def isDecline_def Let_def)
  next
    case 3
    define w where "w = rand 0 36 (callRandom c 0)"
    define pick where "pick = toLowerCase (argAt (callArgs c) 1)"
    have l: "pick = [] \<or> (list_all isDigit pick \<and> parseInt10 pick \<noteq> Some w)
        \<or> (\<not> list_all isDigit pick \<and> pick \<noteq> wheelColor w)"
      using assms 3 by (simp add: losing_def Let_def w_def pick_def)
    have "snd (roulette_settle (callClock c) (callRandom c) userId
          (parseBet (argAt (callArgs c) 0)) pick f) =
        snd (remove userId (parseBet (argAt (callArgs c) 0)) (historyNow (callClock c)) f)
      \<and> \<not> isDecline (fst (roulette_settle (callClock c) (callRandom c) userId
          (parseBet (argAt (callArgs c) 0)) pick f))"
      unfolding roulette_settle_def Let_def w_def [symmetric]
      using l by (auto simp add: case_prod_unfold isDecline_def)
    then show ?thesis
      using 3 by (simp add: settle_def pick_def Let_def)
  next
    case 4
    then have "callRandom c 0 * 100 < 45" using assms by (simp add: losing_def)
    then show ?thesis
      using 4 by (simp add: settle_def casino_settle_def case_prod_unfold isDecline_def Let_def)
  qed
  then show "snd (settle userId c f) =
      snd (remove userId (parseBet (argAt (callArgs c) 0)) (historyNow (callClock c)) f)"
    and "\<not> isDecline (fst (settle userId c f))"
    by simp_all
qed

lemma returnedCount_same:
  "i < length xs \<Longrightarrow> isReturned y = isReturned (xs ! i) \<Longrightarrow>
   returnedCount (xs[i := y]) = returnedCount xs"
proof (induction xs arbitrary: i)
  case Nil
  then show ?case by simp
next
  case (Cons x xs)
  then show ?case by (cases i) (simp_all add: returnedCount_def)
qed

lemma returnedCount_new:
  "i < length xs \<Longrightarrow> \<not> isReturned (xs ! i) \<Longrightarrow> isReturned y \<Longrightarrow>
   returnedCount (xs[i := y]) = Suc (returnedCount xs)"
proof (induction xs arbitrary: i)
  case Nil
  then show ?case by simp
next
  case (Cons x xs)
  then show ?case by (cases i) (simp_all add: returnedCount_def)
qed

lemma returnedCount_less:
  assumes "i < length xs" "\<not> isReturned (xs ! i)"
  shows "returnedCount xs < length xs"
  unfolding returnedCount_def
  using assms by (intro length_filter_less [of "xs ! i"]) simp_all

lemma funds_left:
  assumes "int n * b \<le> B" "0 < b" "k < n"
  shows "b \<le> B - b * int k"
proof -
  have "int (Suc k) \<le> int n" using assms(3) by simp
  then have "b * int (Suc k) \<le> b * int n"
    using assms(2) by (intro mult_left_mono) simp_all
  then have "b * int k + b \<le> B"
    using assms(1) by (simp add: algebra_simps)
  then show ?thesis by simp
qed

lemma list_all_update:
  "list_all P xs \<Longrightarrow> P y \<Longrightarrow> list_all P (xs[i := y])"
  by (auto simp add: list_all_iff dest: set_update_subset_insert [THEN subsetD])

text \<open>One piece of one call keeps the invariant of the schedule.\<close>

lemma stepAt_inv:
  assumes calls: "\<forall>c \<in> set calls. losing c \<and> parseBet (argAt (callArgs c) 0) = b"
    and b: "0 < b"
    and funds: "int (length calls) * b \<le> gold (account f0 userId)"
    and inv: "scheduleInv userId b f0 (length calls) sf"
  shows "scheduleInv userId b f0 (length calls) (stepAt userId calls i sf)"
proof -
  obtain stages f where sf: "sf = (stages, f)" by (cases sf)
  have len: "length stages = length calls"
    and gold: "gold (account f userId) =
        gold (account f0 userId) - b * int (returnedCount stages)"
    and hist: "map change (history (account f userId)) =
        map change (history (account f0 userId)) @ replicate (returnedCount stages) (- b)"
    and pass: "list_all passed stages"
    using inv by (simp_all add: scheduleInv_def sf)
  show ?thesis
  proof (cases "i < length calls")
    case False
    then show ?thesis using inv by (simp add: sf)
  next
    case True
    then have i: "i < length stages" using len by simp
    have c: "losing (calls ! i)" "parseBet (argAt (callArgs (calls ! i)) 0) = b"
      using calls True by simp_all
    have enough: "b \<le> gold (account f userId)" if "\<not> isReturned (stages ! i)"
      unfolding gold
      using funds b returnedCount_less [OF i that] len by (intro funds_left) simp_all
    show ?thesis
    proof (cases "stages ! i")
      case Called
      have r: "returnedCount (stages[i := Ensured]) = returnedCount stages"
        using i Called by (intro returnedCount_same) (simp_all add: isReturned_def)
      have p: "list_all passed (stages[i := Ensured])"
        using pass by (rule list_all_update) (simp add: passed_def)
      show ?thesis
        using True i Called len gold hist p
        by (simp add: sf scheduleInv_def r account_ensureUser)
    next
      case Ensured
      have n: "\<not> isReturned (stages ! i)" using Ensured by (simp add: isReturned_def)
      have e: "b \<le> gold (account f userId)" by (rule enough [OF n])
      define G where "G = gold (account f userId)"
      have s: "stakeAndCheck userId b f = (Inr G, ensureDbFile f)"
        using b e by (simp add: stakeAndCheck_eq G_def)
      have st: "stepAt userId calls i sf = (stages[i := Checked (Inr G)], ensureDbFile f)"
        using True i Ensured by (simp add: sf c(2) s)
      have r: "returnedCount (stages[i := Checked (Inr G)]) = returnedCount stages"
        using i Ensured by (intro returnedCount_same) (simp_all add: isReturned_def)
      have p: "list_all passed (stages[i := Checked (Inr G)])"
        using pass by (rule list_all_update) (simp add: passed_def)
      show ?thesis
        unfolding st scheduleInv_def
        using len p gold hist
        by (simp add: r account_ensureDbFile)
    next
      case (Checked chk)
      have n: "\<not> isReturned (stages ! i)" using Checked by (simp add: isReturned_def)
      have e: "b \<le> gold (account f userId)" by (rule enough [OF n])
      have "passed (stages ! i)" using pass i by (simp add: list_all_length)
      then obtain bal where chk: "chk = Inr bal"
        using Checked by (cases chk) (simp_all add: passed_def)
      define out where "out = fst (settle userId (calls ! i) f)"
      define t where "t = historyNow (callClock (calls ! i))"
      have f2: "snd (settle userId (calls ! i) f) = snd (remove userId b t f)"
        using settle_losing(1) [OF c(1)] by (simp add: c(2) t_def)
      have nd: "\<not> isDecline out"
        unfolding out_def by (rule settle_losing(2) [OF c(1)])
      have st: "stepAt userId calls i sf =
          (stages[i := Returned out], snd (remove userId b t f))"
        using True i Checked chk f2
        by (simp add: sf out_def case_prod_unfold)
      have r: "returnedCount (stages[i := Returned out]) = Suc (returnedCount stages)"
        using i n by (intro returnedCount_new) (simp_all add: isReturned_def)
      have p: "list_all passed (stages[i := Returned out])"
        using pass by (rule list_all_update) (simp add: passed_def nd)
      have g': "gold (account (snd (remove userId b t f)) userId) =
          gold (account f userId) - b"
        using e by (simp add: remove_eq account_Stored_upd)
      have h': "map change (history (account (snd (remove userId b t f)) userId)) =
          map change (history (account f userId)) @ [- b]"
        by (simp add: remove_eq account_Stored_upd)
      have g'': "gold (account f userId) - b =
          gold (account f0 userId) - b * int (Suc (returnedCount stages))"
        unfolding gold by (simp add: algebra_simps)
      show ?thesis
        unfolding st scheduleInv_def
        using len p g' g'' h' hist
        by (simp add: r replicate_append_same)
    next
      case (Returned out)
      then have "stages[i := Returned out] = stages"
        using i by (metis list_update_id)
      then show ?thesis
        using True i Returned inv by (simp add: sf)
    qed
  qed
qed

lemma exec_inv:
  assumes calls: "\<forall>c \<in> set calls. losing c \<and> parseBet (argAt (callArgs c) 0) = b"
    and b: "0 < b"
    and funds: "int (length calls) * b \<le> gold (account f0 userId)"
  shows "scheduleInv userId b f0 (length calls) sf \<Longrightarrow>
    scheduleInv userId b f0 (length calls) (exec userId calls sched sf)"
proof (induction sched arbitrary: sf)
  case Nil
  then show ?case by simp
next
  case (Cons i sched)
  have "scheduleInv userId b f0 (length calls) (stepAt userId calls i sf)"
    using calls b funds Cons.prems by (rule stepAt_inv)
  then show ?case using Cons.IH by simp
qed

lemma scheduleInv_start:
  "scheduleInv userId b f (length calls) (replicate (length calls) Called, f)"
  by (simp add: scheduleInv_def returnedCount_def isReturned_def passed_def list_all_iff)

text \<open>A call that was scheduled three times has returned.\<close>

lemma advance_rank: "rank (fst (advance userId c s f)) = min 3 (Suc (rank s))"
  by (cases s) (simp_all add: rank_def case_prod_unfold Let_def split: sum.splits)

lemma stepAt_length: "length (fst (stepAt userId calls i sf)) = length (fst sf)"
  by (cases sf) (simp add: case_prod_unfold Let_def)

lemma exec_length: "length (fst (exec userId calls sched sf)) = length (fst sf)"
  by (induction sched arbitrary: sf) (simp_all add: stepAt_length)

lemma stepAt_rank:
  assumes "length (fst sf) = length calls" "j < length calls"
  shows "rank (fst (stepAt userId calls i sf) ! j) =
     (if i = j then min 3 (Suc (rank (fst sf ! j))) else rank (fst sf ! j))"
  using assms by (cases sf) (simp add: case_prod_unfold Let_def advance_rank)

lemma exec_rank:
  "length (fst sf) = length calls \<Longrightarrow> j < length calls \<Longrightarrow>
   length (fst (exec userId calls sched sf)) = length calls
   \<and> rank (fst (exec userId calls sched sf) ! j) = min 3 (rank (fst sf ! j) + count_list sched j)"
proof (induction sched arbitrary: sf)
  case Nil
  have "rank (fst sf ! j) \<le> 3" by (simp add: rank_def split: stage.splits)
  then show ?case using Nil by simp
next
  case (Cons i sched)
  have l: "length (fst (stepAt userId calls i sf)) = length calls"
    using Cons.prems(1) by (simp add: stepAt_length)
  note ih = Cons.IH [OF l Cons.prems(2)]
  show ?case
    using ih stepAt_rank [OF Cons.prems, of userId i]
    by (auto simp add: min_def)
qed

lemma rank_returned: "isReturned s \<longleftrightarrow> rank s = 3"
  by (simp add: isReturned_def rank_def split: stage.splits)

lemma fair_returns:
  assumes "\<forall>j < length calls. 3 \<le> count_list sched j"
  shows "list_all isReturned (fst (exec userId calls sched (replicate (length calls) Called, f)))"
proof -
  let ?r = "fst (exec userId calls sched (replicate (length calls) Called, f))"
  have l: "length (fst (replicate (length calls) Called, f)) = length calls" by simp
  have n: "length ?r = length calls" by (simp add: exec_length)
  have "rank (?r ! j) = 3" if j: "j < length calls" for j
  proof -
    have "rank (?r ! j) =
        min 3 (rank (fst (replicate (length calls) Called, f) ! j) + count_list sched j)"
      using exec_rank [OF l j, of userId sched] by blast
    moreover have "3 \<le> count_list sched j" using assms j by blast
    ultimately show ?thesis by simp
  qed
  then show ?thesis
    using n by (simp add: list_all_length rank_returned)
qed

lemma all_returned: "list_all isReturned xs \<Longrightarrow> returnedCount xs = length xs"
  by (simp add: returnedCount_def list_all_iff)

lemma losing_isWager: "losing c \<Longrightarrow> isWager (callCmd c)"
  by (auto simp add: losing_def isWager_def Let_def split: if_splits)

text \<open>Every piece changes the file as whole store calls do.\<close>

lemma run_append: "run (xs @ ys) f = run ys (run xs f)"
  by (induction xs arbitrary: f) simp_all

lemma store_add:
  "\<exists>x. isStoreCall userId x \<and> snd (out, snd (add userId d t f)) = step x f"
proof -
  have "isStoreCall userId (Add userId d t)
      \<and> snd (out, snd (add userId d t f)) = step (Add userId d t) f"
    by (simp add: isStoreCall_def)
  then show ?thesis by blast
qed

lemma store_remove:
  "\<exists>x. isStoreCall userId x \<and> snd (out, snd (remove userId d t f)) = step x f"
proof -
  have "isStoreCall userId (Remove userId d t)
      \<and> snd (out, snd (remove userId d t f)) = step (Remove userId d t) f"
    by (simp add: isStoreCall_def)
  then show ?thesis by blast
qed

lemma store_if:
  "\<exists>x. isStoreCall userId x \<and> snd a = step x f \<Longrightarrow>
   \<exists>x. isStoreCall userId x \<and> snd b = step x f \<Longrightarrow>
   \<exists>x. isStoreCall userId x \<and> snd (if c then a else b) = step x f"
  by simp

lemma spin_settle_store:
  "\<exists>x. isStoreCall userId x \<and> snd (spin_settle clk rnd userId bet f) = step x f"
  unfolding spin_settle_def Let_def case_prod_unfold
  by (intro store_if store_add store_remove)

lemma casino_settle_store:
  "\<exists>x. isStoreCall userId x \<and> snd (casino_settle clk rnd userId bet f) = step x f"
  unfolding casino_settle_def Let_def case_prod_unfold
  by (intro store_if store_add store_remove)

lemma slots_settle_store:
  "\<exists>x. isStoreCall userId x \<and> snd (slots_settle clk rnd userId bet f) = step x f"
  unfolding slots_settle_def Let_def case_prod_unfold
  by (intro store_if store_add store_remove)

lemma roulette_settle_store:
  "\<exists>x. isStoreCall userId x \<and> snd (roulette_settle clk rnd userId bet pick f) = step x f"
  unfolding roulette_settle_def Let_def case_prod_unfold
  by (intro store_if store_add store_remove)

lemma settle_store: "\<exists>x. isStoreCall userId x \<and> snd (settle userId c f) = step x f"
  unfolding settle_def Let_def
  by (intro store_if spin_settle_store slots_settle_store roulette_settle_store
      casino_settle_store)

lemma advance_store:
  "\<exists>xs. list_all (isStoreCall userId) xs \<and> snd (advance userId c s f) = run xs f"
proof (cases s)
  case Called
  have "list_all (isStoreCall userId) [EnsureUser userId]
      \<and> snd (advance userId c s f) = run [EnsureUser userId] f"
    using Called by (simp add: isStoreCall_def)
  then show ?thesis by blast
next
  case Ensured
  have "list_all (isStoreCall userId) [GetUser userId]
      \<and> snd (advance userId c s f) = run [GetUser userId] f"
    using Ensured by (simp add: isStoreCall_def stakeAndCheck_eq getUser_eq)
  then show ?thesis by blast
next
  case (Checked chk)
  show ?thesis
  proof (cases chk)
    case (Inl msg)
    have "list_all (isStoreCall userId) [] \<and> snd (advance userId c s f) = run [] f"
      using Checked Inl by simp
    then show ?thesis by blast
  next
    case (Inr bal)
    obtain x where x: "isStoreCall userId x" "snd (settle userId c f) = step x f"
      using settle_store by blast
    have "list_all (isStoreCall userId) [x] \<and> snd (advance userId c s f) = run [x] f"
      using Checked Inr x by (simp add: case_prod_unfold)
    then show ?thesis by blast
  qed
next
  case (Returned out)
  have "list_all (isStoreCall userId) [] \<and> snd (advance userId c s f) = run [] f"
    using Returned by simp
  then show ?thesis by blast
qed

lemma stepAt_store:
  "\<exists>xs. list_all (isStoreCall userId) xs \<and> snd (stepAt userId calls i sf) = run xs (snd sf)"
proof (cases "i < length calls \<and> i < length (fst sf)")
  case True
  obtain xs where "list_all (isStoreCall userId) xs"
    "snd (advance userId (calls ! i) (fst sf ! i) (snd sf)) = run xs (snd sf)"
    using advance_store by blast
  then have "list_all (isStoreCall userId) xs \<and> snd (stepAt userId calls i sf) = run xs (snd sf)"
    using True by (cases sf) (simp add: case_prod_unfold Let_def)
  then show ?thesis by blast
next
  case False
  then have "list_all (isStoreCall userId) [] \<and> snd (stepAt userId calls i sf) = run [] (snd sf)"
    by (cases sf) auto
  then show ?thesis by blast
qed

lemma exec_store:
  "\<exists>xs. list_all (isStoreCall userId) xs \<and> snd (exec userId calls sched sf) = run xs (snd sf)"
proof (induction sched arbitrary: sf)
  case Nil
  have "list_all (isStoreCall userId) [] \<and> snd (exec userId calls [] sf) = run [] (snd sf)"
    by simp
  then show ?case by blast
next
  case (Cons i sched)
  obtain xs where xs: "list_all (isStoreCall userId) xs"
    "snd (stepAt userId calls i sf) = run xs (snd sf)"
    using stepAt_store by blast
  obtain ys where ys: "list_all (isStoreCall userId) ys"
    "snd (exec userId calls sched (stepAt userId calls i sf)) =
      run ys (snd (stepAt userId calls i sf))"
    using Cons.IH by blast
  have "list_all (isStoreCall userId) (xs @ ys)
      \<and> snd (exec userId calls (i # sched) sf) = run (xs @ ys) (snd sf)"
    using xs ys by (simp add: run_append)
  then show ?case by blast
qed

text \<open>
  C4. One process runs \<open>N\<close> wager calls on the same account at the same time, each a
  losing call with the bet \<open>b\<close>, from a file in which the account holds at least
  \<open>N * b\<close>. Whatever the order in which the pieces of the calls run, at every moment
  the stored balance is the first balance less \<open>b\<close> for every call that has returned,
  the history has one more entry \<open>- b\<close> for each of them, and no call is declined:
  no debit is lost and none is clamped. In every order that lets every call run its
  three pieces, all calls have returned and the stored balance is exactly the first
  balance less \<open>N * b\<close>. The pieces of one call, run with nothing between them, are the
  handler's call of the command. The file after any order is the file after store calls
  on this account run whole, one after the other: a call of \<open>add\<close> or \<open>remove\<close> reads,
  changes and writes the file with no \<open>await\<close> between, so no piece of another call
  runs inside it.
\<close>

theorem concurrent_losing_wagers:
  assumes "\<forall>c \<in> set calls. losing c \<and> parseBet (argAt (callArgs c) 0) = b"
    and "0 < b"
    and "int (length calls) * b \<le> gold (account f userId)"
  shows "gold (account (snd (exec userId calls sched (replicate (length calls) Called, f))) userId)
      = gold (account f userId)
        - b * int (returnedCount
            (fst (exec userId calls sched (replicate (length calls) Called, f))))
    \<and> map change (history
          (account (snd (exec userId calls sched (replicate (length calls) Called, f))) userId))
      = map change (history (account f userId))
        @ replicate (returnedCount
            (fst (exec userId calls sched (replicate (length calls) Called, f)))) (- b)
    \<and> list_all passed (fst (exec userId calls sched (replicate (length calls) Called, f)))
    \<and> ((\<forall>j < length calls. 3 \<le> count_list sched j) \<longrightarrow>
          list_all isReturned
            (fst (exec userId calls sched (replicate (length calls) Called, f)))
          \<and> gold (account (snd (exec userId calls sched (replicate (length calls) Called, f)))
               userId)
             = gold (account f userId) - int (length calls) * b)
    \<and> (\<forall>c \<in> set calls. \<forall>isOwnerId g.
          exec userId [c] [0, 0, 0] ([Called], g) =
            ([Returned (fst (handler_cmd isOwnerId (callClock c) (callRandom c) userId
                (callCmd c) (callArgs c) g))],
             snd (handler_cmd isOwnerId (callClock c) (callRandom c) userId (callCmd c)
                (callArgs c) g)))
    \<and> (\<exists>xs. list_all (isStoreCall userId) xs
          \<and> snd (exec userId calls sched (replicate (length calls) Called, f)) = run xs f)"
proof -
  let ?e = "exec userId calls sched (replicate (length calls) Called, f)"
  have inv: "scheduleInv userId b f (length calls) ?e"
    using assms scheduleInv_start by (rule exec_inv)
  have 1: "gold (account (snd ?e) userId) =
      gold (account f userId) - b * int (returnedCount (fst ?e))"
    and 2: "map change (history (account (snd ?e) userId)) =
      map change (history (account f userId)) @ replicate (returnedCount (fst ?e)) (- b)"
    and 3: "list_all passed (fst ?e)"
    and len: "length (fst ?e) = length calls"
    using inv by (simp_all add: scheduleInv_def)
  have 4: "list_all isReturned (fst ?e)
      \<and> gold (account (snd ?e) userId) = gold (account f userId) - int (length calls) * b"
    if fair: "\<forall>j < length calls. 3 \<le> count_list sched j"
  proof -
    have r: "list_all isReturned (fst ?e)" using fair by (rule fair_returns)
    have "returnedCount (fst ?e) = length calls"
      using all_returned [OF r] len by simp
    then show ?thesis using r 1 by (simp add: mult.commute)
  qed
  have 5: "exec userId [c] [0, 0, 0] ([Called], g) =
            ([Returned (fst (handler_cmd isOwnerId (callClock c) (callRandom c) userId
                (callCmd c) (callArgs c) g))],
             snd (handler_cmd isOwnerId (callClock c) (callRandom c) userId (callCmd c)
                (callArgs c) g))"
    if "c \<in> set calls" for c isOwnerId g
    using that assms(1) by (intro exec_alone losing_isWager) simp
  have 6: "\<exists>xs. list_all (isStoreCall userId) xs \<and> snd ?e = run xs f"
    using exec_store [of userId calls sched "(replicate (length calls) Called, f)"] by simp
  show ?thesis using 1 2 3 4 5 6 by blast
qed

text \<open>
  Two calls, \<open>.spin 10\<close> and \<open>.casino 10\<close>, both losing, on an account with 20, their
  pieces run in turn: both return their losing reply and the file holds the balance 0 with
  both debits in the history.
\<close>

theorem concurrent_losing_wagers_witness:
  "list_all (\<lambda>c. losing c \<and> parseBet (argAt (callArgs c) 0) = 10)
      [\<lparr>callCmd = ''spin'', callArgs = [''10''], callClock = \<lparr>claimNow = 1, waitNow = 1, historyNow = 1, cooldownNow = 1\<rparr>, callRandom = (\<lambda>_. 3 / 10)\<rparr>,
      \<lparr>callCmd = ''casino'', callArgs = [''10''], callClock = \<lparr>claimNow = 2, waitNow = 2, historyNow = 2, cooldownNow = 2\<rparr>, callRandom = (\<lambda>_. 1 / 10)\<rparr>]
   \<and> int (length [\<lparr>callCmd = ''spin'', callArgs = [''10''], callClock = \<lparr>claimNow = 1, waitNow = 1, historyNow = 1, cooldownNow = 1\<rparr>, callRandom = (\<lambda>_. 3 / 10)\<rparr>,
      \<lparr>callCmd = ''casino'', callArgs = [''10''], callClock = \<lparr>claimNow = 2, waitNow = 2, historyNow = 2, cooldownNow = 2\<rparr>, callRandom = (\<lambda>_. 1 / 10)\<rparr>]) * 10 \<le> gold (account (Stored \<lparr>users = [''u'' \<mapsto> \<lparr>gold = 20, cooldowns = Map.empty, history = []\<rparr>]\<rparr>) ''u'')
   \<and> 3 \<le> count_list [0, 1, 0, 1, 0, 1] (0::nat) \<and> 3 \<le> count_list [0, 1, 0, 1, 0, 1] (1::nat)
   \<and> gold (account (snd (exec ''u'' [\<lparr>callCmd = ''spin'', callArgs = [''10''], callClock = \<lparr>claimNow = 1, waitNow = 1, historyNow = 1, cooldownNow = 1\<rparr>, callRandom = (\<lambda>_. 3 / 10)\<rparr>,
      \<lparr>callCmd = ''casino'', callArgs = [''10''], callClock = \<lparr>claimNow = 2, waitNow = 2, historyNow = 2, cooldownNow = 2\<rparr>, callRandom = (\<lambda>_. 1 / 10)\<rparr>] [0, 1, 0, 1, 0, 1] (replicate (length [\<lparr>callCmd = ''spin'', callArgs = [''10''], callClock = \<lparr>claimNow = 1, waitNow = 1, historyNow = 1, cooldownNow = 1\<rparr>, callRandom = (\<lambda>_. 3 / 10)\<rparr>,
      \<lparr>callCmd = ''casino'', callArgs = [''10''], callClock = \<lparr>claimNow = 2, waitNow = 2, historyNow = 2, cooldownNow = 2\<rparr>, callRandom = (\<lambda>_. 1 / 10)\<rparr>]) Called, (Stored \<lparr>users = [''u'' \<mapsto> \<lparr>gold = 20, cooldowns = Map.empty, history = []\<rparr>]\<rparr>)))) ''u'')
      = gold (account (Stored \<lparr>users = [''u'' \<mapsto> \<lparr>gold = 20, cooldowns = Map.empty, history = []\<rparr>]\<rparr>) ''u'') - int (length [\<lparr>callCmd = ''spin'', callArgs = [''10''], callClock = \<lparr>claimNow = 1, waitNow = 1, historyNow = 1, cooldownNow = 1\<rparr>, callRandom = (\<lambda>_. 3 / 10)\<rparr>,
      \<lparr>callCmd = ''casino'', callArgs = [''10''], callClock = \<lparr>claimNow = 2, waitNow = 2, historyNow = 2, cooldownNow = 2\<rparr>, callRandom = (\<lambda>_. 1 / 10)\<rparr>]) * 10
   \<and> gold (account (Stored \<lparr>users = [''u'' \<mapsto> \<lparr>gold = 20, cooldowns = Map.empty, history = []\<rparr>]\<rparr>) ''u'') - int (length [\<lparr>callCmd = ''spin'', callArgs = [''10''], callClock = \<lparr>claimNow = 1, waitNow = 1, historyNow = 1, cooldownNow = 1\<rparr>, callRandom = (\<lambda>_. 3 / 10)\<rparr>,
      \<lparr>callCmd = ''casino'', callArgs = [''10''], callClock = \<lparr>claimNow = 2, waitNow = 2, historyNow = 2, cooldownNow = 2\<rparr>, callRandom = (\<lambda>_. 1 / 10)\<rparr>]) * 10 = 0
   \<and> exec ''u'' [\<lparr>callCmd = ''spin'', callArgs = [''10''], callClock = \<lparr>claimNow = 1, waitNow = 1, historyNow = 1, cooldownNow = 1\<rparr>, callRandom = (\<lambda>_. 3 / 10)\<rparr>,
      \<lparr>callCmd = ''casino'', callArgs = [''10''], callClock = \<lparr>claimNow = 2, waitNow = 2, historyNow = 2, cooldownNow = 2\<rparr>, callRandom = (\<lambda>_. 1 / 10)\<rparr>] [0, 1, 0, 1, 0, 1] (replicate (length [\<lparr>callCmd = ''spin'', callArgs = [''10''], callClock = \<lparr>claimNow = 1, waitNow = 1, historyNow = 1, cooldownNow = 1\<rparr>, callRandom = (\<lambda>_. 3 / 10)\<rparr>,
      \<lparr>callCmd = ''casino'', callArgs = [''10''], callClock = \<lparr>claimNow = 2, waitNow = 2, historyNow = 2, cooldownNow = 2\<rparr>, callRandom = (\<lambda>_. 1 / 10)\<rparr>]) Called, (Stored \<lparr>users = [''u'' \<mapsto> \<lparr>gold = 20, cooldowns = Map.empty, history = []\<rparr>]\<rparr>)) =
       ([Returned (Sent (SpinLost 10)), Returned (Sent (HouseWins 10))],
        Stored \<lparr>users = [''u'' \<mapsto> \<lparr>gold = 0, cooldowns = Map.empty,
          history = [\<lparr>time = 1, change = - 10\<rparr>, \<lparr>time = 2, change = - 10\<rparr>]\<rparr>]\<rparr>)"
proof -
  let ?calls = "[\<lparr>callCmd = ''spin'', callArgs = [''10''], callClock = \<lparr>claimNow = 1, waitNow = 1, historyNow = 1, cooldownNow = 1\<rparr>, callRandom = (\<lambda>_. 3 / 10)\<rparr>,
      \<lparr>callCmd = ''casino'', callArgs = [''10''], callClock = \<lparr>claimNow = 2, waitNow = 2, historyNow = 2, cooldownNow = 2\<rparr>, callRandom = (\<lambda>_. 1 / 10)\<rparr>]"
  let ?f = "(Stored \<lparr>users = [''u'' \<mapsto> \<lparr>gold = 20, cooldowns = Map.empty, history = []\<rparr>]\<rparr>)"
  have h1: "\<forall>c \<in> set ?calls. losing c \<and> parseBet (argAt (callArgs c) 0) = 10"
    by (simp add: losing_def text_eval)
  have h2: "(0::int) < 10" by simp
  have h3: "int (length ?calls) * 10 \<le> gold (account ?f ''u'')"
    by (simp add: store_eval)
  have h4: "\<forall>j < length ?calls. 3 \<le> count_list [0, 1, 0, 1, 0, 1] j"
    by (auto simp add: less_Suc_eq numeral_2_eq_2)
  have g: "gold (account ?f ''u'') - int (length ?calls) * 10 = 0"
    by (simp add: store_eval)
  have c: "gold (account (snd (exec ''u'' ?calls [0, 1, 0, 1, 0, 1] (replicate (length ?calls) Called, ?f))) ''u'')
      = gold (account ?f ''u'') - int (length ?calls) * 10"
    using concurrent_losing_wagers [OF h1 h2 h3, of "[0, 1, 0, 1, 0, 1]"] h4 by blast
  have v: "exec ''u'' ?calls [0, 1, 0, 1, 0, 1] (replicate (length ?calls) Called, ?f) =
       ([Returned (Sent (SpinLost 10)), Returned (Sent (HouseWins 10))],
        Stored \<lparr>users = [''u'' \<mapsto> \<lparr>gold = 0, cooldowns = Map.empty,
          history = [\<lparr>time = 1, change = - 10\<rparr>, \<lparr>time = 2, change = - 10\<rparr>]\<rparr>]\<rparr>)"
    by (simp add: numeral_2_eq_2 settle_def spin_settle_def casino_settle_def stakeAndCheck_def
        store_eval text_eval)
  have w1: "list_all (\<lambda>c. losing c \<and> parseBet (argAt (callArgs c) 0) = 10) ?calls"
    using h1 by (simp only: list_all_iff)
  have w4: "3 \<le> count_list [0, 1, 0, 1, 0, 1] (0::nat) \<and> 3 \<le> count_list [0, 1, 0, 1, 0, 1] (1::nat)"
    by simp
  show ?thesis using w1 h3 w4 g c v by blast
qed

end
